theory Spec2Isabelle
  imports Complex_Main "HOL-Library.Word"
begin

section \<open>Errors\<close>

text \<open>
  Errors are values. The package \<open>vterrors\<close> attaches a code to an error and keeps it
  through \<open>Wrap\<close>; errors of other packages (\<open>os\<close>, \<open>io\<close>, \<open>context\<close>,
  \<open>fmt.Errorf\<close>) carry no code. \<open>concurrency.AllErrorRecorder\<close> consolidates the
  errors it recorded into one error.
\<close>

datatype Code = OK | CANCELED | UNKNOWN | INTERNAL | FAILED_PRECONDITION
  | UNAVAILABLE | RESOURCE_EXHAUSTED | UNIMPLEMENTED

datatype error =
    Errorf Code string
  | Wrap error string
  | Foreign string
  | Aggregate "error list"

fun ErrCode :: "error \<Rightarrow> Code" where
  "ErrCode (Errorf c m) = c"
| "ErrCode (Wrap e m) = ErrCode e"
| "ErrCode (Foreign m) = UNKNOWN"
| "ErrCode (Aggregate es) = UNKNOWN"

text \<open>The text of an error, \<open>err.Error()\<close>: a wrapper prefixes its own message.\<close>

fun ErrorText :: "error \<Rightarrow> string" where
  "ErrorText (Errorf c m) = m"
| "ErrorText (Wrap e m) = m @ '': '' @ ErrorText e"
| "ErrorText (Foreign m) = m"
| "ErrorText (Aggregate es) = concat (map (\<lambda>e. ErrorText e @ '';'') es)"

text \<open>\<open>caused_by e c\<close>: the error \<open>c\<close> is \<open>e\<close> itself or stands below wrappers and
  consolidations of \<open>e\<close>.\<close>

fun caused_by :: "error \<Rightarrow> error \<Rightarrow> bool" where
  "caused_by (Wrap e m) c = (Wrap e m = c \<or> caused_by e c)"
| "caused_by (Aggregate es) c = (Aggregate es = c \<or> (\<exists>e \<in> set es. caused_by e c))"
| "caused_by e c = (e = c)"

text \<open>What a call does: it returns, it panics, or it never returns (it blocks or loops forever).\<close>

datatype 'a outcome = Returns 'a | Panics | NeverReturns

section \<open>The health streamer (health\_streamer.go)\<close>

datatype TabletType = TYPE_UNKNOWN | PRIMARY | REPLICA | RDONLY | SPARE
  | EXPERIMENTAL | BACKUP | RESTORE | DRAINED

record Target =
  Keyspace :: string
  Shard :: string
  TabletType :: TabletType

text \<open>Slices of names: \<open>nil\<close> and the empty slice both have length 0 and are the
  empty list here. \<open>Qps\<close> is a float64 that is only stored.\<close>

record RealtimeStats =
  HealthError :: string
  ReplicationLagSeconds :: "32 word"
  FilteredReplicationLagSeconds :: "64 word"
  BinlogPlayersCount :: "32 word"
  Qps :: real
  TableSchemaChanged :: "string list"
  ViewSchemaChanged :: "string list"

record StreamHealthResponse =
  Target :: Target
  Serving :: bool
  TabletExternallyReparentedTimestamp :: "64 word"
  RealtimeStats :: RealtimeStats

text \<open>A buffered Go channel: its queue, its capacity, and whether it was closed.\<close>

record 'a chan =
  queue :: "'a list"
  capacity :: nat
  is_closed :: bool

text \<open>
  The streamer. \<open>clients\<close> is the key set of the Go map \<open>hs.clients\<close>, whose keys are
  channels; a channel is an address in \<open>chans\<close>, so that a subscriber still holds its
  channel after the streamer dropped it. \<open>cancel\<close> is \<open>hs.cancel != nil\<close>. The loops
  over the map visit the keys in the order of the list. The history ring (package
  \<open>history\<close>) is only written and is left out.
\<close>

record healthStreamer =
  cancel :: bool
  clients :: "nat list"
  chans :: "nat \<Rightarrow> StreamHealthResponse chan option"
  next_chan :: nat
  state :: StreamHealthResponse
  viewsEnabled :: bool

text \<open>\<open>register\<close>: a new channel of capacity \<open>streamHealthBufferSize\<close> joins the
  clients and receives the current state by a blocking send, which on a channel of
  capacity 0 without a receiver never returns.\<close>

definition register ::
  "64 word \<Rightarrow> healthStreamer \<Rightarrow> (nat option \<times> healthStreamer) outcome" where
  "register streamHealthBufferSize hs =
     (if \<not> cancel hs then Returns (None, hs)
      else
        let ch = next_chan hs;
            c = \<lparr>queue = [], capacity = unat streamHealthBufferSize, is_closed = False\<rparr>;
            hs1 = hs\<lparr>chans := (chans hs)(ch \<mapsto> c), next_chan := Suc ch,
                     clients := clients hs @ [ch]\<rparr>
        in if length (queue c) < capacity c
           then Returns (Some ch,
                  hs1\<lparr>chans := (chans hs1)(ch \<mapsto> c\<lparr>queue := queue c @ [state hs]\<rparr>)\<rparr>)
           else NeverReturns)"

definition unregister :: "nat \<Rightarrow> healthStreamer \<Rightarrow> healthStreamer" where
  "unregister ch hs = hs\<lparr>clients := removeAll ch (clients hs)\<rparr>"

text \<open>
  \<open>broadCastToClients\<close>: for each client, \<open>select\<close> with a send case and a
  \<open>default\<close>. The send case is taken when the buffer has room; a send on a closed
  channel panics; otherwise the default closes the channel and deletes the client.
\<close>

fun broadcast_loop ::
  "StreamHealthResponse \<Rightarrow> nat list \<Rightarrow> healthStreamer \<Rightarrow> healthStreamer outcome" where
  "broadcast_loop shr [] hs = Returns hs"
| "broadcast_loop shr (ch # rest) hs =
     (case chans hs ch of
        None \<Rightarrow> Panics
      | Some c \<Rightarrow>
          if is_closed c then Panics
          else if length (queue c) < capacity c
          then broadcast_loop shr rest
                 (hs\<lparr>chans := (chans hs)(ch \<mapsto> c\<lparr>queue := queue c @ [shr]\<rparr>)\<rparr>)
          else broadcast_loop shr rest
                 (hs\<lparr>chans := (chans hs)(ch \<mapsto> c\<lparr>is_closed := True\<rparr>),
                     clients := removeAll ch (clients hs)\<rparr>))"

definition broadCastToClients ::
  "StreamHealthResponse \<Rightarrow> healthStreamer \<Rightarrow> healthStreamer outcome" where
  "broadCastToClients shr hs = broadcast_loop shr (clients hs) hs"

text \<open>
  One call of \<open>ChangeState\<close>. \<open>terUnix\<close> is \<open>terTimestamp.Unix()\<close>, \<open>lagSeconds\<close> is
  \<open>uint32(lag.Seconds())\<close>, \<open>changeErr\<close> is the argument \<open>err\<close>, \<open>blp\<close> is what \<open>blpFunc()\<close> returns and \<open>totalRate\<close> what
  \<open>hs.stats.QPSRates.TotalRate()\<close> returns at the call.
\<close>

record stateChange =
  tabletType :: TabletType
  terUnix :: "64 word"
  lagSeconds :: "32 word"
  changeErr :: "error option"
  serving :: bool
  blp :: "64 word \<times> 32 word"
  totalRate :: real

definition newState :: "stateChange \<Rightarrow> StreamHealthResponse \<Rightarrow> StreamHealthResponse" where
  "newState a s =
     s\<lparr>Target := (Target s)\<lparr>TabletType := tabletType a\<rparr>,
       TabletExternallyReparentedTimestamp :=
         (if tabletType a = PRIMARY then terUnix a else 0),
       RealtimeStats := (RealtimeStats s)
         \<lparr>HealthError := (case changeErr a of Some e \<Rightarrow> ErrorText e | None \<Rightarrow> []),
          ReplicationLagSeconds := lagSeconds a,
          FilteredReplicationLagSeconds := fst (blp a),
          BinlogPlayersCount := snd (blp a),
          Qps := totalRate a\<rparr>,
       Serving := serving a\<rparr>"

definition ChangeState :: "stateChange \<Rightarrow> healthStreamer \<Rightarrow> healthStreamer outcome" where
  "ChangeState a hs =
     (let hs1 = hs\<lparr>state := newState a (state hs)\<rparr>
      in broadCastToClients (state hs1) hs1)"

text \<open>A sequence of state changes, each on the streamer the one before left.\<close>

fun ChangeStates :: "stateChange list \<Rightarrow> healthStreamer \<Rightarrow> healthStreamer outcome" where
  "ChangeStates [] hs = Returns hs"
| "ChangeStates (a # as) hs =
     (case ChangeState a hs of
        Returns hs1 \<Rightarrow> ChangeStates as hs1
      | Panics \<Rightarrow> Panics
      | NeverReturns \<Rightarrow> NeverReturns)"

text \<open>
  The schema reload. What the database connection answers is given by \<open>dbconn\<close>:
  for a streamed query the rows handed to the callback and the error of the stream, for
  an executed statement its error. The steps of \<open>getChangedViewNames\<close> after the first
  query (\<open>BuildBindVariable\<close>, \<open>getViewDefinition\<close>, \<open>getCreateViewStatement\<close>,
  \<open>updateViewsTable\<close>) only work on the database and are given by their errors.
\<close>

record dbconn =
  stream_DetectSchemaChange :: "string list \<times> error option"
  stream_DetectSchemaChangeOnlyBaseTable :: "string list \<times> error option"
  exec_begin :: "error option"
  exec_del :: "error option"
  exec_upd :: "error option"
  exec_commit :: "error option"
  stream_DetectViewChange :: "string list \<times> error option"
  BuildBindVariable :: "error option"
  getViewDefinition :: "error option"
  getCreateViewStatement :: "error option"
  updateViewsTable :: "error option"

definition getChangedTableNames ::
  "healthStreamer \<Rightarrow> dbconn \<Rightarrow> string list \<times> error option" where
  "getChangedTableNames hs conn =
     (let (tables, serr) =
            (if viewsEnabled hs then stream_DetectSchemaChangeOnlyBaseTable conn
             else stream_DetectSchemaChange conn)
      in case serr of
           Some e \<Rightarrow> ([], Some e)
         | None \<Rightarrow>
             if length tables = 0 then ([], None)
             else (case exec_begin conn of
                     Some e \<Rightarrow> ([], Some e)
                   | None \<Rightarrow>
                 (case exec_del conn of
                     Some e \<Rightarrow> ([], Some e)
                   | None \<Rightarrow>
                 (case exec_upd conn of
                     Some e \<Rightarrow> ([], Some e)
                   | None \<Rightarrow>
                 (case exec_commit conn of
                     Some e \<Rightarrow> ([], Some e)
                   | None \<Rightarrow> (tables, None))))))"

text \<open>\<open>getChangedViewNames\<close> has named results: on an error after the first query
  it returns the error together with the names collected so far.\<close>

definition getChangedViewNames ::
  "healthStreamer \<Rightarrow> dbconn \<Rightarrow> string list \<times> error option" where
  "getChangedViewNames hs conn =
     (if \<not> viewsEnabled hs then ([], None)
      else
        let (views, serr) = stream_DetectViewChange conn
        in case serr of
             Some e \<Rightarrow> (views, Some e)
           | None \<Rightarrow>
               if length views = 0 then (views, None)
               else (case BuildBindVariable conn of
                       Some e \<Rightarrow> (views, Some e)
                     | None \<Rightarrow>
                   (case getViewDefinition conn of
                       Some e \<Rightarrow> (views, Some e)
                     | None \<Rightarrow>
                   (case getCreateViewStatement conn of
                       Some e \<Rightarrow> (views, Some e)
                     | None \<Rightarrow> (views, updateViewsTable conn)))))"

text \<open>\<open>reload\<close>. \<open>conns_Get\<close> is the error of \<open>hs.conns.Get\<close>, if any.\<close>

definition reload ::
  "error option \<Rightarrow> dbconn \<Rightarrow> healthStreamer \<Rightarrow> (error option \<times> healthStreamer) outcome" where
  "reload conns_Get conn hs =
     (if TabletType (Target (state hs)) \<noteq> PRIMARY then Returns (None, hs)
      else case conns_Get of
        Some e \<Rightarrow> Returns (Some e, hs)
      | None \<Rightarrow>
         (case getChangedTableNames hs conn of
            (tables, Some e) \<Rightarrow> Returns (Some e, hs)
          | (tables, None) \<Rightarrow>
             (let (views0, verr) = getChangedViewNames hs conn
              in if verr \<noteq> None \<and> length tables = 0 then Returns (verr, hs)
                 else
                   let views = (if verr \<noteq> None then [] else views0)
                   in if length tables = 0 \<and> length views = 0 then Returns (None, hs)
                      else
                        let hs1 = hs\<lparr>state := (state hs)\<lparr>RealtimeStats :=
                                     (RealtimeStats (state hs))
                                       \<lparr>TableSchemaChanged := tables,
                                        ViewSchemaChanged := views\<rparr>\<rparr>\<rparr>
                        in case broadCastToClients (state hs1) hs1 of
                             Returns hs2 \<Rightarrow>
                               Returns (None,
                                 hs2\<lparr>state := (state hs2)\<lparr>RealtimeStats :=
                                        (RealtimeStats (state hs2))
                                          \<lparr>TableSchemaChanged := [],
                                           ViewSchemaChanged := []\<rparr>\<rparr>\<rparr>)
                           | Panics \<Rightarrow> Panics
                           | NeverReturns \<Rightarrow> NeverReturns)))"

text \<open>Concrete values for the examples below.\<close>

definition state0 :: StreamHealthResponse where
  "state0 = \<lparr>Target = \<lparr>Keyspace = ''ks'', Shard = ''0'', TabletType = PRIMARY\<rparr>,
             Serving = False, TabletExternallyReparentedTimestamp = 0,
             RealtimeStats = \<lparr>HealthError = ''tabletserver uninitialized'',
               ReplicationLagSeconds = 0, FilteredReplicationLagSeconds = 0,
               BinlogPlayersCount = 0, Qps = 0, TableSchemaChanged = [],
               ViewSchemaChanged = []\<rparr>\<rparr>"

definition hs_open :: healthStreamer where
  "hs_open = \<lparr>cancel = True, clients = [], chans = (\<lambda>_. None), next_chan = 0,
              state = state0, viewsEnabled = True\<rparr>"

definition change :: "nat \<Rightarrow> stateChange" where
  "change n = \<lparr>tabletType = REPLICA, terUnix = 0, lagSeconds = of_nat n, changeErr = None,
               serving = True, blp = (0, 0), totalRate = 0\<rparr>"

definition conn_views_fail :: dbconn where
  "conn_views_fail =
     \<lparr>stream_DetectSchemaChange = ([], None),
      stream_DetectSchemaChangeOnlyBaseTable = ([''t1'', ''t2''], None),
      exec_begin = None, exec_del = None, exec_upd = None, exec_commit = None,
      stream_DetectViewChange = ([''v1''], Some (Foreign ''lost connection'')),
      BuildBindVariable = None, getViewDefinition = None,
      getCreateViewStatement = None, updateViewsTable = None\<rparr>"

definition hs_subscribed :: healthStreamer where
  "hs_subscribed =
     hs_open\<lparr>clients := [0], next_chan := 1,
       chans := (chans hs_open)(0 \<mapsto> \<lparr>queue = [state0], capacity = 2, is_closed = False\<rparr>)\<rparr>"

text \<open>
  The overflow scenario: a subscriber registers on a streamer whose channels have
  capacity \<open>bufferSize\<close>, the state changes \<open>as\<close> follow, and nothing is received. The
  result is the subscriber's channel and whether it is still a client; it is \<open>None\<close>
  when \<open>register\<close> gave no channel or some call did not return.
\<close>

definition overflow_scenario ::
  "64 word \<Rightarrow> stateChange list \<Rightarrow> healthStreamer \<Rightarrow> (StreamHealthResponse chan \<times> bool) option" where
  "overflow_scenario bufferSize as hs =
     (case register bufferSize hs of
        Returns (Some ch, hs1) \<Rightarrow>
          (case ChangeStates as hs1 of
             Returns hs2 \<Rightarrow>
               (case chans hs2 ch of
                  Some c \<Rightarrow> Some (c, ch \<in> set (clients hs2))
                | None \<Rightarrow> None)
           | _ \<Rightarrow> None)
      | _ \<Rightarrow> None)"

subsection \<open>Properties of the health streamer\<close>

lemma broadcast_loop_state:
  "broadcast_loop shr cs hs = Returns hs' \<Longrightarrow> state hs' = state hs"
  by (induction cs arbitrary: hs) (auto split: option.splits if_splits)

lemma broadcast_loop_not_blocked: "broadcast_loop shr cs hs \<noteq> NeverReturns"
  by (induction cs arbitrary: hs) (auto split: option.splits if_splits)

lemma ChangeStates_no_clients:
  "clients hs = [] \<Longrightarrow>
   \<exists>hs'. ChangeStates as hs = Returns hs' \<and> chans hs' = chans hs \<and> clients hs' = []"
proof (induction as arbitrary: hs)
  case Nil
  then show ?case by simp
next
  case (Cons a as)
  let ?h = "hs\<lparr>state := newState a (state hs)\<rparr>"
  from Cons.prems have step: "ChangeState a hs = Returns ?h"
    by (simp add: ChangeState_def broadCastToClients_def Let_def)
  from Cons.prems have "clients ?h = []" by simp
  from Cons.IH [OF this] obtain hs' where
    "ChangeStates as ?h = Returns hs'" "chans hs' = chans ?h" "clients hs' = []" by blast
  with step show ?case by simp
qed

lemma ChangeStates_append:
  "ChangeStates (as @ bs) hs =
     (case ChangeStates as hs of Returns hs1 \<Rightarrow> ChangeStates bs hs1
      | Panics \<Rightarrow> Panics | NeverReturns \<Rightarrow> NeverReturns)"
  by (induction as arbitrary: hs) (auto split: outcome.splits)

lemma register_then_two:
  assumes "cancel hs" and "clients hs = []"
  shows "\<exists>hs1 hs3. register 2 hs = Returns (Some (next_chan hs), hs1)
           \<and> ChangeStates [a, b] hs1 = Returns hs3 \<and> clients hs3 = []
           \<and> chans hs3 (next_chan hs) =
               Some \<lparr>queue = [state hs, newState a (state hs)], capacity = 2,
                     is_closed = True\<rparr>"
  using assms
  by (simp add: register_def Let_def ChangeState_def broadCastToClients_def)

text \<open>
  C3 (as the code has it). With channels of capacity 2, on an open streamer without
  other clients: \<open>register\<close> puts the current state into the new channel, so the first
  state change fills the buffer and the second one finds it full, closes the channel
  and deletes the client. Every call returns (no send blocks, nothing panics); the
  channel keeps the two buffered states and is closed exactly when at least two state
  changes were broadcast, and the subscriber is a client exactly while fewer than two
  were.
\<close>

theorem overflow_closes_at_second_change:
  assumes "cancel hs" and "clients hs = []"
  shows "overflow_scenario 2 as hs =
           Some (\<lparr>queue = state hs # map (\<lambda>a. newState a (state hs)) (take 1 as),
                  capacity = 2, is_closed = (2 \<le> length as)\<rparr>,
                 length as < 2)"
proof (cases as)
  case Nil
  with assms show ?thesis by (simp add: overflow_scenario_def register_def Let_def)
next
  case (Cons a bs)
  note A = Cons
  show ?thesis
  proof (cases bs)
    case Nil
    with A assms show ?thesis
      by (simp add: overflow_scenario_def register_def Let_def ChangeState_def
            broadCastToClients_def)
  next
    case (Cons b cs)
    from register_then_two [OF assms, of a b] obtain hs1 hs3 where
      r: "register 2 hs = Returns (Some (next_chan hs), hs1)" and
      c2: "ChangeStates [a, b] hs1 = Returns hs3" and
      cl: "clients hs3 = []" and
      ch: "chans hs3 (next_chan hs) =
             Some \<lparr>queue = [state hs, newState a (state hs)], capacity = 2,
                   is_closed = True\<rparr>"
      by blast
    from ChangeStates_no_clients [OF cl, of cs] obtain hs2 where
      rest: "ChangeStates cs hs3 = Returns hs2" "chans hs2 = chans hs3" "clients hs2 = []"
      by blast
    have "as = [a, b] @ cs" using A Cons by simp
    then have "ChangeStates as hs1 = Returns hs2"
      using c2 rest(1) by (simp only: ChangeStates_append outcome.case)
    with r rest ch A Cons show ?thesis by (simp add: overflow_scenario_def)
  qed
qed

theorem overflow_closes_at_second_change_witness:
  "cancel hs_open \<and> clients hs_open = [] \<and>
   overflow_scenario 2 [change 1, change 2, change 3, change 4, change 5] hs_open =
     Some (\<lparr>queue = [state0, newState (change 1) state0], capacity = 2, is_closed = True\<rparr>,
           False)"
  using overflow_closes_at_second_change
          [of hs_open "[change 1, change 2, change 3, change 4, change 5]"]
  by (simp add: hs_open_def)

text \<open>
  C3 as stated has the channel closed after the third state change, so open after the
  second. On the code the second state change already closes it and removes the
  subscriber.
\<close>

theorem overflow_third_change_counterexample:
  "overflow_scenario 2 [change 1, change 2] hs_open =
     Some (\<lparr>queue = [state0, newState (change 1) state0], capacity = 2, is_closed = True\<rparr>,
           False)"
  by (simp add: overflow_scenario_def hs_open_def register_def Let_def ChangeState_def
        broadCastToClients_def)

text \<open>
  C10. On a primary, with a connection, when the changed tables were read and the view
  query failed with \<open>e\<close>: if no table changed, \<open>reload\<close> returns \<open>e\<close> and leaves the
  streamer as it was; otherwise it broadcasts the state with the changed tables and no
  views, returns no error, and the state it leaves has both fields empty again.
\<close>

theorem reload_view_query_error:
  assumes "TabletType (Target (state hs)) = PRIMARY"
    and "getChangedTableNames hs conn = (tables, None)"
    and "getChangedViewNames hs conn = (vs, Some e)"
  shows "reload None conn hs =
           (if length tables = 0 then Returns (Some e, hs)
            else case broadCastToClients
                        ((state hs)\<lparr>RealtimeStats := (RealtimeStats (state hs))
                            \<lparr>TableSchemaChanged := tables, ViewSchemaChanged := []\<rparr>\<rparr>)
                        (hs\<lparr>state := (state hs)\<lparr>RealtimeStats := (RealtimeStats (state hs))
                            \<lparr>TableSchemaChanged := tables, ViewSchemaChanged := []\<rparr>\<rparr>\<rparr>) of
                   Returns hs2 \<Rightarrow>
                     Returns (None, hs2\<lparr>state := (state hs)\<lparr>RealtimeStats :=
                        (RealtimeStats (state hs))
                          \<lparr>TableSchemaChanged := [], ViewSchemaChanged := []\<rparr>\<rparr>\<rparr>)
                 | Panics \<Rightarrow> Panics
                 | NeverReturns \<Rightarrow> NeverReturns)"
proof (cases "length tables = 0")
  case True
  with assms show ?thesis by (simp add: reload_def)
next
  case False
  let ?shr = "(state hs)\<lparr>RealtimeStats := (RealtimeStats (state hs))
                            \<lparr>TableSchemaChanged := tables, ViewSchemaChanged := []\<rparr>\<rparr>"
  show ?thesis
  proof (cases "broadCastToClients ?shr (hs\<lparr>state := ?shr\<rparr>)")
    case (Returns hs2)
    then have "state hs2 = ?shr"
      using broadcast_loop_state [of ?shr "clients hs" "hs\<lparr>state := ?shr\<rparr>" hs2]
      by (simp add: broadCastToClients_def)
    with Returns False assms show ?thesis by (simp add: reload_def)
  next
    case Panics
    with False assms show ?thesis by (simp add: reload_def)
  next
    case NeverReturns
    with False assms show ?thesis by (simp add: reload_def)
  qed
qed

theorem reload_view_query_error_witness:
  "TabletType (Target (state hs_subscribed)) = PRIMARY \<and>
   getChangedTableNames hs_subscribed conn_views_fail = ([''t1'', ''t2''], None) \<and>
   getChangedViewNames hs_subscribed conn_views_fail =
     ([''v1''], Some (Foreign ''lost connection'')) \<and>
   reload None conn_views_fail hs_subscribed =
     Returns (None, hs_subscribed\<lparr>chans := (chans hs_subscribed)(0 \<mapsto>
        \<lparr>queue = [state0, state0\<lparr>RealtimeStats := (RealtimeStats state0)
                    \<lparr>TableSchemaChanged := [''t1'', ''t2''], ViewSchemaChanged := []\<rparr>\<rparr>],
         capacity = 2, is_closed = False\<rparr>)\<rparr>)"
  using reload_view_query_error [of hs_subscribed conn_views_fail "[''t1'', ''t2'']"
          "[''v1'']" "Foreign ''lost connection''"]
  by (simp add: hs_subscribed_def hs_open_def state0_def conn_views_fail_def
        getChangedTableNames_def getChangedViewNames_def broadCastToClients_def)

section \<open>The backup pipe (builtin backup engine)\<close>

text \<open>
  \<open>backupPipe\<close>, with the fields \<open>Close\<close> touches: the buffered writer \<open>w\<close> (\<open>None\<close>
  is the nil pointer of a reading pipe), the channel \<open>done\<close> (here: whether it was
  closed) and the int32 flag \<open>closed\<close>. The buffered writer is a value of any type
  \<open>'w\<close>; \<open>Flush\<close> is given as a function from the writer to its error and the writer
  it leaves.
\<close>

record 'w backupPipe =
  bp_filename :: string
  bp_maxSize :: "64 word"
  bp_w :: "'w option"
  bp_nn :: "64 word"
  bp_done :: bool
  bp_closed :: "32 word"

definition newBackupWriter :: "string \<Rightarrow> 64 word \<Rightarrow> 'w \<Rightarrow> 'w backupPipe" where
  "newBackupWriter filename maxSize wr =
     \<lparr>bp_filename = filename, bp_maxSize = maxSize, bp_w = Some wr, bp_nn = 0,
      bp_done = False, bp_closed = 0\<rparr>"

definition newBackupReader :: "string \<Rightarrow> 64 word \<Rightarrow> 'w backupPipe" where
  "newBackupReader filename maxSize =
     \<lparr>bp_filename = filename, bp_maxSize = maxSize, bp_w = None, bp_nn = 0,
      bp_done = False, bp_closed = 0\<rparr>"

text \<open>
  \<open>Close\<close>: the compare-and-swap of \<open>closed\<close> from 0 to 1 guards the body;
  \<open>close(bp.done)\<close> panics on a channel that is closed already; the flush error, if
  any, is returned.
\<close>

definition backupPipe_Close ::
  "('w \<Rightarrow> error option \<times> 'w) \<Rightarrow> 'w backupPipe \<Rightarrow> (error option \<times> 'w backupPipe) outcome" where
  "backupPipe_Close Flush bp =
     (if bp_closed bp = 0
      then
        let bp1 = bp\<lparr>bp_closed := 1\<rparr>
        in if bp_done bp1 then Panics
           else
             let bp2 = bp1\<lparr>bp_done := True\<rparr>
             in (case bp_w bp2 of
                   None \<Rightarrow> Returns (None, bp2)
                 | Some wr \<Rightarrow>
                     (case Flush wr of
                        (Some e, wr') \<Rightarrow> Returns (Some e, bp2\<lparr>bp_w := Some wr'\<rparr>)
                      | (None, wr') \<Rightarrow> Returns (None, bp2\<lparr>bp_w := Some wr'\<rparr>)))
      else Returns (None, bp))"

text \<open>A writer for the examples: the bytes buffered and the bytes that reached the
  sink; its flush fails when the sink is full (more than 4 bytes).\<close>

definition flush_small_sink :: "string \<times> string \<Rightarrow> error option \<times> (string \<times> string)" where
  "flush_small_sink wr =
     (if length (snd wr @ fst wr) \<le> 4 then (None, ([], snd wr @ fst wr))
      else (Some (Foreign ''short write''), wr))"

subsection \<open>Properties of the backup pipe\<close>

lemma backupPipe_Close_closed:
  "bp_closed bp \<noteq> 0 \<Longrightarrow> backupPipe_Close Flush bp = Returns (None, bp)"
  by (simp add: backupPipe_Close_def)

text \<open>
  C9. On a pipe that was not closed (\<open>closed\<close> is 0 and \<open>done\<close> is open, as the two
  constructors leave it), the first \<open>Close\<close> sets the flag, closes \<open>done\<close>, flushes the
  writer if there is one and returns the error of the flush; a call on the pipe it
  leaves returns nil and leaves the pipe as it is (so does every later call), without
  flushing, whatever \<open>Flush\<close> would do.
\<close>

theorem backupPipe_Close_idempotent:
  assumes "bp_closed bp = 0" and "\<not> bp_done bp"
  shows "let r = (case bp_w bp of None \<Rightarrow> None | Some wr \<Rightarrow> fst (Flush wr));
             bp1 = bp\<lparr>bp_closed := 1, bp_done := True,
                      bp_w := map_option (\<lambda>wr. snd (Flush wr)) (bp_w bp)\<rparr>
         in backupPipe_Close Flush bp = Returns (r, bp1)
            \<and> backupPipe_Close Flush bp1 = Returns (None, bp1)"
  using assms
  by (auto simp: backupPipe_Close_def Let_def split: option.splits prod.splits)

theorem backupPipe_Close_idempotent_witness:
  "bp_closed (newBackupWriter ''ibdata1'' 5 (''hello'', [])) = 0 \<and>
   \<not> bp_done (newBackupWriter ''ibdata1'' 5 (''hello'', [])) \<and>
   backupPipe_Close flush_small_sink (newBackupWriter ''ibdata1'' 5 (''hello'', [])) =
     Returns (Some (Foreign ''short write''),
       \<lparr>bp_filename = ''ibdata1'', bp_maxSize = 5, bp_w = Some (''hello'', []), bp_nn = 0,
        bp_done = True, bp_closed = 1\<rparr>) \<and>
   backupPipe_Close flush_small_sink
       \<lparr>bp_filename = ''ibdata1'', bp_maxSize = 5, bp_w = Some (''hello'', []), bp_nn = 0,
        bp_done = True, bp_closed = 1\<rparr> =
     Returns (None,
       \<lparr>bp_filename = ''ibdata1'', bp_maxSize = 5, bp_w = Some (''hello'', []), bp_nn = 0,
        bp_done = True, bp_closed = 1\<rparr>)"
  using backupPipe_Close_idempotent
          [of "newBackupWriter ''ibdata1'' 5 (''hello'', [])" flush_small_sink]
  by (simp add: newBackupWriter_def flush_small_sink_def Let_def)

section \<open>The file tasks of backup and restore\<close>

text \<open>
  \<open>backupFiles\<close> and \<open>restoreFiles\<close> start one goroutine per file, bounded by a
  weighted semaphore of capacity \<open>N\<close>, and wait for all of them. A task waits for the
  semaphore; holding it, it stops with a cancelled error when the context is done, stops
  silently when the recorder has errors, and otherwise works on its file and records
  what the work gave. The goroutines meet only at the semaphore and at the recorder, so
  a run is an interleaving of two steps per task: the step that takes the semaphore and
  makes the two checks, and the step that ends the work, records and releases.

  \<open>acq i\<close> is the error \<open>sema.Acquire\<close> returns to task \<open>i\<close> when the context ends
  while it waits (\<open>None\<close>: it keeps waiting), \<open>ctxDone i\<close> whether the context is done
  at its check, and \<open>work i\<close> the errors its work records: the error returned for the
  file, and errors the storage records on the handle meanwhile.
\<close>

datatype task_status = Waiting | Running | Finished

datatype task_event =
    AcquireFailed nat error
  | Cancelled nat
  | Skipped nat
  | Ran nat "error list"

record pool =
  status :: "task_status list"
  recorded :: "error list"
  tlog :: "task_event list"

definition running :: "pool \<Rightarrow> nat" where
  "running p = length (filter (\<lambda>s. s = Running) (status p))"

definition task_step ::
  "int \<Rightarrow> (nat \<Rightarrow> error option) \<Rightarrow> (nat \<Rightarrow> bool) \<Rightarrow> (nat \<Rightarrow> error list) \<Rightarrow> pool \<Rightarrow> nat \<Rightarrow> pool" where
  "task_step N acq ctxDone work p i =
     (if length (status p) \<le> i then p
      else case status p ! i of
        Finished \<Rightarrow> p
      | Running \<Rightarrow>
          p\<lparr>status := (status p)[i := Finished],
            recorded := recorded p @ work i,
            tlog := tlog p @ [Ran i (work i)]\<rparr>
      | Waiting \<Rightarrow>
          if int (running p) < N
          then (if ctxDone i
                then p\<lparr>status := (status p)[i := Finished],
                       recorded := recorded p @ [Errorf CANCELED ''context canceled''],
                       tlog := tlog p @ [Cancelled i]\<rparr>
                else if recorded p \<noteq> []
                then p\<lparr>status := (status p)[i := Finished], tlog := tlog p @ [Skipped i]\<rparr>
                else p\<lparr>status := (status p)[i := Running]\<rparr>)
          else (case acq i of
                  Some e \<Rightarrow>
                    p\<lparr>status := (status p)[i := Finished],
                      recorded := recorded p @ [e],
                      tlog := tlog p @ [AcquireFailed i e]\<rparr>
                | None \<Rightarrow> p))"

text \<open>
  \<open>wg.Wait()\<close> returns when every task has finished. After the steps of the schedule,
  the tasks left are driven on, a running one before a waiting one; with 2 steps per
  task every task that can finish has finished. A task that waits for a semaphore
  without capacity under a context that never ends keeps \<open>wg.Wait()\<close> from returning.
\<close>

fun first_index :: "task_status \<Rightarrow> task_status list \<Rightarrow> nat option" where
  "first_index s [] = None"
| "first_index s (x # xs) =
     (if x = s then Some 0 else map_option Suc (first_index s xs))"

definition pick :: "task_status list \<Rightarrow> nat option" where
  "pick ss = (case first_index Running ss of
                Some i \<Rightarrow> Some i
              | None \<Rightarrow> first_index Waiting ss)"

fun drain ::
  "nat \<Rightarrow> int \<Rightarrow> (nat \<Rightarrow> error option) \<Rightarrow> (nat \<Rightarrow> bool) \<Rightarrow> (nat \<Rightarrow> error list) \<Rightarrow> pool \<Rightarrow> pool" where
  "drain 0 N acq ctxDone work p = p"
| "drain (Suc k) N acq ctxDone work p =
     (case pick (status p) of
        None \<Rightarrow> p
      | Some i \<Rightarrow> drain k N acq ctxDone work (task_step N acq ctxDone work p i))"

definition run_tasks ::
  "int \<Rightarrow> (nat \<Rightarrow> error option) \<Rightarrow> (nat \<Rightarrow> bool) \<Rightarrow> (nat \<Rightarrow> error list) \<Rightarrow> nat \<Rightarrow> error list \<Rightarrow> nat list \<Rightarrow> pool outcome" where
  "run_tasks N acq ctxDone work n errs0 schedule =
     (let p0 = \<lparr>status = replicate n Waiting, recorded = errs0, tlog = []\<rparr>;
          p1 = foldl (task_step N acq ctxDone work) p0 schedule;
          p2 = drain (2 * n) N acq ctxDone work p1
      in if list_all (\<lambda>s. s = Finished) (status p2) then Returns p2 else NeverReturns)"

section \<open>The builtin backup engine: data\<close>

text \<open>
  Modelled from the spec: the positions of package \<open>mysql\<close>, which is not under src/.
  A position holds a GTID set of one flavor (MySQL56 UUID-GTID, MariaDB domain-GTID or
  FilePos), or none (the zero position). A GTID set is kept in its canonical text, so
  that two sets are equal when their texts are.
\<close>

datatype GTIDSet = Mysql56GTIDSet string | MariadbGTIDSet string | FilePosGTID string

type_synonym Position = "GTIDSet option"

datatype flavor = Mysql56FlavorID | MariadbFlavorID | FilePosFlavorID

definition IsZero :: "Position \<Rightarrow> bool" where
  "IsZero rp = (rp = None)"

fun flavor_of :: "GTIDSet \<Rightarrow> flavor" where
  "flavor_of (Mysql56GTIDSet g) = Mysql56FlavorID"
| "flavor_of (MariadbGTIDSet g) = MariadbFlavorID"
| "flavor_of (FilePosGTID g) = FilePosFlavorID"

definition MatchesFlavor :: "Position \<Rightarrow> flavor \<Rightarrow> bool" where
  "MatchesFlavor rp f = (case rp of None \<Rightarrow> False | Some g \<Rightarrow> flavor_of g = f)"

text \<open>The type assertion \<open>pos.GTIDSet.(mysql.Mysql56GTIDSet)\<close>.\<close>

fun asMysql56GTIDSet :: "Position \<Rightarrow> string option" where
  "asMysql56GTIDSet (Some (Mysql56GTIDSet g)) = Some g"
| "asMysql56GTIDSet rp = None"

record FileEntry =
  Base :: string
  Name :: string
  Hash :: string
  ParentPath :: string

record BackupManifest =
  BackupMethod :: string
  Position :: Position
  PurgedPosition :: Position
  FromPosition :: Position
  Incremental :: bool
  ServerUUID :: string
  bm_TabletAlias :: string
  bm_Keyspace :: string
  bm_Shard :: string
  bm_BackupTime :: string
  FinishedTime :: string

record builtinBackupManifest = BackupManifest +
  CompressionEngine :: string
  FileEntries :: "FileEntry list"
  SkipCompress :: bool
  ExternalDecompressor :: string

record BackupParams =
  Concurrency :: int
  IncrementalFromPos :: string
  TabletAlias :: string
  p_Keyspace :: string
  p_Shard :: string
  BackupTime :: string

text \<open>The process-wide settings the engine reads.\<close>

record settings =
  backupStorageCompress :: bool
  CompressionEngineName :: string
  ExternalCompressorCmd :: string
  ExternalDecompressorCmd :: string
  ManifestExternalDecompressorCmd :: string
  DisableActiveReparents :: bool

definition builtinBackupEngineName :: string where
  "builtinBackupEngineName = ''builtin''"

definition autoIncrementalFromPos :: string where
  "autoIncrementalFromPos = ''auto''"

definition backupManifestFileName :: string where
  "backupManifestFileName = ''MANIFEST''"

definition isIncrementalBackup :: "BackupParams \<Rightarrow> bool" where
  "isIncrementalBackup params = (IncrementalFromPos params \<noteq> [])"

text \<open>What happens during a backup, in order.\<close>

datatype ctx = Background | Caller | WithTimeout

datatype event =
    EvSetSuperReadOnly bool "error option"
  | EvStopReplication "error option"
  | EvShutdown ctx "error option"
  | EvFoundFiles nat
  | EvFileTask task_event
  | EvManifestAddFile "error option"
  | EvManifestWrite builtinBackupManifest "error option"
  | EvManifestClose "error option"
  | EvStart ctx "error option"
  | EvSetSemiSyncEnabled bool bool "error option"
  | EvStartReplication "error option"
  | EvFlushBinaryLogs "error option"

section \<open>backupFile and backupFiles\<close>

text \<open>
  What the steps of \<open>backupFile\<close> give for one file: the error of each step, the hash
  of the bytes written, and the errors the storage records on the handle on its own
  while the file is written.
\<close>

record backupFileSteps =
  bf_open :: "error option"
  bf_Stat :: "error option"
  bf_AddFile :: "error option"
  bf_newCompressor :: "error option"
  bf_Copy :: "error option"
  bf_compressor_Close :: "error option"
  bf_Flush :: "error option"
  bf_dest_Close :: "error option"
  bf_HashString :: string
  bf_async :: "error list"

text \<open>
  \<open>backupFile\<close> returns its error and the hash it saved in the file entry, if it came
  that far. \<open>bw.Close()\<close> on the new writing pipe gives the error of the flush, and
  \<open>br.Close()\<close> on the reading pipe, which has no writer, gives nil (see
  \<open>backupPipe_Close\<close>). The deferred close of the destination runs once the destination
  was added; its error is returned when there is no other.
\<close>

definition backupFile :: "settings \<Rightarrow> backupFileSteps \<Rightarrow> error option \<times> string option" where
  "backupFile cfg st =
     (case bf_open st of
        Some e \<Rightarrow> (Some e, None)
      | None \<Rightarrow>
     (case bf_Stat st of
        Some e \<Rightarrow> (Some e, None)
      | None \<Rightarrow>
     (case bf_AddFile st of
        Some e \<Rightarrow> (Some (Wrap e ''cannot add file''), None)
      | None \<Rightarrow>
         (let (finalErr, saved) =
            (case (if backupStorageCompress cfg then bf_newCompressor st else None) of
               Some e \<Rightarrow> (Some (Wrap e ''can't create compressor''), None)
             | None \<Rightarrow>
            (case bf_Copy st of
               Some e \<Rightarrow> (Some (Wrap e ''cannot copy data''), None)
             | None \<Rightarrow>
            (case (if backupStorageCompress cfg then bf_compressor_Close st else None) of
               Some e \<Rightarrow> (Some (Wrap e ''cannot close compressor''), None)
             | None \<Rightarrow>
            (case bf_Flush st of
               Some e \<Rightarrow> (Some (Wrap e ''cannot flush destination''), None)
             | None \<Rightarrow> (None, Some (bf_HashString st))))))
          in case bf_dest_Close st of
               Some rerr \<Rightarrow> (if finalErr \<noteq> None then (finalErr, saved) else (Some rerr, saved))
             | None \<Rightarrow> (finalErr, saved)))))"

text \<open>The errors a file task records on the handle: \<open>bh.RecordError\<close> of what
  \<open>backupFile\<close> returned (nothing for nil), and those the storage recorded.\<close>

definition backupFile_errors :: "settings \<Rightarrow> backupFileSteps \<Rightarrow> error list" where
  "backupFile_errors cfg st =
     (case fst (backupFile cfg st) of None \<Rightarrow> [] | Some e \<Rightarrow> [e]) @ bf_async st"

text \<open>
  What \<open>backupFiles\<close> finds around it: the files to back up (\<open>findFilesToBackup\<close>,
  \<open>binlogFilesToBackup\<close>), the errors the handle holds when the call starts, the
  context and the scheduling of the file tasks, the steps of each file, the steps of
  the manifest and the clock.

  Modelled from the spec: the error registry of the handle (package \<open>concurrency\<close>,
  not under src/): \<open>HasErrors()\<close> holds when an error was recorded, and \<open>Error()\<close>
  consolidates the recorded errors into one, here \<open>Aggregate\<close>.
\<close>

record backupEnv =
  findFilesToBackup :: "error + FileEntry list"
  binlogFilesToBackup :: "string list \<Rightarrow> error + FileEntry list"
  bh_errors :: "error list"
  acquire :: "nat \<Rightarrow> error option"
  ctx_done :: "nat \<Rightarrow> bool"
  schedule :: "nat list"
  file_steps :: "nat \<Rightarrow> backupFileSteps"
  manifest_AddFile :: "error option"
  manifest_MarshalIndent :: "error option"
  manifest_Write :: "error option"
  manifest_Close :: "error option"
  time_Now :: string

definition HasErrors :: "error list \<Rightarrow> bool" where
  "HasErrors errs = (errs \<noteq> [])"

definition recorder_Error :: "error list \<Rightarrow> error option" where
  "recorder_Error errs = (if errs = [] then None else Some (Aggregate errs))"

text \<open>The file entries after the tasks: a task that worked on its file saved the
  hash when \<open>backupFile\<close> came that far.\<close>

definition entries_after ::
  "settings \<Rightarrow> backupEnv \<Rightarrow> task_event list \<Rightarrow> FileEntry list \<Rightarrow> FileEntry list" where
  "entries_after cfg env evs fes =
     map (\<lambda>(i, fe).
            if Ran i (backupFile_errors cfg (file_steps env i)) \<in> set evs
            then (case snd (backupFile cfg (file_steps env i)) of
                    Some h \<Rightarrow> fe\<lparr>Hash := h\<rparr>
                  | None \<Rightarrow> fe)
            else fe)
         (enumerate 0 fes)"

definition makeManifest ::
  "settings \<Rightarrow> BackupParams \<Rightarrow> backupEnv \<Rightarrow> Position \<Rightarrow> Position \<Rightarrow> Position \<Rightarrow> string
     \<Rightarrow> FileEntry list \<Rightarrow> builtinBackupManifest" where
  "makeManifest cfg params env replicationPosition purgedPosition fromPosition serverUUID fes =
     \<lparr>BackupMethod = builtinBackupEngineName,
      Position = replicationPosition,
      PurgedPosition = purgedPosition,
      FromPosition = fromPosition,
      Incremental = (\<not> IsZero fromPosition),
      ServerUUID = serverUUID,
      bm_TabletAlias = TabletAlias params,
      bm_Keyspace = p_Keyspace params,
      bm_Shard = p_Shard params,
      bm_BackupTime = BackupTime params,
      FinishedTime = time_Now env,
      CompressionEngine = CompressionEngineName cfg,
      FileEntries = fes,
      SkipCompress = (\<not> backupStorageCompress cfg),
      ExternalDecompressor = ManifestExternalDecompressorCmd cfg\<rparr>"

text \<open>
  \<open>backupFiles\<close> returns its error and what happened; \<open>EvFoundFiles\<close> stands where
  the code logs the number of files it found. The manifest is opened after
  \<open>wg.Wait()\<close> and the check of the handle; from then on the deferred function closes
  it at every return and puts the error of the close in the place of a nil result.
\<close>

definition backupFiles ::
  "settings \<Rightarrow> BackupParams \<Rightarrow> backupEnv \<Rightarrow> Position \<Rightarrow> Position \<Rightarrow> Position \<Rightarrow> string list
     \<Rightarrow> string \<Rightarrow> (error option \<times> event list) outcome" where
  "backupFiles cfg params env replicationPosition purgedPosition fromPosition binlogFiles
       serverUUID =
     (case (if isIncrementalBackup params then binlogFilesToBackup env binlogFiles
            else findFilesToBackup env) of
        Inl e \<Rightarrow> Returns (Some (Wrap e ''can't find files to backup''), [])
      | Inr fes \<Rightarrow>
         (case run_tasks (Concurrency params) (acquire env) (ctx_done env)
                 (\<lambda>i. backupFile_errors cfg (file_steps env i))
                 (length fes) (bh_errors env) (schedule env) of
            Panics \<Rightarrow> Panics
          | NeverReturns \<Rightarrow> NeverReturns
          | Returns p \<Rightarrow>
              let tr = EvFoundFiles (length fes) # map EvFileTask (tlog p)
              in if HasErrors (recorded p) then Returns (recorder_Error (recorded p), tr)
                 else
                   (case manifest_AddFile env of
                      Some e \<Rightarrow>
                        Returns (Some (Wrap e ''cannot add MANIFEST to backup''),
                                 tr @ [EvManifestAddFile (Some e)])
                    | None \<Rightarrow>
                        let bm = makeManifest cfg params env replicationPosition
                                   purgedPosition fromPosition serverUUID
                                   (entries_after cfg env (tlog p) fes);
                            (finalErr, written) =
                              (case manifest_MarshalIndent env of
                                 Some e \<Rightarrow> (Some (Wrap e ''cannot JSON encode MANIFEST''), [])
                               | None \<Rightarrow>
                                  (case manifest_Write env of
                                     Some e \<Rightarrow> (Some (Wrap e ''cannot write MANIFEST''),
                                                [EvManifestWrite bm (Some e)])
                                   | None \<Rightarrow> (None, [EvManifestWrite bm None])));
                            closeErr = manifest_Close env
                        in Returns (if finalErr = None then closeErr else finalErr,
                                    tr @ [EvManifestAddFile None] @ written
                                       @ [EvManifestClose closeErr]))))"

section \<open>ExecuteBackup\<close>

text \<open>
  What the collaborators of the engine answer: \<open>mysqld\<close>, the backup storage, the
  topology, and the functions of package \<open>mysql\<close> on positions. A call made at
  several places of the code has one answer per place. \<open>ctx_Err k\<close> and
  \<open>ReplicationStatus_poll k\<close> are the answers in round \<open>k\<close> of the loop that waits for
  the replica to move.
\<close>

record ReplicationStatus =
  Healthy :: bool
  rs_Position :: Position

definition ErrNotReplica :: error where
  "ErrNotReplica = Foreign ''no replication status''"

record mysqldEnv =
  GetServerUUID :: "error + string"
  GetGTIDPurged :: "error + Position"
  GetBackupStorage :: "error option"
  ListBackups :: "error option"
  FindLatestSuccessfulBackup :: "error + Position"
  EncodePosition :: "Position \<Rightarrow> string"
  DecodePosition :: "string \<Rightarrow> error + Position"
  ParsePosition :: "flavor \<Rightarrow> string \<Rightarrow> error + Position"
  FlushBinaryLogs :: "error option"
  GetBinaryLogs :: "error + string list"
  GetPreviousGTIDs :: "string \<Rightarrow> error + string"
  previous_within :: "string \<Rightarrow> string \<Rightarrow> string \<Rightarrow> bool"
  covers_server_position :: "string \<Rightarrow> bool"
  server_position :: string
  SemiSyncEnabled :: "bool \<times> bool"
  ReplicationStatus_first :: "error + ReplicationStatus"
  IsReadOnly :: "error + bool"
  IsSuperReadOnly :: "error + bool"
  SetSuperReadOnly_enable :: "error option"
  PrimaryPosition :: "error + Position"
  StopReplication :: "error option"
  ReplicationStatus_stopped :: "error + ReplicationStatus"
  Shutdown :: "error option"
  Start :: "error option"
  SetSuperReadOnly_restore :: "error option"
  SetSemiSyncEnabled :: "error option"
  StartReplication :: "error option"
  WaitForReplicationStart :: "error option"
  getPrimaryPosition :: "error + Position"
  ctx_Err :: "nat \<Rightarrow> error option"
  ReplicationStatus_poll :: "nat \<Rightarrow> error + ReplicationStatus"
  SetSuperReadOnly_deferred :: "error option"

text \<open>The closure \<open>getBinlogPreviousGTIDs\<close> with its cache \<open>previousGTIDs\<close>.\<close>

definition getBinlogPreviousGTIDs ::
  "mysqldEnv \<Rightarrow> (string \<Rightarrow> string option) \<Rightarrow> string
     \<Rightarrow> (error + string) \<times> (string \<Rightarrow> string option)" where
  "getBinlogPreviousGTIDs my cache binlog =
     (case cache binlog of
        Some gtids \<Rightarrow> (Inr gtids, cache)
      | None \<Rightarrow>
          (case GetPreviousGTIDs my binlog of
             Inl e \<Rightarrow> (Inl e, cache)
           | Inr gtids \<Rightarrow> (Inr gtids, cache(binlog \<mapsto> gtids))))"

text \<open>
  Modelled from the spec: \<open>ChooseBinlogsForIncrementalBackup\<close>, which is not under
  src/ (4.D.2, steps 4, 5 and 7). For each file in turn the previous GTIDs are
  obtained; \<open>F\<close> is the earliest file whose previous GTIDs without the purged ones are
  within the from-position (\<open>previous_within\<close>, of the position arithmetic, which is
  not under src/ either); the files chosen are those from \<open>F\<close> up to and including the
  file that covers the latest server position (\<open>covers_server_position\<close>); the
  from-GTID returned is the previous GTIDs of \<open>F\<close> and the to-GTID the server position.
  Without such a file the choice fails.
\<close>

fun find_first_binlog ::
  "mysqldEnv \<Rightarrow> string \<Rightarrow> string \<Rightarrow> (string \<Rightarrow> string option) \<Rightarrow> string list
     \<Rightarrow> error + (string list \<times> string)" where
  "find_first_binlog my from purged cache [] =
     Inl (Errorf FAILED_PRECONDITION ''no binary log covers the requested position'')"
| "find_first_binlog my from purged cache (f # fs) =
     (case getBinlogPreviousGTIDs my cache f of
        (Inl e, cache') \<Rightarrow> Inl e
      | (Inr gtids, cache') \<Rightarrow>
          if previous_within my gtids purged from then Inr (f # fs, gtids)
          else find_first_binlog my from purged cache' fs)"

fun up_to_covering :: "(string \<Rightarrow> bool) \<Rightarrow> string list \<Rightarrow> string list" where
  "up_to_covering covers [] = []"
| "up_to_covering covers (f # fs) =
     (if covers f then [f] else f # up_to_covering covers fs)"

definition ChooseBinlogsForIncrementalBackup ::
  "mysqldEnv \<Rightarrow> string \<Rightarrow> string \<Rightarrow> string list \<Rightarrow> error + (string list \<times> string \<times> string)" where
  "ChooseBinlogsForIncrementalBackup my backupFromGTIDSet purgedGTIDSet binaryLogs =
     (case find_first_binlog my backupFromGTIDSet purgedGTIDSet (\<lambda>_. None) binaryLogs of
        Inl e \<Rightarrow> Inl e
      | Inr (suffix, gtids) \<Rightarrow>
          Inr (up_to_covering (covers_server_position my) suffix, gtids, server_position my))"

text \<open>\<open>getPurgedGTIDSet\<close> and \<open>getIncrementalFromPosGTIDSet\<close>, the two closures of
  \<open>executeIncrementalBackup\<close>.\<close>

definition getPurgedGTIDSet :: "mysqldEnv \<Rightarrow> error + string" where
  "getPurgedGTIDSet my =
     (case GetGTIDPurged my of
        Inl e \<Rightarrow> Inl (Wrap e ''can't get @@gtid_purged'')
      | Inr gtidPurged \<Rightarrow>
          (case asMysql56GTIDSet gtidPurged of
             None \<Rightarrow> Inl (Errorf FAILED_PRECONDITION ''cannot get MySQL GTID purged value'')
           | Some g \<Rightarrow> Inr g))"

definition getIncrementalFromPosGTIDSet :: "mysqldEnv \<Rightarrow> string \<Rightarrow> error + string" where
  "getIncrementalFromPosGTIDSet my incrementalFromPos =
     (case DecodePosition my incrementalFromPos of
        Inl e \<Rightarrow> Inl (Wrap e ''cannot decode position in incremental backup'')
      | Inr pos \<Rightarrow>
          if \<not> MatchesFlavor pos Mysql56FlavorID
          then Inl (Errorf FAILED_PRECONDITION
                      ''incremental backup only supports MySQL GTID positions'')
          else (case asMysql56GTIDSet pos of
                  None \<Rightarrow> Inl (Errorf FAILED_PRECONDITION ''cannot get MySQL GTID value'')
                | Some g \<Rightarrow> Inr g))"

text \<open>The from-position of the request: with \<open>auto\<close>, the encoded position of the
  latest successful backup.\<close>

definition resolveIncrementalFromPos :: "mysqldEnv \<Rightarrow> BackupParams \<Rightarrow> error + BackupParams" where
  "resolveIncrementalFromPos my params =
     (if IncrementalFromPos params = autoIncrementalFromPos
      then (case GetBackupStorage my of
              Some e \<Rightarrow> Inl e
            | None \<Rightarrow>
           (case ListBackups my of
              Some e \<Rightarrow> Inl (Wrap e ''ListBackups failed'')
            | None \<Rightarrow>
           (case FindLatestSuccessfulBackup my of
              Inl e \<Rightarrow> Inl (Wrap e ''FindLatestSuccessfulBackup failed'')
            | Inr pos \<Rightarrow> Inr (params\<lparr>IncrementalFromPos := EncodePosition my pos\<rparr>))))
      else Inr params)"

text \<open>\<open>executeIncrementalBackup\<close> returns whether the backup is usable, its error,
  and what happened.\<close>

definition executeIncrementalBackup ::
  "settings \<Rightarrow> mysqldEnv \<Rightarrow> backupEnv \<Rightarrow> BackupParams
     \<Rightarrow> (bool \<times> error option \<times> event list) outcome" where
  "executeIncrementalBackup cfg my env params0 =
     (case GetServerUUID my of
        Inl e \<Rightarrow> Returns (False, Some (Wrap e ''can't get server uuid''), [])
      | Inr serverUUID \<Rightarrow>
     (case getPurgedGTIDSet my of
        Inl e \<Rightarrow> Returns (False, Some e, [])
      | Inr purgedGTIDSet \<Rightarrow>
     (case resolveIncrementalFromPos my params0 of
        Inl e \<Rightarrow> Returns (False, Some e, [])
      | Inr params \<Rightarrow>
     (case getIncrementalFromPosGTIDSet my (IncrementalFromPos params) of
        Inl e \<Rightarrow> Returns (False, Some e, [])
      | Inr backupFromGTIDSet \<Rightarrow>
     (case FlushBinaryLogs my of
        Some e \<Rightarrow>
          Returns (False, Some (Wrap e ''cannot flush binary logs in incremental backup''),
                   [EvFlushBinaryLogs (Some e)])
      | None \<Rightarrow>
     (case GetBinaryLogs my of
        Inl e \<Rightarrow>
          Returns (False, Some (Wrap e ''cannot get binary logs in incremental backup''),
                   [EvFlushBinaryLogs None])
      | Inr binaryLogs \<Rightarrow>
     (case ChooseBinlogsForIncrementalBackup my backupFromGTIDSet purgedGTIDSet binaryLogs of
        Inl e \<Rightarrow>
          Returns (False,
                   Some (Wrap e ''cannot get binary logs to backup in incremental backup''),
                   [EvFlushBinaryLogs None])
      | Inr (binaryLogsToBackup, incrementalBackupFromGTID, incrementalBackupToGTID) \<Rightarrow>
     (case ParsePosition my Mysql56FlavorID incrementalBackupFromGTID of
        Inl e \<Rightarrow> Returns (False, Some (Wrap e ''cannot parse position''),
                          [EvFlushBinaryLogs None])
      | Inr incrementalBackupFromPosition \<Rightarrow>
     (case ParsePosition my Mysql56FlavorID incrementalBackupToGTID of
        Inl e \<Rightarrow> Returns (False, Some (Wrap e ''cannot parse position''),
                          [EvFlushBinaryLogs None])
      | Inr incrementalBackupToPosition \<Rightarrow>
     (case backupFiles cfg params env incrementalBackupToPosition None
             incrementalBackupFromPosition binaryLogsToBackup serverUUID of
        Panics \<Rightarrow> Panics
      | NeverReturns \<Rightarrow> NeverReturns
      | Returns (Some e, tr) \<Rightarrow> Returns (False, Some e, EvFlushBinaryLogs None # tr)
      | Returns (None, tr) \<Rightarrow> Returns (True, None, EvFlushBinaryLogs None # tr)))))))))))"

text \<open>
  The loop at the end of \<open>executeFullBackup\<close>: it leaves with the error of the context
  or of \<open>ReplicationStatus\<close>, or without error once the replica is at another position
  than \<open>replicationPosition\<close>; until then it sleeps and goes round again. \<open>None\<close>: the
  loop goes on forever.
\<close>

partial_function (option) waitForPosition ::
  "mysqldEnv \<Rightarrow> Position \<Rightarrow> nat \<Rightarrow> error option option" where
  "waitForPosition my replicationPosition k =
     (case ctx_Err my k of
        Some e \<Rightarrow> Some (Some e)
      | None \<Rightarrow>
          (case ReplicationStatus_poll my k of
             Inl e \<Rightarrow> Some (Some e)
           | Inr st \<Rightarrow>
               if rs_Position st \<noteq> replicationPosition then Some None
               else waitForPosition my replicationPosition (Suc k)))"

declare waitForPosition.simps [code]

text \<open>
  \<open>executeFullBackup\<close> from the restart of \<open>mysqld\<close> to its end (after
  \<open>backupFiles\<close> returned \<open>backupErr\<close>). \<open>mysqld.Start\<close> gets \<open>context.Background()\<close>.
\<close>

definition restartAfterBackup ::
  "mysqldEnv \<Rightarrow> bool \<Rightarrow> error option \<Rightarrow> bool \<Rightarrow> bool \<times> bool \<Rightarrow> bool \<Rightarrow> Position
     \<Rightarrow> (bool \<times> error option \<times> event list) outcome" where
  "restartAfterBackup my usable backupErr superReadOnly semiSync replicaStartRequired
       replicationPosition =
     (case Start my of
        Some e \<Rightarrow>
          Returns (usable, Some (Wrap e ''can't restart mysqld''),
                   [EvStart Background (Some e)])
      | None \<Rightarrow>
     (case SetSuperReadOnly_restore my of
        Some e \<Rightarrow>
          Returns (usable, Some e,
                   [EvStart Background None, EvSetSuperReadOnly superReadOnly (Some e)])
      | None \<Rightarrow>
         (let tr1 = [EvStart Background None, EvSetSuperReadOnly superReadOnly None];
              semi = (if fst semiSync \<or> snd semiSync then SetSemiSyncEnabled my else None);
              tr2 = tr1 @ (if fst semiSync \<or> snd semiSync
                           then [EvSetSemiSyncEnabled (fst semiSync) (snd semiSync) semi]
                           else [])
          in case semi of
               Some e \<Rightarrow> Returns (usable, Some e, tr2)
             | None \<Rightarrow>
                 if \<not> replicaStartRequired then Returns (usable, backupErr, tr2)
                 else
                  (case StartReplication my of
                     Some e \<Rightarrow>
                       Returns (usable, Some (Wrap e ''cannot restart replica''),
                                tr2 @ [EvStartReplication (Some e)])
                   | None \<Rightarrow>
                  (case WaitForReplicationStart my of
                     Some e \<Rightarrow>
                       Returns (usable, Some (Wrap e ''replica is not restarting''),
                                tr2 @ [EvStartReplication None])
                   | None \<Rightarrow>
                  (case getPrimaryPosition my of
                     Inl e \<Rightarrow> Returns (usable, Some e, tr2 @ [EvStartReplication None])
                   | Inr pos \<Rightarrow>
                       if replicationPosition = pos
                       then Returns (usable, backupErr, tr2 @ [EvStartReplication None])
                       else
                        (case waitForPosition my replicationPosition 0 of
                           None \<Rightarrow> NeverReturns
                         | Some (Some e) \<Rightarrow>
                             Returns (usable, Some e, tr2 @ [EvStartReplication None])
                         | Some None \<Rightarrow>
                             Returns (usable, backupErr,
                                      tr2 @ [EvStartReplication None]))))))))"

text \<open>
  \<open>executeFullBackup\<close> from the read of \<open>gtid_purged\<close> on: the shutdown within
  \<open>BuiltinBackupMysqldTimeout\<close>, the copy of the files, the restart.
  \<open>tr0\<close> is what happened before.
\<close>

definition backupAfterPosition ::
  "settings \<Rightarrow> mysqldEnv \<Rightarrow> backupEnv \<Rightarrow> BackupParams \<Rightarrow> bool \<Rightarrow> bool \<times> bool \<Rightarrow> bool
     \<Rightarrow> Position \<Rightarrow> event list \<Rightarrow> (bool \<times> error option \<times> event list) outcome" where
  "backupAfterPosition cfg my env params superReadOnly semiSync replicaStartRequired
       replicationPosition tr0 =
     (case GetGTIDPurged my of
        Inl e \<Rightarrow> Returns (False, Some (Wrap e ''can't get gtid_purged''), tr0)
      | Inr gtidPurgedPosition \<Rightarrow>
     (case GetServerUUID my of
        Inl e \<Rightarrow> Returns (False, Some (Wrap e ''can't get server uuid''), tr0)
      | Inr serverUUID \<Rightarrow>
     (case Shutdown my of
        Some e \<Rightarrow>
          Returns (False, Some (Wrap e ''can't shutdown mysqld''),
                   tr0 @ [EvShutdown WithTimeout (Some e)])
      | None \<Rightarrow>
     (case backupFiles cfg params env replicationPosition gtidPurgedPosition None []
             serverUUID of
        Panics \<Rightarrow> Panics
      | NeverReturns \<Rightarrow> NeverReturns
      | Returns (backupErr, tr) \<Rightarrow>
         (case restartAfterBackup my (backupErr = None) backupErr superReadOnly semiSync
                 replicaStartRequired replicationPosition of
            Panics \<Rightarrow> Panics
          | NeverReturns \<Rightarrow> NeverReturns
          | Returns (usable, rerr, tr') \<Rightarrow>
              Returns (usable, rerr,
                       tr0 @ [EvShutdown WithTimeout None] @ tr @ tr'))))))"

text \<open>A deferred call runs when the function returns.\<close>

definition with_deferred ::
  "event \<Rightarrow> (bool \<times> error option \<times> event list) outcome
     \<Rightarrow> (bool \<times> error option \<times> event list) outcome" where
  "with_deferred ev r =
     (case r of
        Returns (usable, e, tr) \<Rightarrow> Returns (usable, e, tr @ [ev])
      | Panics \<Rightarrow> Panics
      | NeverReturns \<Rightarrow> NeverReturns)"

text \<open>\<open>executeFullBackup\<close>, to the point where the replication position is known;
  on a primary that was not super-read-only the reset of \<open>super_read_only\<close> is
  deferred.\<close>

definition executeFullBackup ::
  "settings \<Rightarrow> mysqldEnv \<Rightarrow> backupEnv \<Rightarrow> BackupParams
     \<Rightarrow> (bool \<times> error option \<times> event list) outcome" where
  "executeFullBackup cfg my env params =
     (if IncrementalFromPos params \<noteq> [] then executeIncrementalBackup cfg my env params
      else
        let semiSync = SemiSyncEnabled my
        in case (case ReplicationStatus_first my of
                   Inr replicaStatus \<Rightarrow>
                     Inr (Healthy replicaStatus \<and> \<not> DisableActiveReparents cfg, False)
                 | Inl e \<Rightarrow> if e = ErrNotReplica then Inr (False, True) else Inl e) of
             Inl e \<Rightarrow> Returns (False, Some (Wrap e ''can't get replica status''), [])
           | Inr (replicaStartRequired, sourceIsPrimary) \<Rightarrow>
          (case IsReadOnly my of
             Inl e \<Rightarrow> Returns (False, Some (Wrap e ''failed to get read_only status''), [])
           | Inr readOnly \<Rightarrow>
          (case IsSuperReadOnly my of
             Inl e \<Rightarrow> Returns (False, Some (Wrap e ''can't get super_read_only status''), [])
           | Inr superReadOnly \<Rightarrow>
              let onPrimary = (\<lambda>tr0.
                    case PrimaryPosition my of
                      Inl e \<Rightarrow> Returns (False, Some (Wrap e ''can't get position on primary''),
                                        tr0)
                    | Inr replicationPosition \<Rightarrow>
                        backupAfterPosition cfg my env params superReadOnly semiSync
                          replicaStartRequired replicationPosition tr0)
              in if sourceIsPrimary
                 then (if \<not> superReadOnly
                       then (case SetSuperReadOnly_enable my of
                               Some e \<Rightarrow>
                                 Returns (False,
                                          Some (Wrap e ''failed to enable super_read_only''),
                                          [EvSetSuperReadOnly True (Some e)])
                             | None \<Rightarrow>
                                 with_deferred
                                   (EvSetSuperReadOnly False (SetSuperReadOnly_deferred my))
                                   (onPrimary [EvSetSuperReadOnly True None]))
                       else onPrimary [])
                 else (case StopReplication my of
                         Some e \<Rightarrow>
                           Returns (False, Some (Wrap e ''can't stop replica''),
                                    [EvStopReplication (Some e)])
                       | None \<Rightarrow>
                      (case ReplicationStatus_stopped my of
                         Inl e \<Rightarrow>
                           Returns (False, Some (Wrap e ''can't get replica status''),
                                    [EvStopReplication None])
                       | Inr replicaStatus \<Rightarrow>
                           backupAfterPosition cfg my env params superReadOnly semiSync
                             replicaStartRequired (rs_Position replicaStatus)
                             [EvStopReplication None])))))"

definition ExecuteBackup ::
  "settings \<Rightarrow> mysqldEnv \<Rightarrow> backupEnv \<Rightarrow> BackupParams
     \<Rightarrow> (bool \<times> error option \<times> event list) outcome" where
  "ExecuteBackup cfg my env params =
     (if isIncrementalBackup params then executeIncrementalBackup cfg my env params
      else executeFullBackup cfg my env params)"

subsection \<open>Reading what happened\<close>

text \<open>The error a call returned, if it returned.\<close>

definition returned_error :: "(error option \<times> event list) outcome \<Rightarrow> error option option" where
  "returned_error R = (case R of Returns (r, tr) \<Rightarrow> Some r | Panics \<Rightarrow> None | NeverReturns \<Rightarrow> None)"

text \<open>
  What \<open>executeFullBackup\<close> holds in \<open>replicationPosition\<close> and in
  \<open>replicaStartRequired\<close> when it comes to shut \<open>mysqld\<close> down: on a primary
  (\<open>ReplicationStatus\<close> gave \<open>ErrNotReplica\<close>) the primary position, and no start of
  the replication; on a replica the position of the status read after the replication
  was stopped, and a start of the replication when the replica was healthy and active
  reparents are not disabled.
\<close>

definition replicationPosition_of :: "mysqldEnv \<Rightarrow> error + Position" where
  "replicationPosition_of my =
     (case ReplicationStatus_first my of
        Inl e \<Rightarrow> if e = ErrNotReplica then PrimaryPosition my else Inl e
      | Inr replicaStatus \<Rightarrow>
          (case ReplicationStatus_stopped my of
             Inl e \<Rightarrow> Inl e
           | Inr stopped \<Rightarrow> Inr (rs_Position stopped)))"

definition replicaStartRequired_of :: "settings \<Rightarrow> mysqldEnv \<Rightarrow> bool" where
  "replicaStartRequired_of cfg my =
     (case ReplicationStatus_first my of
        Inl e \<Rightarrow> False
      | Inr replicaStatus \<Rightarrow> Healthy replicaStatus \<and> \<not> DisableActiveReparents cfg)"

text \<open>
  The recovery steps of \<open>executeFullBackup\<close> after \<open>backupFiles\<close>, in the order of
  the code, each with the error the function returns when the step fails (\<open>None\<close>: the
  step does not fail, or is not part of this run): the start of \<open>mysqld\<close>, the reset
  of \<open>super_read_only\<close>, the reset of semi-sync when it was on, and when the
  replication is to be started again: its start, the wait for its start, the read of
  the position of the primary, and the wait for the replica to move on from
  \<open>replicationPosition\<close> when the primary is at another position. \<open>first_failure\<close>
  is the error of the first step that fails, and \<open>backupErr\<close> when none does.
\<close>

definition recovery_steps :: "mysqldEnv \<Rightarrow> bool \<Rightarrow> Position \<Rightarrow> error option list" where
  "recovery_steps my replicaStartRequired replicationPosition =
     [map_option (\<lambda>e. Wrap e ''can't restart mysqld'') (Start my),
      SetSuperReadOnly_restore my,
      (if fst (SemiSyncEnabled my) \<or> snd (SemiSyncEnabled my) then SetSemiSyncEnabled my
       else None)]
     @ (if replicaStartRequired
        then [map_option (\<lambda>e. Wrap e ''cannot restart replica'') (StartReplication my),
              map_option (\<lambda>e. Wrap e ''replica is not restarting'')
                (WaitForReplicationStart my),
              (case getPrimaryPosition my of Inl e \<Rightarrow> Some e | Inr pos \<Rightarrow> None),
              (case getPrimaryPosition my of
                 Inl e \<Rightarrow> None
               | Inr pos \<Rightarrow>
                   if replicationPosition = pos then None
                   else (case waitForPosition my replicationPosition 0 of
                           Some r \<Rightarrow> r
                         | None \<Rightarrow> None))]
        else [])"

definition first_failure :: "error option list \<Rightarrow> error option \<Rightarrow> error option" where
  "first_failure steps backupErr =
     (case filter (\<lambda>r. r \<noteq> None) steps of [] \<Rightarrow> backupErr | r # rs \<Rightarrow> r)"

text \<open>\<open>shut_down tr\<close>: at the end of \<open>tr\<close>, \<open>mysqld\<close> was shut down with success and no
  start succeeded since.\<close>

fun shut_down_from :: "bool \<Rightarrow> event list \<Rightarrow> bool" where
  "shut_down_from down [] = down"
| "shut_down_from down (EvShutdown c None # tr) = shut_down_from True tr"
| "shut_down_from down (EvStart c None # tr) = shut_down_from False tr"
| "shut_down_from down (ev # tr) = shut_down_from down tr"

definition shut_down :: "event list \<Rightarrow> bool" where
  "shut_down tr = shut_down_from False tr"

fun is_file_task :: "event \<Rightarrow> bool" where
  "is_file_task (EvFileTask t) = True"
| "is_file_task ev = False"

fun is_manifest_event :: "event \<Rightarrow> bool" where
  "is_manifest_event (EvManifestAddFile r) = True"
| "is_manifest_event (EvManifestWrite bm r) = True"
| "is_manifest_event (EvManifestClose r) = True"
| "is_manifest_event ev = False"

text \<open>No file task ends after the first step on the manifest.\<close>

fun tasks_before_manifest :: "event list \<Rightarrow> bool" where
  "tasks_before_manifest [] = True"
| "tasks_before_manifest (ev # tr) =
     (if is_manifest_event ev then list_all (\<lambda>e. \<not> is_file_task e) tr
      else tasks_before_manifest tr)"

text \<open>The files were found and the task of every one of them copied its file and
  recorded no error.\<close>

fun found_and_copied :: "event list \<Rightarrow> event \<Rightarrow> bool" where
  "found_and_copied tr (EvFoundFiles n) =
     list_all (\<lambda>i. EvFileTask (Ran i []) \<in> set tr) [0..<n]"
| "found_and_copied tr ev = False"

definition every_copy_succeeded :: "event list \<Rightarrow> bool" where
  "every_copy_succeeded tr = list_ex (found_and_copied tr) tr"

text \<open>The manifest was written and closed without error.\<close>

fun is_manifest_written :: "event \<Rightarrow> bool" where
  "is_manifest_written (EvManifestWrite bm None) = True"
| "is_manifest_written ev = False"

definition manifest_write_succeeded :: "event list \<Rightarrow> bool" where
  "manifest_write_succeeded tr =
     (list_ex is_manifest_written tr \<and> EvManifestClose None \<in> set tr)"

text \<open>The events of \<open>backupFiles\<close>, and the events that neither belong to
  \<open>backupFiles\<close> nor change whether \<open>mysqld\<close> runs.\<close>

fun is_backupFiles_event :: "event \<Rightarrow> bool" where
  "is_backupFiles_event (EvFoundFiles n) = True"
| "is_backupFiles_event (EvFileTask t) = True"
| "is_backupFiles_event (EvManifestAddFile r) = True"
| "is_backupFiles_event (EvManifestWrite bm r) = True"
| "is_backupFiles_event (EvManifestClose r) = True"
| "is_backupFiles_event ev = False"

fun quiet :: "event \<Rightarrow> bool" where
  "quiet (EvShutdown c None) = False"
| "quiet (EvStart c r) = False"
| "quiet ev = (\<not> is_backupFiles_event ev)"

text \<open>The task an event of the pool belongs to and the errors it recorded; the
  invariant of the pool.\<close>

fun task_of :: "task_event \<Rightarrow> nat" where
  "task_of (AcquireFailed i e) = i"
| "task_of (Cancelled i) = i"
| "task_of (Skipped i) = i"
| "task_of (Ran i es) = i"

fun event_errors :: "task_event \<Rightarrow> error list" where
  "event_errors (AcquireFailed i e) = [e]"
| "event_errors (Cancelled i) = [Errorf CANCELED ''context canceled'']"
| "event_errors (Skipped i) = []"
| "event_errors (Ran i es) = es"

definition pool_inv :: "(nat \<Rightarrow> error list) \<Rightarrow> nat \<Rightarrow> error list \<Rightarrow> pool \<Rightarrow> bool" where
  "pool_inv work n errs0 p \<longleftrightarrow>
     length (status p) = n
     \<and> recorded p = errs0 @ concat (map event_errors (tlog p))
     \<and> (\<forall>i<n. status p ! i = Finished \<longrightarrow> (\<exists>ev \<in> set (tlog p). task_of ev = i))
     \<and> (\<forall>i. Skipped i \<in> set (tlog p) \<longrightarrow> recorded p \<noteq> [])
     \<and> (\<forall>i es. Ran i es \<in> set (tlog p) \<longrightarrow> es = work i)"

subsection \<open>Example runs\<close>

definition cfg0 :: settings where
  "cfg0 = \<lparr>backupStorageCompress = True, CompressionEngineName = ''pgzip'',
           ExternalCompressorCmd = [], ExternalDecompressorCmd = [],
           ManifestExternalDecompressorCmd = [], DisableActiveReparents = False\<rparr>"

definition steps_ok :: backupFileSteps where
  "steps_ok = \<lparr>bf_open = None, bf_Stat = None, bf_AddFile = None, bf_newCompressor = None,
               bf_Copy = None, bf_compressor_Close = None, bf_Flush = None,
               bf_dest_Close = None, bf_HashString = ''cbf43926'', bf_async = []\<rparr>"

definition binlog_entry :: "string \<Rightarrow> FileEntry" where
  "binlog_entry f = \<lparr>Base = ''BinLog'', Name = f, Hash = [], ParentPath = []\<rparr>"

definition env0 :: backupEnv where
  "env0 = \<lparr>findFilesToBackup =
             Inr [\<lparr>Base = ''Data'', Name = ''ibdata1'', Hash = [], ParentPath = []\<rparr>,
                  \<lparr>Base = ''Data'', Name = ''t.ibd'', Hash = [], ParentPath = []\<rparr>],
           binlogFilesToBackup = (\<lambda>fs. Inr (map binlog_entry fs)),
           bh_errors = [], acquire = (\<lambda>i. None), ctx_done = (\<lambda>i. False),
           schedule = [1, 0, 1],
           file_steps = (\<lambda>i. steps_ok),
           manifest_AddFile = None, manifest_MarshalIndent = None, manifest_Write = None,
           manifest_Close = None, time_Now = ''2023-03-01T00:10:00Z''\<rparr>"

definition encode :: "Position \<Rightarrow> string" where
  "encode rp = (case rp of
       None \<Rightarrow> []
     | Some (Mysql56GTIDSet g) \<Rightarrow> ''MySQL56/'' @ g
     | Some (MariadbGTIDSet g) \<Rightarrow> ''MariaDB/'' @ g
     | Some (FilePosGTID g) \<Rightarrow> ''FilePos/'' @ g)"

definition decode :: "string \<Rightarrow> error + Position" where
  "decode s =
     (if s = [] then Inr None
      else if take 8 s = ''MySQL56/'' then Inr (Some (Mysql56GTIDSet (drop 8 s)))
      else if take 8 s = ''MariaDB/'' then Inr (Some (MariadbGTIDSet (drop 8 s)))
      else if take 8 s = ''FilePos/'' then Inr (Some (FilePosGTID (drop 8 s)))
      else Inl (Errorf INTERNAL ''parse error: unknown GTIDSet flavor''))"

text \<open>
  The GTID sets of the example runs are of the form \<open>uuid:1-n\<close>, the transactions 1
  to \<open>n\<close> of one server. Of such sets, \<open>g\<close> without \<open>purged\<close> is within \<open>from\<close> when
  \<open>purged\<close> has all of \<open>g\<close>, or \<open>from\<close> has.
\<close>

definition gtid_uuid :: "string \<Rightarrow> string" where
  "gtid_uuid g = takeWhile (\<lambda>c. c \<noteq> CHR '':'') g"

definition gtid_last :: "string \<Rightarrow> nat" where
  "gtid_last g =
     foldl (\<lambda>n c. 10 * n + (of_char c - 48)) 0
       (rev (takeWhile (\<lambda>c. c \<noteq> CHR ''-'') (rev g)))"

definition gtids_within :: "string \<Rightarrow> string \<Rightarrow> string \<Rightarrow> bool" where
  "gtids_within g purged from \<longleftrightarrow>
     (gtid_uuid g = gtid_uuid purged \<and> gtid_last g \<le> gtid_last purged)
     \<or> (gtid_uuid g = gtid_uuid from \<and> gtid_last g \<le> gtid_last from)"

definition my0 :: mysqldEnv where
  "my0 = \<lparr>GetServerUUID = Inr ''3e11fa47'',
          GetGTIDPurged = Inr (Some (Mysql56GTIDSet ''3e11fa47:1-5'')),
          GetBackupStorage = None, ListBackups = None,
          FindLatestSuccessfulBackup = Inr (Some (Mysql56GTIDSet ''3e11fa47:1-20'')),
          EncodePosition = encode, DecodePosition = decode,
          ParsePosition = (\<lambda>f g. Inr (Some (Mysql56GTIDSet g))),
          FlushBinaryLogs = None,
          GetBinaryLogs = Inr [''binlog.1'', ''binlog.2'', ''binlog.3'', ''binlog.4''],
          GetPreviousGTIDs =
            (\<lambda>b. if b = ''binlog.1'' then Inr ''9f2c81d0:1-7''
                 else if b = ''binlog.2'' then Inr ''3e11fa47:1-15''
                 else if b = ''binlog.3'' then Inr ''3e11fa47:1-25''
                 else Inr ''3e11fa47:1-30''),
          previous_within = gtids_within,
          covers_server_position = (\<lambda>f. f = ''binlog.3''),
          server_position = ''3e11fa47:1-30'',
          SemiSyncEnabled = (True, False),
          ReplicationStatus_first =
            Inr \<lparr>Healthy = True, rs_Position = Some (Mysql56GTIDSet ''3e11fa47:1-28'')\<rparr>,
          IsReadOnly = Inr True, IsSuperReadOnly = Inr True,
          SetSuperReadOnly_enable = None,
          PrimaryPosition = Inr (Some (Mysql56GTIDSet ''3e11fa47:1-30'')),
          StopReplication = None,
          ReplicationStatus_stopped =
            Inr \<lparr>Healthy = False, rs_Position = Some (Mysql56GTIDSet ''3e11fa47:1-30'')\<rparr>,
          Shutdown = None, Start = None, SetSuperReadOnly_restore = None,
          SetSemiSyncEnabled = None, StartReplication = None,
          WaitForReplicationStart = None,
          getPrimaryPosition = Inr (Some (Mysql56GTIDSet ''3e11fa47:1-31'')),
          ctx_Err = (\<lambda>k. None),
          ReplicationStatus_poll =
            (\<lambda>k. Inr \<lparr>Healthy = True,
                      rs_Position = Some (Mysql56GTIDSet
                        (if k < 2 then ''3e11fa47:1-30'' else ''3e11fa47:1-31''))\<rparr>),
          SetSuperReadOnly_deferred = None\<rparr>"

definition params_full :: BackupParams where
  "params_full = \<lparr>Concurrency = 2, IncrementalFromPos = [], TabletAlias = ''zone1-100'',
                  p_Keyspace = ''ks'', p_Shard = ''0'',
                  BackupTime = ''2023-03-01T00:00:00Z''\<rparr>"

section \<open>Properties of backupFiles and ExecuteBackup\<close>

lemma pool_inv_init: "pool_inv work n errs0 \<lparr>status = replicate n Waiting, recorded = errs0, tlog = []\<rparr>"
  by (simp add: pool_inv_def)

lemma pool_inv_step:
  assumes "pool_inv work n errs0 p"
  shows "pool_inv work n errs0 (task_step N acq ctxDone work p i)"
proof (cases "length (status p) \<le> i")
  case True
  with assms show ?thesis by (simp add: task_step_def)
next
  case False
  then have i: "i < n" using assms by (simp add: pool_inv_def)
  show ?thesis
  proof (cases "status p ! i")
    case Finished
    with assms False show ?thesis by (simp add: task_step_def)
  next
    case Running
    with assms False i show ?thesis
      unfolding pool_inv_def task_step_def
      by (auto simp: nth_list_update)
  next
    case Waiting
    with assms False i show ?thesis
      unfolding pool_inv_def task_step_def
      by (auto simp: nth_list_update split: option.splits)
  qed
qed

lemma pool_inv_foldl:
  "pool_inv work n errs0 p \<Longrightarrow> pool_inv work n errs0 (foldl (task_step N acq ctxDone work) p sched)"
  by (induction sched arbitrary: p) (auto intro: pool_inv_step)

lemma pool_inv_drain:
  "pool_inv work n errs0 p \<Longrightarrow> pool_inv work n errs0 (drain k N acq ctxDone work p)"
  by (induction k arbitrary: p) (auto intro: pool_inv_step split: option.splits)

lemma run_tasks_inv:
  assumes "run_tasks N acq ctxDone work n errs0 sched = Returns p"
  shows "pool_inv work n errs0 p" and "list_all (\<lambda>s. s = Finished) (status p)"
  using assms pool_inv_drain [OF pool_inv_foldl [OF pool_inv_init]]
  by (auto simp: run_tasks_def Let_def split: if_splits)

lemma run_tasks_all_ran:
  assumes "run_tasks N acq ctxDone work n errs0 sched = Returns p"
    and "recorded p = []" and "i < n"
  shows "Ran i [] \<in> set (tlog p)" and "work i = []"
proof -
  note inv = run_tasks_inv [OF assms(1)]
  from inv(1) have len: "length (status p) = n" by (simp add: pool_inv_def)
  with inv(2) assms(3) have "status p ! i = Finished" by (simp add: list_all_length)
  with inv(1) assms(3) obtain ev where ev: "ev \<in> set (tlog p)" "task_of ev = i"
    by (auto simp: pool_inv_def)
  from inv(1) assms(2) have "concat (map event_errors (tlog p)) = []"
    by (simp add: pool_inv_def)
  with ev(1) have noerr: "event_errors ev = []" by auto
  from inv(1) assms(2) have noskip: "\<And>j. Skipped j \<notin> set (tlog p)"
    by (auto simp: pool_inv_def)
  show r: "Ran i [] \<in> set (tlog p)"
  proof (cases ev)
    case (Ran j es)
    with ev noerr show ?thesis by simp
  next
    case (Skipped j)
    with ev(1) noskip show ?thesis by blast
  next
    case (Cancelled j)
    with noerr show ?thesis by simp
  next
    case (AcquireFailed j e)
    with noerr show ?thesis by simp
  qed
  with inv(1) show "work i = []" by (auto simp: pool_inv_def)
qed

lemma run_tasks_recorded:
  assumes "run_tasks N acq ctxDone work n errs0 sched = Returns p"
    and "Ran i es \<in> set (tlog p)"
  shows "set es \<subseteq> set (recorded p)" and "es = work i"
  using run_tasks_inv(1) [OF assms(1)] assms(2)
  by (auto simp: pool_inv_def)

lemma map_task_simps [simp]:
  "list_all (\<lambda>e. \<not> is_file_task e) (map EvFileTask xs) = (xs = [])"
  "list_ex is_manifest_event (map EvFileTask xs) = False"
  "list_ex is_manifest_written (map EvFileTask xs) = False"
  "tasks_before_manifest (map EvFileTask xs @ ys) = tasks_before_manifest ys"
  "shut_down_from d (map EvFileTask xs @ ys) = shut_down_from d ys"
  by (induction xs) (auto simp: list_ex_iff list_all_iff)

lemma run_tasks_no_errors:
  assumes "run_tasks N acq ctxDone work n errs0 sched = Returns p" and "recorded p = []"
  shows "errs0 = []"
  using run_tasks_inv(1) [OF assms(1)] assms(2) by (simp add: pool_inv_def)

lemma backupFiles_cases:
  assumes "backupFiles cfg params env rp pp fp bl uuid = Returns (r, tr)"
  obtains
    (nofiles) e where "r = Some (Wrap e ''can't find files to backup'')" "tr = []"
  | (failed) n and p :: pool where "recorded p \<noteq> []" "r = Some (Aggregate (recorded p))"
      "tr = EvFoundFiles n # map EvFileTask (tlog p)"
  | (noadd) n and p :: pool and e where "recorded p = []" "bh_errors env = []"
      "\<forall>i<n. Ran i [] \<in> set (tlog p)"
      "r = Some (Wrap e ''cannot add MANIFEST to backup'')"
      "tr = EvFoundFiles n # map EvFileTask (tlog p) @ [EvManifestAddFile (Some e)]"
  | (manifest) n and p :: pool and bm written finalErr fes where
      "bm = makeManifest cfg params env rp pp fp uuid fes"
      "recorded p = []" "bh_errors env = []"
      "\<forall>i<n. Ran i [] \<in> set (tlog p)"
      "(finalErr, written) =
          (case manifest_MarshalIndent env of
             Some e \<Rightarrow> (Some (Wrap e ''cannot JSON encode MANIFEST''), [])
           | None \<Rightarrow>
              (case manifest_Write env of
                 Some e \<Rightarrow> (Some (Wrap e ''cannot write MANIFEST''),
                            [EvManifestWrite bm (Some e)])
               | None \<Rightarrow> (None, [EvManifestWrite bm None])))"
      "r = (if finalErr = None then manifest_Close env else finalErr)"
      "tr = EvFoundFiles n # map EvFileTask (tlog p) @ [EvManifestAddFile None] @ written
              @ [EvManifestClose (manifest_Close env)]"
proof -
  let ?files = "if isIncrementalBackup params then binlogFilesToBackup env bl
            else findFilesToBackup env"
  show thesis
  proof (cases ?files)
    case (Inl e)
    with assms have "r = Some (Wrap e ''can't find files to backup'')" "tr = []"
      by (auto simp: backupFiles_def)
    then show thesis by (rule nofiles)
  next
    case (Inr fes)
    let ?run = "run_tasks (Concurrency params) (acquire env) (ctx_done env)
                 (\<lambda>i. backupFile_errors cfg (file_steps env i))
                 (length fes) (bh_errors env) (schedule env)"
    from assms Inr obtain p where run: "?run = Returns p"
      by (cases ?run) (simp_all add: backupFiles_def)
    show thesis
    proof (cases "recorded p = []")
      case False
      with assms Inr run have "r = Some (Aggregate (recorded p))"
        "tr = EvFoundFiles (length fes) # map EvFileTask (tlog p)"
        by (auto simp: backupFiles_def HasErrors_def recorder_Error_def Let_def)
      with False show thesis by (rule failed)
    next
      case True
      from run_tasks_all_ran(1) [OF run True]
      have ran: "\<forall>i<length fes. Ran i [] \<in> set (tlog p)" by blast
      note noerr = run_tasks_no_errors [OF run True]
      show thesis
      proof (cases "manifest_AddFile env")
        case (Some e)
        with assms Inr run True have "r = Some (Wrap e ''cannot add MANIFEST to backup'')"
          "tr = EvFoundFiles (length fes) # map EvFileTask (tlog p)
                  @ [EvManifestAddFile (Some e)]"
          by (auto simp: backupFiles_def HasErrors_def Let_def)
        with True noerr ran show thesis by (rule noadd)
      next
        case None
        let ?bm = "makeManifest cfg params env rp pp fp uuid
                     (entries_after cfg env (tlog p) fes)"
        define fw where "fw =
          (case manifest_MarshalIndent env of
             Some e \<Rightarrow> (Some (Wrap e ''cannot JSON encode MANIFEST''), [])
           | None \<Rightarrow>
              (case manifest_Write env of
                 Some e \<Rightarrow> (Some (Wrap e ''cannot write MANIFEST''),
                            [EvManifestWrite ?bm (Some e)])
               | None \<Rightarrow> (None, [EvManifestWrite ?bm None])))"
        have fw: "(fst fw, snd fw) =
          (case manifest_MarshalIndent env of
             Some e \<Rightarrow> (Some (Wrap e ''cannot JSON encode MANIFEST''), [])
           | None \<Rightarrow>
              (case manifest_Write env of
                 Some e \<Rightarrow> (Some (Wrap e ''cannot write MANIFEST''),
                            [EvManifestWrite ?bm (Some e)])
               | None \<Rightarrow> (None, [EvManifestWrite ?bm None])))"
          by (simp add: fw_def)
        from Inr run True None
        have "backupFiles cfg params env rp pp fp bl uuid =
           Returns (if fst fw = None then manifest_Close env else fst fw,
                    (EvFoundFiles (length fes) # map EvFileTask (tlog p))
                       @ [EvManifestAddFile None] @ snd fw
                       @ [EvManifestClose (manifest_Close env)])"
          by (simp add: backupFiles_def HasErrors_def Let_def fw_def case_prod_beta)
        with assms have rt: "r = (if fst fw = None then manifest_Close env else fst fw)"
          "tr = EvFoundFiles (length fes) # map EvFileTask (tlog p) @ [EvManifestAddFile None]
                  @ snd fw @ [EvManifestClose (manifest_Close env)]"
          by simp_all
        have "?bm = makeManifest cfg params env rp pp fp uuid
                      (entries_after cfg env (tlog p) fes)" by simp
        from this True noerr ran fw rt show thesis by (rule manifest)
      qed
    qed
  qed
qed

lemma shut_down_from_append:
  "shut_down_from d (xs @ ys) = shut_down_from (shut_down_from d xs) ys"
  by (induction d xs rule: shut_down_from.induct) simp_all

lemma shut_down_from_quiet: "list_all quiet xs \<Longrightarrow> shut_down_from d xs = d"
  by (induction d xs rule: shut_down_from.induct) simp_all

lemma shut_down_from_backupFiles:
  "list_all is_backupFiles_event xs \<Longrightarrow> shut_down_from d xs = d"
  by (induction d xs rule: shut_down_from.induct) simp_all

lemma backupFiles_events:
  assumes "backupFiles cfg params env rp pp fp bl uuid = Returns (r, tr)"
  shows "list_all is_backupFiles_event tr"
  using assms
  by (rule backupFiles_cases) (auto simp: list_all_iff split: option.splits)

lemma close_error_kept_aux:
  assumes "backupFiles cfg params (env\<lparr>manifest_Close := None\<rparr>) rp pp fp bl uuid
             = Returns (r0, tr0)"
  shows "\<exists>tr. backupFiles cfg params (env\<lparr>manifest_Close := closeErr\<rparr>) rp pp fp bl uuid
             = Returns (case r0 of Some e \<Rightarrow> Some e | None \<Rightarrow> closeErr, tr)"
proof -
  let ?files = "if isIncrementalBackup params then binlogFilesToBackup env bl
            else findFilesToBackup env"
  have upd: "\<And>c. (if isIncrementalBackup params
                  then binlogFilesToBackup (env\<lparr>manifest_Close := c\<rparr>) bl
                  else findFilesToBackup (env\<lparr>manifest_Close := c\<rparr>)) = ?files"
    by simp
  show ?thesis
  proof (cases ?files)
    case (Inl e)
    with assms show ?thesis by (auto simp: backupFiles_def upd)
  next
    case (Inr fes)
    let ?run = "run_tasks (Concurrency params) (acquire env) (ctx_done env)
                 (\<lambda>i. backupFile_errors cfg (file_steps env i))
                 (length fes) (bh_errors env) (schedule env)"
    from assms Inr obtain p where run: "?run = Returns p"
      by (cases ?run) (simp_all add: backupFiles_def upd)
    show ?thesis
    proof (cases "recorded p = []")
      case False
      with assms Inr run show ?thesis
        by (auto simp: backupFiles_def HasErrors_def recorder_Error_def Let_def upd)
    next
      case True
      show ?thesis
      proof (cases "manifest_AddFile env")
        case (Some e)
        with assms Inr run True show ?thesis
          by (auto simp: backupFiles_def HasErrors_def Let_def upd)
      next
        case None
        note A = None
        show ?thesis
        proof (cases "manifest_MarshalIndent env")
          case (Some e)
          with assms Inr run True A show ?thesis
            by (auto simp: backupFiles_def HasErrors_def Let_def upd)
        next
          case None
          with assms Inr run True A show ?thesis
            by (cases "manifest_Write env")
               (auto simp: backupFiles_def HasErrors_def Let_def upd)
        qed
      qed
    qed
  qed
qed

lemma executeIncrementalBackup_cases:
  assumes "executeIncrementalBackup cfg my env params0 = Returns (u, e, tr)"
  shows "(\<not> u \<and> e \<noteq> None \<and> list_all quiet tr) \<or>
         (\<exists>params rp fp bl uuid r btr.
            backupFiles cfg params env rp None fp bl uuid = Returns (r, btr)
            \<and> u = (r = None) \<and> e = r \<and> tr = EvFlushBinaryLogs None # btr)"
  using assms unfolding executeIncrementalBackup_def
  by (auto split: sum.splits option.splits prod.splits outcome.splits) blast

lemma restartAfterBackup_props:
  assumes "restartAfterBackup my usable backupErr sro semi rsr rp = Returns (u, rerr, tr)"
  shows "u = usable"
    and "list_all (\<lambda>e. \<not> is_backupFiles_event e) tr"
    and "EvStart Background (Start my) \<in> set tr"
    and "shut_down_from True tr = (Start my \<noteq> None)"
    and "rerr = None \<Longrightarrow> backupErr = None \<and> Start my = None"
    and "Start my = Some e \<Longrightarrow> rerr = Some (Wrap e ''can't restart mysqld'')"
    and "Start my = None \<Longrightarrow> EvSetSuperReadOnly sro (SetSuperReadOnly_restore my) \<in> set tr"
    and "Start my = None \<Longrightarrow> SetSuperReadOnly_restore my = Some e \<Longrightarrow> rerr = Some e"
    and "Start my = None \<Longrightarrow> SetSuperReadOnly_restore my = None \<Longrightarrow> fst semi \<or> snd semi \<Longrightarrow>
           EvSetSemiSyncEnabled (fst semi) (snd semi) (SetSemiSyncEnabled my) \<in> set tr"
    and "Start my = None \<Longrightarrow> SetSuperReadOnly_restore my = None \<Longrightarrow> fst semi \<or> snd semi \<Longrightarrow>
           SetSemiSyncEnabled my = Some e \<Longrightarrow> rerr = Some e"
  using assms unfolding restartAfterBackup_def Let_def
  by (auto split: sum.splits option.splits if_splits)

lemma restartAfterBackup_error:
  assumes "restartAfterBackup my usable backupErr sro (SemiSyncEnabled my) rsr rp
             = Returns (u, rerr, tr)"
  shows "rerr = first_failure (recovery_steps my rsr rp) backupErr"
proof -
  note defs = restartAfterBackup_def Let_def recovery_steps_def first_failure_def
  show ?thesis
  proof (cases "Start my")
    case (Some x)
    with assms show ?thesis by (auto simp: defs)
  next
    case None
    note st = None
    show ?thesis
    proof (cases "SetSuperReadOnly_restore my")
      case (Some x)
      with assms st show ?thesis by (auto simp: defs)
    next
      case None
      note sr = None
      show ?thesis
      proof (cases "if fst (SemiSyncEnabled my) \<or> snd (SemiSyncEnabled my)
                    then SetSemiSyncEnabled my else None")
        case (Some x)
        with assms st sr show ?thesis by (auto simp: defs split: if_splits)
      next
        case None
        note semi = None
        show ?thesis
        proof (cases rsr)
          case False
          with assms st sr semi show ?thesis by (auto simp: defs split: if_splits)
        next
          case True
          note rsr = True
          show ?thesis
          proof (cases "StartReplication my")
            case (Some x)
            with assms st sr semi rsr show ?thesis by (auto simp: defs split: if_splits)
          next
            case None
            note sr2 = None
            show ?thesis
            proof (cases "WaitForReplicationStart my")
              case (Some x)
              with assms st sr semi rsr sr2 show ?thesis
                by (auto simp: defs split: if_splits)
            next
              case None
              note w = None
              show ?thesis
              proof (cases "getPrimaryPosition my")
                case (Inl x)
                with assms st sr semi rsr sr2 w show ?thesis
                  by (auto simp: defs split: if_splits)
              next
                case (Inr pos)
                with assms st sr semi rsr sr2 w show ?thesis
                  by (cases "waitForPosition my rp 0")
                     (auto simp: defs split: if_splits option.splits)
              qed
            qed
          qed
        qed
      qed
    qed
  qed
qed

lemma backupAfterPosition_cases:
  assumes "backupAfterPosition cfg my env params sro semi rsr rp tr0 = Returns (u, e, tr)"
  shows "(\<not> u \<and> e \<noteq> None \<and> (tr = tr0 \<or> (\<exists>x. tr = tr0 @ [EvShutdown WithTimeout (Some x)]))) \<or>
         (\<exists>gp uuid backupErr btr tr'.
            GetGTIDPurged my = Inr gp \<and> GetServerUUID my = Inr uuid
            \<and> backupFiles cfg params env rp gp None [] uuid = Returns (backupErr, btr)
            \<and> restartAfterBackup my (backupErr = None) backupErr sro semi rsr rp
                  = Returns (u, e, tr')
            \<and> tr = tr0 @ [EvShutdown WithTimeout None] @ btr @ tr')"
  using assms unfolding backupAfterPosition_def
  by (auto split: sum.splits option.splits prod.splits outcome.splits)

text \<open>The two shapes of a full backup that returned: it ended before \<open>mysqld\<close> was
  shut down, not usable and with an error; or \<open>mysqld\<close> was shut down, \<open>backupFiles\<close>
  ran, and the restart followed.\<close>

definition full_shape ::
  "settings \<Rightarrow> mysqldEnv \<Rightarrow> backupEnv \<Rightarrow> BackupParams \<Rightarrow> bool \<Rightarrow> error option \<Rightarrow> event list \<Rightarrow> bool" where
  "full_shape cfg my env params u e tr \<longleftrightarrow>
     (\<not> u \<and> e \<noteq> None \<and> list_all quiet tr) \<or>
     (\<exists>sro rsr rp gp uuid backupErr btr tr0 tr' dfr.
            IsSuperReadOnly my = Inr sro
            \<and> replicationPosition_of my = Inr rp \<and> rsr = replicaStartRequired_of cfg my
            \<and> GetGTIDPurged my = Inr gp \<and> GetServerUUID my = Inr uuid
            \<and> backupFiles cfg params env rp gp None [] uuid = Returns (backupErr, btr)
            \<and> restartAfterBackup my (backupErr = None) backupErr sro (SemiSyncEnabled my)
                  rsr rp = Returns (u, e, tr')
            \<and> tr = tr0 @ [EvShutdown WithTimeout None] @ btr @ tr' @ dfr
            \<and> list_all quiet tr0 \<and> list_all quiet dfr)"

lemma with_deferred_Returns:
  "with_deferred ev R = Returns (u, e, tr) \<Longrightarrow> \<exists>tr1. R = Returns (u, e, tr1) \<and> tr = tr1 @ [ev]"
  by (auto simp: with_deferred_def split: outcome.splits)

lemma after_shape:
  assumes "backupAfterPosition cfg my env params sro (SemiSyncEnabled my) rsr rp tr0
             = Returns (u, e, tr1)"
    and "IsSuperReadOnly my = Inr sro" and "list_all quiet tr0" and "list_all quiet dfr"
    and "replicationPosition_of my = Inr rp" and "rsr = replicaStartRequired_of cfg my"
  shows "full_shape cfg my env params u e (tr1 @ dfr)"
proof -
  from backupAfterPosition_cases [OF assms(1)]
  consider (early) "\<not> u" "e \<noteq> None"
      "tr1 = tr0 \<or> (\<exists>x. tr1 = tr0 @ [EvShutdown WithTimeout (Some x)])"
    | (ran) gp uuid backupErr btr tr' where
        "backupFiles cfg params env rp gp None [] uuid = Returns (backupErr, btr)"
        "restartAfterBackup my (backupErr = None) backupErr sro (SemiSyncEnabled my) rsr rp
           = Returns (u, e, tr')"
        "tr1 = tr0 @ [EvShutdown WithTimeout None] @ btr @ tr'"
        "GetGTIDPurged my = Inr gp" "GetServerUUID my = Inr uuid"
    by blast
  then show ?thesis
  proof cases
    case early
    with assms(3,4) have "list_all quiet (tr1 @ dfr)" by auto
    with early show ?thesis by (simp add: full_shape_def)
  next
    case ran
    have "tr1 @ dfr = tr0 @ [EvShutdown WithTimeout None] @ btr @ tr' @ dfr"
      using ran(3) by simp
    with ran(1,2,4,5) assms(2,3,4,5,6) show ?thesis
      unfolding full_shape_def by blast
  qed
qed

lemma executeFullBackup_shape:
  assumes "executeFullBackup cfg my env params = Returns (u, e, tr)"
    and "IncrementalFromPos params = []"
  shows "full_shape cfg my env params u e tr"
proof -
  let ?first = "case ReplicationStatus_first my of
                   Inr replicaStatus \<Rightarrow>
                     Inr (Healthy replicaStatus \<and> \<not> DisableActiveReparents cfg, False)
                 | Inl e \<Rightarrow> if e = ErrNotReplica then Inr (False, True) else Inl e"
  note defs = executeFullBackup_def Let_def full_shape_def
  show ?thesis
  proof (cases ?first)
    case (Inl x)
    with assms show ?thesis by (auto simp: defs)
  next
    case (Inr pr)
    obtain rsr sip where pr: "pr = (rsr, sip)" by (cases pr)
    note first = Inr [unfolded pr]
    from first have rsr: "rsr = replicaStartRequired_of cfg my"
      and prim_pos: "sip \<Longrightarrow> replicationPosition_of my = PrimaryPosition my"
      and repl_pos: "\<And>st. \<not> sip \<Longrightarrow> ReplicationStatus_stopped my = Inr st \<Longrightarrow>
                       replicationPosition_of my = Inr (rs_Position st)"
      by (auto simp: replicaStartRequired_of_def replicationPosition_of_def
            split: sum.splits if_splits)
    show ?thesis
    proof (cases "IsReadOnly my")
      case (Inl x)
      with assms first show ?thesis by (auto simp: defs)
    next
      case (Inr ro)
      note ro = Inr
      show ?thesis
      proof (cases "IsSuperReadOnly my")
        case (Inl x)
        with assms first ro show ?thesis by (auto simp: defs)
      next
        case (Inr sro)
        note sro = Inr
        show ?thesis
        proof (cases sip)
          case False
          show ?thesis
          proof (cases "StopReplication my")
            case (Some x)
            with assms first ro sro False show ?thesis by (auto simp: defs)
          next
            case None
            note stop = None
            show ?thesis
            proof (cases "ReplicationStatus_stopped my")
              case (Inl x)
              with assms first ro sro False stop show ?thesis by (auto simp: defs)
            next
              case (Inr st)
              with assms first ro sro False stop
              have "backupAfterPosition cfg my env params sro (SemiSyncEnabled my) rsr
                      (rs_Position st) [EvStopReplication None] = Returns (u, e, tr)"
                by (simp add: executeFullBackup_def Let_def)
              from after_shape [OF this sro _ _ repl_pos [OF False Inr] rsr, of "[]"]
              show ?thesis by simp
            qed
          qed
        next
          case True
          note prim = True
          show ?thesis
          proof (cases sro)
            case True
            show ?thesis
            proof (cases "PrimaryPosition my")
              case (Inl x)
              with assms first ro sro prim True show ?thesis by (auto simp: defs)
            next
              case (Inr pos)
              with assms first ro sro prim True
              have "backupAfterPosition cfg my env params sro (SemiSyncEnabled my) rsr
                      pos [] = Returns (u, e, tr)"
                by (simp add: executeFullBackup_def Let_def)
              from after_shape [OF this sro _ _ _ rsr, of "[]"] prim_pos [OF prim] Inr
              show ?thesis by simp
            qed
          next
            case False
            show ?thesis
            proof (cases "SetSuperReadOnly_enable my")
              case (Some x)
              with assms first ro sro prim False show ?thesis by (auto simp: defs)
            next
              case None
              note en = None
              let ?dev = "EvSetSuperReadOnly False (SetSuperReadOnly_deferred my)"
              show ?thesis
              proof (cases "PrimaryPosition my")
                case (Inl x)
                with assms first ro sro prim False en show ?thesis
                  by (auto simp: defs with_deferred_def)
              next
                case (Inr pos)
                with assms first ro sro prim False en
                have "with_deferred ?dev
                        (backupAfterPosition cfg my env params sro (SemiSyncEnabled my) rsr
                           pos [EvSetSuperReadOnly True None]) = Returns (u, e, tr)"
                  by (simp add: executeFullBackup_def Let_def)
                from with_deferred_Returns [OF this] obtain tr1 where
                  "backupAfterPosition cfg my env params sro (SemiSyncEnabled my) rsr
                           pos [EvSetSuperReadOnly True None] = Returns (u, e, tr1)"
                  "tr = tr1 @ [?dev]" by blast
                with after_shape [OF this(1) sro _ _ _ rsr, of "[?dev]"] prim_pos [OF prim] Inr
                show ?thesis by simp
              qed
            qed
          qed
        qed
      qed
    qed
  qed
qed

text \<open>A list of events none of which is one of \<open>backupFiles\<close>.\<close>

definition outside :: "event list \<Rightarrow> bool" where
  "outside xs = list_all (\<lambda>e. \<not> is_backupFiles_event e) xs"

lemma outside_simps [simp]:
  "outside []" "outside (xs @ ys) = (outside xs \<and> outside ys)"
  "outside (x # xs) = (\<not> is_backupFiles_event x \<and> outside xs)"
  by (simp_all add: outside_def)

lemma quiet_outside: "list_all quiet xs \<Longrightarrow> outside xs"
  unfolding outside_def by (induction xs) (auto elim: quiet.elims)

lemma outside_facts:
  assumes "outside xs"
  shows "EvFileTask t \<notin> set xs" "EvManifestClose r \<notin> set xs"
    "list_ex is_manifest_written xs = False" "list_ex is_manifest_event xs = False"
    "list_ex (found_and_copied T) xs = False" "list_all (\<lambda>e. \<not> is_file_task e) xs"
    "tasks_before_manifest (xs @ ys) = tasks_before_manifest ys"
    "tasks_before_manifest xs" "\<forall>e\<in>set xs. \<not> is_file_task e"
  using assms unfolding outside_def
  by (induction xs) (auto elim: is_manifest_written.elims is_manifest_event.elims
        found_and_copied.elims is_file_task.elims)

text \<open>What C1 says of a backup that returned \<open>u\<close> after the events \<open>tr\<close>.\<close>

definition backup_ok :: "backupEnv \<Rightarrow> bool \<Rightarrow> event list \<Rightarrow> bool" where
  "backup_ok env u tr \<longleftrightarrow>
     u = (every_copy_succeeded tr \<and> manifest_write_succeeded tr)
     \<and> tasks_before_manifest tr
     \<and> (list_ex is_manifest_event tr \<longrightarrow> every_copy_succeeded tr \<and> bh_errors env = [])"

lemma found_map [simp]:
  "list_ex (found_and_copied T) (map EvFileTask xs) = False"
  by (induction xs) auto

lemma set_task_simps [simp]:
  "EvManifestClose r \<notin> set (map EvFileTask xs)"
  "(EvFileTask t \<in> set (map EvFileTask xs)) = (t \<in> set xs)"
  by auto

lemma backupFiles_trace:
  assumes bf: "backupFiles cfg params env rp pp fp bl uuid = Returns (r, btr)"
    and pre: "outside pre" and post: "outside post"
  shows "backup_ok env (r = None) (pre @ btr @ post)"
  using bf
proof (cases rule: backupFiles_cases)
  case (nofiles e)
  with pre post show ?thesis
    by (simp add: backup_ok_def every_copy_succeeded_def manifest_write_succeeded_def
          outside_facts)
next
  case (failed n p)
  with pre post show ?thesis
    by (simp add: backup_ok_def every_copy_succeeded_def manifest_write_succeeded_def
          outside_facts)
next
  case (noadd n p e)
  with pre post show ?thesis
    by (simp add: backup_ok_def every_copy_succeeded_def manifest_write_succeeded_def
          outside_facts list_all_iff)
next
  case (manifest n p bm written finalErr fes)
  from manifest(5) have w: "outside [] \<and>
      (written = [] \<or> (\<exists>x. written = [EvManifestWrite bm x]))
      \<and> (finalErr = None) = (written = [EvManifestWrite bm None])"
    by (auto split: option.splits)
  with manifest(2,3,4,6,7) pre post show ?thesis
    by (auto simp: backup_ok_def every_copy_succeeded_def manifest_write_succeeded_def
          outside_facts list_all_iff)
qed

lemma outside_ok: "outside tr \<Longrightarrow> backup_ok env False tr"
  by (simp add: backup_ok_def every_copy_succeeded_def manifest_write_succeeded_def
        outside_facts)

text \<open>
  C1. Whenever \<open>ExecuteBackup\<close> returns: the backup is reported usable exactly when
  the files were found, the task of every file copied it with no error recorded, and
  the manifest was written and closed without error; no file task ends after the first
  step on the manifest; and a step on the manifest happens only when every file was
  copied and the handle held no error when the call started (none was recorded since,
  every task having recorded nothing).
\<close>

theorem manifest_last_and_usable:
  assumes "ExecuteBackup cfg my env params = Returns (usable, err, tr)"
  shows "usable = (every_copy_succeeded tr \<and> manifest_write_succeeded tr)
         \<and> tasks_before_manifest tr
         \<and> (list_ex is_manifest_event tr \<longrightarrow> every_copy_succeeded tr \<and> bh_errors env = [])"
proof -
  have "backup_ok env usable tr"
  proof (cases "isIncrementalBackup params")
    case True
    with assms have "executeIncrementalBackup cfg my env params = Returns (usable, err, tr)"
      by (simp add: ExecuteBackup_def)
    from executeIncrementalBackup_cases [OF this]
    consider (early) "\<not> usable" "list_all quiet tr"
      | (ran) params' rp fp bl uuid r btr where
          "backupFiles cfg params' env rp None fp bl uuid = Returns (r, btr)"
          "usable = (r = None)" "tr = EvFlushBinaryLogs None # btr"
      by blast
    then show ?thesis
    proof cases
      case early
      then show ?thesis using outside_ok [OF quiet_outside] by simp
    next
      case ran
      from backupFiles_trace [OF ran(1), of "[EvFlushBinaryLogs None]" "[]"] ran(2,3)
      show ?thesis by simp
    qed
  next
    case False
    with assms have full: "executeFullBackup cfg my env params = Returns (usable, err, tr)"
      and inc: "IncrementalFromPos params = []"
      by (simp_all add: ExecuteBackup_def isIncrementalBackup_def)
    from executeFullBackup_shape [OF full inc]
    consider (early) "\<not> usable" "list_all quiet tr"
      | (ran) sro rsr rp gp uuid backupErr btr tr0 tr' dfr where
          "backupFiles cfg params env rp gp None [] uuid = Returns (backupErr, btr)"
          "restartAfterBackup my (backupErr = None) backupErr sro (SemiSyncEnabled my)
                  rsr rp = Returns (usable, err, tr')"
          "tr = tr0 @ [EvShutdown WithTimeout None] @ btr @ tr' @ dfr"
          "list_all quiet tr0" "list_all quiet dfr"
      unfolding full_shape_def by blast
    then show ?thesis
    proof cases
      case early
      then show ?thesis using outside_ok [OF quiet_outside] by simp
    next
      case ran
      note rp = restartAfterBackup_props [OF ran(2)]
      have pre: "outside (tr0 @ [EvShutdown WithTimeout None])"
        using quiet_outside [OF ran(4)] by simp
      have post: "outside (tr' @ dfr)"
        using quiet_outside [OF ran(5)] rp(2) by (simp add: outside_def)
      from backupFiles_trace [OF ran(1) pre post] rp(1) ran(3)
      show ?thesis by simp
    qed
  qed
  then show ?thesis by (simp add: backup_ok_def)
qed

lemma quiet_no_shutdown: "list_all quiet tr \<Longrightarrow> EvShutdown c None \<notin> set tr"
  by (induction tr) auto

text \<open>
  C2 (as the code has it). In a full backup that returns: once the shutdown of
  \<open>mysqld\<close> succeeded, \<open>mysqld.Start\<close> is called with the background context whatever
  \<open>backupFiles\<close> returned. When the start fails its error is the one returned, also
  in place of an error of the backup, and \<open>mysqld\<close> stays down. When it succeeds
  \<open>mysqld\<close> is running, \<open>super_read_only\<close> is set back to the value read before, and
  when that succeeds and semi-sync was on, semi-sync is set back. The backup is usable
  exactly when \<open>backupFiles\<close> returned no error, and the error returned is that of the
  first recovery step that fails (the start of \<open>mysqld\<close>, the reset of
  \<open>super_read_only\<close>, the reset of semi-sync, and where the replication is started
  again: its start, the wait for its start, the read of the position of the primary,
  the wait for the replica to move on) and, when no recovery step fails, the error
  \<open>backupFiles\<close> returned: so a nil error is returned only for a usable backup. When
  the shutdown did not succeed, an error is returned and \<open>mysqld\<close> was never shut down.
\<close>

theorem restart_after_shutdown:
  assumes "executeFullBackup cfg my env params = Returns (usable, err, tr)"
    and "IncrementalFromPos params = []"
  shows "if EvShutdown WithTimeout None \<in> set tr
         then EvStart Background (Start my) \<in> set tr
              \<and> (err = None \<longrightarrow> usable)
              \<and> (case Start my of
                    Some e \<Rightarrow> err = Some (Wrap e ''can't restart mysqld'') \<and> shut_down tr
                  | None \<Rightarrow>
                      \<not> shut_down tr \<and>
                      (case IsSuperReadOnly my of
                         Inl x \<Rightarrow> False
                       | Inr superReadOnly \<Rightarrow>
                           EvSetSuperReadOnly superReadOnly (SetSuperReadOnly_restore my)
                             \<in> set tr \<and>
                           (case SetSuperReadOnly_restore my of
                              Some e \<Rightarrow> err = Some e
                            | None \<Rightarrow>
                                if fst (SemiSyncEnabled my) \<or> snd (SemiSyncEnabled my)
                                then EvSetSemiSyncEnabled (fst (SemiSyncEnabled my))
                                       (snd (SemiSyncEnabled my)) (SetSemiSyncEnabled my)
                                       \<in> set tr
                                     \<and> (case SetSemiSyncEnabled my of
                                          Some e \<Rightarrow> err = Some e
                                        | None \<Rightarrow> True)
                                else True)))
              \<and> (case replicationPosition_of my of
                    Inl x \<Rightarrow> False
                  | Inr replicationPosition \<Rightarrow>
                 (case GetGTIDPurged my of
                    Inl x \<Rightarrow> False
                  | Inr gtidPurgedPosition \<Rightarrow>
                 (case GetServerUUID my of
                    Inl x \<Rightarrow> False
                  | Inr serverUUID \<Rightarrow>
                 (case returned_error (backupFiles cfg params env replicationPosition
                         gtidPurgedPosition None [] serverUUID) of
                    None \<Rightarrow> False
                  | Some backupErr \<Rightarrow>
                      usable = (backupErr = None)
                      \<and> err = first_failure
                                (recovery_steps my (replicaStartRequired_of cfg my)
                                   replicationPosition)
                                backupErr))))
         else \<not> shut_down tr \<and> \<not> usable \<and> err \<noteq> None"
proof -
  from executeFullBackup_shape [OF assms]
  consider (early) "\<not> usable" "err \<noteq> None" "list_all quiet tr"
    | (ran) sro rsr rp gp uuid backupErr btr tr0 tr' dfr where
        "IsSuperReadOnly my = Inr sro"
        "backupFiles cfg params env rp gp None [] uuid = Returns (backupErr, btr)"
        "restartAfterBackup my (backupErr = None) backupErr sro (SemiSyncEnabled my)
                rsr rp = Returns (usable, err, tr')"
        "tr = tr0 @ [EvShutdown WithTimeout None] @ btr @ tr' @ dfr"
        "list_all quiet tr0" "list_all quiet dfr"
        "replicationPosition_of my = Inr rp" "rsr = replicaStartRequired_of cfg my"
        "GetGTIDPurged my = Inr gp" "GetServerUUID my = Inr uuid"
    unfolding full_shape_def by blast
  then show ?thesis
  proof cases
    case early
    then show ?thesis
      by (simp add: quiet_no_shutdown shut_down_def shut_down_from_quiet)
  next
    case ran
    note rp = restartAfterBackup_props [OF ran(3)]
    have sd: "shut_down tr = (Start my \<noteq> None)"
      using ran(4,5,6) rp(4) backupFiles_events [OF ran(2)]
      by (simp add: shut_down_def shut_down_from_append shut_down_from_quiet
            shut_down_from_backupFiles)
    have shut: "EvShutdown WithTimeout None \<in> set tr" using ran(4) by simp
    have sub: "set tr' \<subseteq> set tr" using ran(4) by auto
    have a: "EvStart Background (Start my) \<in> set tr" using rp(3) sub by blast
    have b: "err = None \<longrightarrow> usable" using rp(1,5) by auto
    have "err = first_failure (recovery_steps my rsr rp) backupErr"
      by (rule restartAfterBackup_error [OF ran(3)])
    with rp(1) ran(2,7,8,9,10)
    have f: "case replicationPosition_of my of
                    Inl x \<Rightarrow> False
                  | Inr replicationPosition \<Rightarrow>
                 (case GetGTIDPurged my of
                    Inl x \<Rightarrow> False
                  | Inr gtidPurgedPosition \<Rightarrow>
                 (case GetServerUUID my of
                    Inl x \<Rightarrow> False
                  | Inr serverUUID \<Rightarrow>
                 (case returned_error (backupFiles cfg params env replicationPosition
                         gtidPurgedPosition None [] serverUUID) of
                    None \<Rightarrow> False
                  | Some backupErr \<Rightarrow>
                      usable = (backupErr = None)
                      \<and> err = first_failure
                                (recovery_steps my (replicaStartRequired_of cfg my)
                                   replicationPosition)
                                backupErr)))"
      by (simp add: returned_error_def)
    show ?thesis
    proof (cases "Start my")
      case (Some e)
      with shut a b sd rp(6) [OF Some] f show ?thesis by simp
    next
      case None
      note st = None
      have c: "EvSetSuperReadOnly sro (SetSuperReadOnly_restore my) \<in> set tr"
        using rp(7) [OF st] sub by blast
      show ?thesis
      proof (cases "SetSuperReadOnly_restore my")
        case (Some e)
        with shut a b sd st c ran(1) rp(8) [OF st Some] f show ?thesis by simp
      next
        case None
        note sr = None
        show ?thesis
        proof (cases "fst (SemiSyncEnabled my) \<or> snd (SemiSyncEnabled my)")
          case False
          with shut a b sd st c ran(1) sr f show ?thesis by simp
        next
          case True
          have d: "EvSetSemiSyncEnabled (fst (SemiSyncEnabled my))
                     (snd (SemiSyncEnabled my)) (SetSemiSyncEnabled my) \<in> set tr"
            using rp(9) [OF st sr True] sub by blast
          show ?thesis
          proof (cases "SetSemiSyncEnabled my")
            case None
            with shut a b sd st c ran(1) sr True d f show ?thesis by simp
          next
            case (Some e)
            with shut a b sd st c ran(1) sr True d rp(10) [OF st sr True Some] f
            show ?thesis by simp
          qed
        qed
      qed
    qed
  qed
qed

section \<open>Example runs of the backup\<close>

text \<open>The manifest and the events of the full backup of \<open>my0\<close> and \<open>env0\<close>.\<close>

definition manifest_full :: builtinBackupManifest where
  "manifest_full =
     \<lparr>BackupMethod = ''builtin'',
      Position = Some (Mysql56GTIDSet ''3e11fa47:1-30''),
      PurgedPosition = Some (Mysql56GTIDSet ''3e11fa47:1-5''),
      FromPosition = None, Incremental = False, ServerUUID = ''3e11fa47'',
      bm_TabletAlias = ''zone1-100'', bm_Keyspace = ''ks'', bm_Shard = ''0'',
      bm_BackupTime = ''2023-03-01T00:00:00Z'', FinishedTime = ''2023-03-01T00:10:00Z'',
      CompressionEngine = ''pgzip'',
      FileEntries =
        [\<lparr>Base = ''Data'', Name = ''ibdata1'', Hash = ''cbf43926'', ParentPath = []\<rparr>,
         \<lparr>Base = ''Data'', Name = ''t.ibd'', Hash = ''cbf43926'', ParentPath = []\<rparr>],
      SkipCompress = False, ExternalDecompressor = []\<rparr>"

definition trace_full :: "event list" where
  "trace_full =
     [EvStopReplication None, EvShutdown WithTimeout None, EvFoundFiles 2,
      EvFileTask (Ran 1 []), EvFileTask (Ran 0 []), EvManifestAddFile None,
      EvManifestWrite manifest_full None, EvManifestClose None,
      EvStart Background None, EvSetSuperReadOnly True None,
      EvSetSemiSyncEnabled True False None, EvStartReplication None]"

text \<open>A run in which the copy of the second file fails, and one in which no file is
  found and \<open>mysqld\<close> does not start again.\<close>

definition env_copy_fails :: backupEnv where
  "env_copy_fails =
     env0\<lparr>file_steps := (\<lambda>i. if i = 1 then steps_ok\<lparr>bf_Copy := Some (Foreign ''disk error'')\<rparr>
                               else steps_ok)\<rparr>"

definition trace_copy_fails :: "event list" where
  "trace_copy_fails =
     [EvStopReplication None, EvShutdown WithTimeout None, EvFoundFiles 2,
      EvFileTask (Ran 1 [Wrap (Foreign ''disk error'') ''cannot copy data'']),
      EvFileTask (Ran 0 []),
      EvStart Background None, EvSetSuperReadOnly True None,
      EvSetSemiSyncEnabled True False None, EvStartReplication None]"

definition my_no_restart :: mysqldEnv where
  "my_no_restart = my0\<lparr>Start := Some (Foreign ''mysqld did not start'')\<rparr>"

definition env_no_files :: backupEnv where
  "env_no_files = env0\<lparr>findFilesToBackup := Inl (Foreign ''read dir failed'')\<rparr>"

text \<open>A run in which the replication does not start again after the backup.\<close>

definition my_replica_stuck :: mysqldEnv where
  "my_replica_stuck = my0\<lparr>WaitForReplicationStart := Some (Foreign ''replica did not start'')\<rparr>"

text \<open>
  C8. The error \<open>backupFiles\<close> returns when the close of the manifest gives
  \<open>closeErr\<close> is the error it returns when the close gives nil, if that is an error
  (of an earlier step: it stays), and \<open>closeErr\<close> otherwise (all steps before
  returned nil).
\<close>

theorem manifest_Close_error:
  assumes "returned_error (backupFiles cfg params (env\<lparr>manifest_Close := None\<rparr>)
              rp pp fp bl uuid) = Some r0"
  shows "returned_error (backupFiles cfg params (env\<lparr>manifest_Close := closeErr\<rparr>)
              rp pp fp bl uuid) = Some (case r0 of Some e \<Rightarrow> Some e | None \<Rightarrow> closeErr)"
proof -
  from assms obtain tr0 where
    "backupFiles cfg params (env\<lparr>manifest_Close := None\<rparr>) rp pp fp bl uuid = Returns (r0, tr0)"
    by (auto simp: returned_error_def split: outcome.splits)
  from close_error_kept_aux [OF this, of closeErr] show ?thesis
    by (auto simp: returned_error_def)
qed

theorem manifest_Close_error_witness:
  "returned_error (backupFiles cfg0 params_full (env0\<lparr>manifest_Close := None\<rparr>)
      None None None [] ''3e11fa47'') = Some None \<and>
   returned_error (backupFiles cfg0 params_full
      (env0\<lparr>manifest_Close := Some (Foreign ''close failed'')\<rparr>)
      None None None [] ''3e11fa47'') = Some (Some (Foreign ''close failed'')) \<and>
   returned_error (backupFiles cfg0 params_full
      (env0\<lparr>manifest_Write := Some (Foreign ''quota''), manifest_Close := None\<rparr>)
      None None None [] ''3e11fa47'') = Some (Some (Wrap (Foreign ''quota'') ''cannot write MANIFEST'')) \<and>
   returned_error (backupFiles cfg0 params_full
      (env0\<lparr>manifest_Write := Some (Foreign ''quota''),
            manifest_Close := Some (Foreign ''close failed'')\<rparr>)
      None None None [] ''3e11fa47'') = Some (Some (Wrap (Foreign ''quota'') ''cannot write MANIFEST''))"
proof -
  have a: "returned_error (backupFiles cfg0 params_full (env0\<lparr>manifest_Close := None\<rparr>)
      None None None [] ''3e11fa47'') = Some None"
    by code_simp
  have b: "returned_error (backupFiles cfg0 params_full
      (env0\<lparr>manifest_Write := Some (Foreign ''quota''), manifest_Close := None\<rparr>)
      None None None [] ''3e11fa47'') = Some (Some (Wrap (Foreign ''quota'') ''cannot write MANIFEST''))"
    by code_simp
  from manifest_Close_error [OF a, of "Some (Foreign ''close failed'')"]
       manifest_Close_error [of cfg0 params_full "env0\<lparr>manifest_Write := Some (Foreign ''quota'')\<rparr>"
          None None None "[]" "''3e11fa47''" _ "Some (Foreign ''close failed'')"] a b
  show ?thesis by simp
qed

theorem manifest_last_and_usable_witness:
  "ExecuteBackup cfg0 my0 env0 params_full = Returns (True, None, trace_full)
   \<and> every_copy_succeeded trace_full \<and> manifest_write_succeeded trace_full
   \<and> tasks_before_manifest trace_full \<and> list_ex is_manifest_event trace_full
   \<and> bh_errors env0 = []
   \<and> ExecuteBackup cfg0 my0 env_copy_fails params_full =
        Returns (False, Some (Aggregate [Wrap (Foreign ''disk error'') ''cannot copy data'']),
                 trace_copy_fails)
   \<and> \<not> every_copy_succeeded trace_copy_fails \<and> \<not> manifest_write_succeeded trace_copy_fails
   \<and> tasks_before_manifest trace_copy_fails \<and> \<not> list_ex is_manifest_event trace_copy_fails"
proof -
  have a: "ExecuteBackup cfg0 my0 env0 params_full = Returns (True, None, trace_full)"
    by code_simp
  have b: "ExecuteBackup cfg0 my0 env_copy_fails params_full =
        Returns (False, Some (Aggregate [Wrap (Foreign ''disk error'') ''cannot copy data'']),
                 trace_copy_fails)"
    by code_simp
  have c: "list_ex is_manifest_event trace_full" "\<not> list_ex is_manifest_event trace_copy_fails"
     "\<not> every_copy_succeeded trace_copy_fails"
     "\<not> manifest_write_succeeded trace_copy_fails"
    by code_simp+
  from manifest_last_and_usable [OF a] manifest_last_and_usable [OF b] a b c
  show ?thesis by simp
qed

theorem restart_after_shutdown_witness:
  "IncrementalFromPos params_full = []
   \<and> executeFullBackup cfg0 my0 env_copy_fails params_full =
        Returns (False, Some (Aggregate [Wrap (Foreign ''disk error'') ''cannot copy data'']),
                 trace_copy_fails)
   \<and> EvShutdown WithTimeout None \<in> set trace_copy_fails
   \<and> Start my0 = None \<and> EvStart Background None \<in> set trace_copy_fails
   \<and> \<not> shut_down trace_copy_fails
   \<and> IsSuperReadOnly my0 = Inr True \<and> SetSuperReadOnly_restore my0 = None
   \<and> EvSetSuperReadOnly True None \<in> set trace_copy_fails
   \<and> SemiSyncEnabled my0 = (True, False) \<and> SetSemiSyncEnabled my0 = None
   \<and> EvSetSemiSyncEnabled True False None \<in> set trace_copy_fails
   \<and> replicationPosition_of my0 = Inr (Some (Mysql56GTIDSet ''3e11fa47:1-30''))
   \<and> GetGTIDPurged my0 = Inr (Some (Mysql56GTIDSet ''3e11fa47:1-5''))
   \<and> GetServerUUID my0 = Inr ''3e11fa47''
   \<and> returned_error (backupFiles cfg0 params_full env_copy_fails
        (Some (Mysql56GTIDSet ''3e11fa47:1-30'')) (Some (Mysql56GTIDSet ''3e11fa47:1-5''))
        None [] ''3e11fa47'') =
      Some (Some (Aggregate [Wrap (Foreign ''disk error'') ''cannot copy data'']))
   \<and> replicaStartRequired_of cfg0 my0
   \<and> recovery_steps my0 True (Some (Mysql56GTIDSet ''3e11fa47:1-30''))
        = [None, None, None, None, None, None, None]
   \<and> first_failure [None, None, None, None, None, None, None]
        (Some (Aggregate [Wrap (Foreign ''disk error'') ''cannot copy data'']))
      = Some (Aggregate [Wrap (Foreign ''disk error'') ''cannot copy data''])
   \<and> executeFullBackup cfg0 my_replica_stuck env0 params_full =
        Returns (True, Some (Wrap (Foreign ''replica did not start'') ''replica is not restarting''),
                 trace_full)
   \<and> EvShutdown WithTimeout None \<in> set trace_full
   \<and> returned_error (backupFiles cfg0 params_full env0
        (Some (Mysql56GTIDSet ''3e11fa47:1-30'')) (Some (Mysql56GTIDSet ''3e11fa47:1-5''))
        None [] ''3e11fa47'') = Some None
   \<and> first_failure
        (recovery_steps my_replica_stuck True (Some (Mysql56GTIDSet ''3e11fa47:1-30''))) None
      = Some (Wrap (Foreign ''replica did not start'') ''replica is not restarting'')"
proof -
  have a: "IncrementalFromPos params_full = []" by code_simp
  have b: "executeFullBackup cfg0 my0 env_copy_fails params_full =
        Returns (False, Some (Aggregate [Wrap (Foreign ''disk error'') ''cannot copy data'']),
                 trace_copy_fails)"
    by code_simp
  have b': "executeFullBackup cfg0 my_replica_stuck env0 params_full =
        Returns (True, Some (Wrap (Foreign ''replica did not start'') ''replica is not restarting''),
                 trace_full)"
    by code_simp
  have c: "EvShutdown WithTimeout None \<in> set trace_copy_fails"
    "EvShutdown WithTimeout None \<in> set trace_full"
    by (simp_all add: trace_copy_fails_def trace_full_def)
  have d: "Start my0 = None" "IsSuperReadOnly my0 = Inr True"
    "SetSuperReadOnly_restore my0 = None" "SemiSyncEnabled my0 = (True, False)"
    "SetSemiSyncEnabled my0 = None"
    by (simp_all add: my0_def)
  have e: "replicationPosition_of my0 = Inr (Some (Mysql56GTIDSet ''3e11fa47:1-30''))"
    "GetGTIDPurged my0 = Inr (Some (Mysql56GTIDSet ''3e11fa47:1-5''))"
    "GetServerUUID my0 = Inr ''3e11fa47''"
    "replicaStartRequired_of cfg0 my0"
    "recovery_steps my0 True (Some (Mysql56GTIDSet ''3e11fa47:1-30''))
        = [None, None, None, None, None, None, None]"
    "first_failure [None, None, None, None, None, None, None]
        (Some (Aggregate [Wrap (Foreign ''disk error'') ''cannot copy data'']))
      = Some (Aggregate [Wrap (Foreign ''disk error'') ''cannot copy data''])"
    "first_failure
        (recovery_steps my_replica_stuck True (Some (Mysql56GTIDSet ''3e11fa47:1-30''))) None
      = Some (Wrap (Foreign ''replica did not start'') ''replica is not restarting'')"
    by code_simp+
  have f: "returned_error (backupFiles cfg0 params_full env_copy_fails
        (Some (Mysql56GTIDSet ''3e11fa47:1-30'')) (Some (Mysql56GTIDSet ''3e11fa47:1-5''))
        None [] ''3e11fa47'') =
      Some (Some (Aggregate [Wrap (Foreign ''disk error'') ''cannot copy data'']))"
    "returned_error (backupFiles cfg0 params_full env0
        (Some (Mysql56GTIDSet ''3e11fa47:1-30'')) (Some (Mysql56GTIDSet ''3e11fa47:1-5''))
        None [] ''3e11fa47'') = Some None"
    by code_simp+
  from restart_after_shutdown [OF b a] restart_after_shutdown [OF b' a] a b b' c d e f
  show ?thesis by simp
qed

text \<open>
  C2 as stated has the first failure reported and \<open>mysqld\<close> never left shut down. In
  this run \<open>backupFiles\<close> fails first (no files found), then \<open>mysqld\<close> does not start:
  the error returned is that of the start, and \<open>mysqld\<close> is left shut down.
\<close>

theorem restart_error_counterexample:
  "executeFullBackup cfg0 my_no_restart env_no_files params_full =
     Returns (False, Some (Wrap (Foreign ''mysqld did not start'') ''can't restart mysqld''),
              [EvStopReplication None, EvShutdown WithTimeout None,
               EvStart Background (Some (Foreign ''mysqld did not start''))])
   \<and> shut_down [EvStopReplication None, EvShutdown WithTimeout None,
                 EvStart Background (Some (Foreign ''mysqld did not start''))]
   \<and> returned_error (backupFiles cfg0 params_full env_no_files
        (Some (Mysql56GTIDSet ''3e11fa47:1-30'')) (Some (Mysql56GTIDSet ''3e11fa47:1-5''))
        None [] ''3e11fa47'') =
      Some (Some (Wrap (Foreign ''read dir failed'') ''can't find files to backup''))"
  by code_simp

section \<open>Incremental backups\<close>

text \<open>Requests for an incremental backup: from a MariaDB position, from a text that is
  no position, and from the latest backup; the manifest and the events of the last
  one.\<close>

definition params_mariadb :: BackupParams where
  "params_mariadb = params_full\<lparr>IncrementalFromPos := ''MariaDB/0-1-2''\<rparr>"

definition params_garbage :: BackupParams where
  "params_garbage = params_full\<lparr>IncrementalFromPos := ''garbage''\<rparr>"

definition params_auto :: BackupParams where
  "params_auto = params_full\<lparr>IncrementalFromPos := ''auto''\<rparr>"

definition manifest_incremental :: builtinBackupManifest where
  "manifest_incremental =
     \<lparr>BackupMethod = ''builtin'',
      Position = Some (Mysql56GTIDSet ''3e11fa47:1-30''),
      PurgedPosition = None,
      FromPosition = Some (Mysql56GTIDSet ''3e11fa47:1-15''),
      Incremental = True, ServerUUID = ''3e11fa47'',
      bm_TabletAlias = ''zone1-100'', bm_Keyspace = ''ks'', bm_Shard = ''0'',
      bm_BackupTime = ''2023-03-01T00:00:00Z'', FinishedTime = ''2023-03-01T00:10:00Z'',
      CompressionEngine = ''pgzip'',
      FileEntries =
        [\<lparr>Base = ''BinLog'', Name = ''binlog.2'', Hash = ''cbf43926'', ParentPath = []\<rparr>,
         \<lparr>Base = ''BinLog'', Name = ''binlog.3'', Hash = ''cbf43926'', ParentPath = []\<rparr>],
      SkipCompress = False, ExternalDecompressor = []\<rparr>"

definition trace_incremental :: "event list" where
  "trace_incremental =
     [EvFlushBinaryLogs None, EvFoundFiles 2, EvFileTask (Ran 1 []), EvFileTask (Ran 0 []),
      EvManifestAddFile None, EvManifestWrite manifest_incremental None,
      EvManifestClose None]"

text \<open>A request from a position of the server the first binary log is of; its manifest
  and events.\<close>

definition params_from_old :: BackupParams where
  "params_from_old = params_full\<lparr>IncrementalFromPos := ''MySQL56/9f2c81d0:1-9''\<rparr>"

definition manifest_from_old :: builtinBackupManifest where
  "manifest_from_old =
     manifest_incremental
       \<lparr>FromPosition := Some (Mysql56GTIDSet ''9f2c81d0:1-7''),
        FileEntries :=
          [\<lparr>Base = ''BinLog'', Name = ''binlog.1'', Hash = ''cbf43926'', ParentPath = []\<rparr>,
           \<lparr>Base = ''BinLog'', Name = ''binlog.2'', Hash = ''cbf43926'', ParentPath = []\<rparr>,
           \<lparr>Base = ''BinLog'', Name = ''binlog.3'', Hash = ''cbf43926'', ParentPath = []\<rparr>]\<rparr>"

definition trace_from_old :: "event list" where
  "trace_from_old =
     [EvFlushBinaryLogs None, EvFoundFiles 3, EvFileTask (Ran 1 []), EvFileTask (Ran 0 []),
      EvFileTask (Ran 2 []), EvManifestAddFile None, EvManifestWrite manifest_from_old None,
      EvManifestClose None]"

text \<open>
  C6 (as the code has it). In an incremental backup that got the server UUID and the
  purged GTID set and resolved its from-position (the one of the caller, or with
  \<open>auto\<close> the encoded position of the latest successful backup): a from-position
  that \<open>DecodePosition\<close> does not decode is rejected with the error of the decoder,
  wrapped, so with the kind the decoder gave it; a from-position that decodes to a
  position of another flavor than MySQL56 is rejected with a failed-precondition
  error. In both cases the backup is not usable and nothing else has happened: no
  binary log was flushed and no file was copied.
\<close>

theorem incremental_from_position_rejected:
  assumes "GetServerUUID my = Inr uuid" and "getPurgedGTIDSet my = Inr purged"
    and "resolveIncrementalFromPos my params0 = Inr params"
  shows "case DecodePosition my (IncrementalFromPos params) of
           Inl e \<Rightarrow>
             executeIncrementalBackup cfg my env params0 =
               Returns (False, Some (Wrap e ''cannot decode position in incremental backup''), [])
         | Inr pos \<Rightarrow>
             if MatchesFlavor pos Mysql56FlavorID then True
             else executeIncrementalBackup cfg my env params0 =
                    Returns (False,
                      Some (Errorf FAILED_PRECONDITION
                              ''incremental backup only supports MySQL GTID positions''), [])"
  using assms
  by (simp add: executeIncrementalBackup_def getIncrementalFromPosGTIDSet_def
        split: sum.splits)

theorem incremental_from_position_rejected_witness:
  "GetServerUUID my0 = Inr ''3e11fa47'' \<and> getPurgedGTIDSet my0 = Inr ''3e11fa47:1-5''
   \<and> resolveIncrementalFromPos my0 params_mariadb = Inr params_mariadb
   \<and> DecodePosition my0 (IncrementalFromPos params_mariadb) = Inr (Some (MariadbGTIDSet ''0-1-2''))
   \<and> \<not> MatchesFlavor (Some (MariadbGTIDSet ''0-1-2'')) Mysql56FlavorID
   \<and> executeIncrementalBackup cfg0 my0 env0 params_mariadb =
        Returns (False,
          Some (Errorf FAILED_PRECONDITION
                  ''incremental backup only supports MySQL GTID positions''), [])"
proof -
  have a: "GetServerUUID my0 = Inr ''3e11fa47''" "getPurgedGTIDSet my0 = Inr ''3e11fa47:1-5''"
    "resolveIncrementalFromPos my0 params_mariadb = Inr params_mariadb"
    by code_simp+
  have b: "DecodePosition my0 (IncrementalFromPos params_mariadb)
             = Inr (Some (MariadbGTIDSet ''0-1-2''))"
    "\<not> MatchesFlavor (Some (MariadbGTIDSet ''0-1-2'')) Mysql56FlavorID"
    by code_simp+
  from incremental_from_position_rejected [OF a, of cfg0 env0] a b show ?thesis by simp
qed

text \<open>
  C6 as stated has every from-position that does not parse rejected with a
  failed-precondition error. \<open>DecodePosition\<close> is not under src/; for a decoder that
  reports a text without flavor as an internal error, the error returned for such a
  from-position is of the internal kind.
\<close>

theorem from_position_kind_counterexample:
  "executeIncrementalBackup cfg0 my0 env0 params_garbage =
     Returns (False,
       Some (Wrap (Errorf INTERNAL ''parse error: unknown GTIDSet flavor'')
               ''cannot decode position in incremental backup''), [])
   \<and> ErrCode (Wrap (Errorf INTERNAL ''parse error: unknown GTIDSet flavor'')
               ''cannot decode position in incremental backup'') = INTERNAL"
  by code_simp

text \<open>The cache of previous GTIDs holds only what \<open>GetPreviousGTIDs\<close> answers.\<close>

definition cache_ok :: "mysqldEnv \<Rightarrow> (string \<Rightarrow> string option) \<Rightarrow> bool" where
  "cache_ok my cache = (\<forall>b g. cache b = Some g \<longrightarrow> GetPreviousGTIDs my b = Inr g)"

lemma getBinlogPreviousGTIDs_ok:
  assumes "cache_ok my cache" and "getBinlogPreviousGTIDs my cache b = (r, cache')"
  shows "cache_ok my cache'" and "r = Inr g \<Longrightarrow> GetPreviousGTIDs my b = Inr g"
  using assms
  by (auto simp: cache_ok_def getBinlogPreviousGTIDs_def
        split: option.splits sum.splits if_splits)

lemma find_first_binlog_sound:
  assumes "cache_ok my cache"
    and "find_first_binlog my from purged cache fs = Inr (suffix, g)"
  shows "suffix \<noteq> [] \<and> GetPreviousGTIDs my (hd suffix) = Inr g"
  using assms
proof (induction fs arbitrary: cache)
  case Nil
  then show ?case by simp
next
  case (Cons f fs)
  obtain r cache' where step: "getBinlogPreviousGTIDs my cache f = (r, cache')"
    by (cases "getBinlogPreviousGTIDs my cache f")
  note ok = getBinlogPreviousGTIDs_ok [OF Cons.prems(1) step]
  show ?case
  proof (cases r)
    case (Inl e)
    with Cons.prems(2) step show ?thesis by simp
  next
    case (Inr gtids)
    show ?thesis
    proof (cases "previous_within my gtids purged from")
      case True
      with Cons.prems(2) step Inr ok(2) show ?thesis by auto
    next
      case False
      with Cons.prems(2) step Inr
      have "find_first_binlog my from purged cache' fs = Inr (suffix, g)" by simp
      from Cons.IH [OF ok(1) this] show ?thesis .
    qed
  qed
qed

lemma up_to_covering_hd:
  "fs \<noteq> [] \<Longrightarrow> up_to_covering c fs \<noteq> [] \<and> hd (up_to_covering c fs) = hd fs"
  by (cases fs) auto

lemma Choose_sound:
  assumes "ChooseBinlogsForIncrementalBackup my from purged binaryLogs = Inr (files, g, t)"
  shows "files \<noteq> [] \<and> GetPreviousGTIDs my (hd files) = Inr g \<and> t = server_position my"
proof -
  from assms obtain suffix where
    f: "find_first_binlog my from purged (\<lambda>_. None) binaryLogs = Inr (suffix, g)"
    and files: "files = up_to_covering (covers_server_position my) suffix"
    and t: "t = server_position my"
    by (auto simp: ChooseBinlogsForIncrementalBackup_def split: sum.splits)
  have "cache_ok my (\<lambda>_. None)" by (simp add: cache_ok_def)
  from find_first_binlog_sound [OF this f] up_to_covering_hd files t
  show ?thesis by auto
qed

lemma backupFile_saved:
  assumes "fst (backupFile cfg st) = None"
  shows "snd (backupFile cfg st) = Some (bf_HashString st)"
  using assms unfolding backupFile_def Let_def
  by (auto split: option.splits if_splits prod.splits)

lemma entries_after_all:
  assumes "\<And>i. i < length fes \<Longrightarrow> Ran i [] \<in> set evs"
    and "\<And>i. i < length fes \<Longrightarrow> backupFile_errors cfg (file_steps env i) = []"
  shows "entries_after cfg env evs fes =
           map (\<lambda>(i, fe). fe\<lparr>Hash := bf_HashString (file_steps env i)\<rparr>) (enumerate 0 fes)"
proof -
  have "\<And>i fe. (i, fe) \<in> set (enumerate 0 fes) \<Longrightarrow>
          (if Ran i (backupFile_errors cfg (file_steps env i)) \<in> set evs
            then (case snd (backupFile cfg (file_steps env i)) of
                    Some h \<Rightarrow> fe\<lparr>Hash := h\<rparr>
                  | None \<Rightarrow> fe)
            else fe) = fe\<lparr>Hash := bf_HashString (file_steps env i)\<rparr>"
  proof -
    fix i fe assume "(i, fe) \<in> set (enumerate 0 fes)"
    then have i: "i < length fes" by (auto simp: in_set_enumerate_eq)
    from assms(2) [OF i] have "fst (backupFile cfg (file_steps env i)) = None"
      by (auto simp: backupFile_errors_def split: option.splits)
    from backupFile_saved [OF this] assms(1) [OF i] assms(2) [OF i]
    show "(if Ran i (backupFile_errors cfg (file_steps env i)) \<in> set evs
            then (case snd (backupFile cfg (file_steps env i)) of
                    Some h \<Rightarrow> fe\<lparr>Hash := h\<rparr>
                  | None \<Rightarrow> fe)
            else fe) = fe\<lparr>Hash := bf_HashString (file_steps env i)\<rparr>"
      by simp
  qed
  then show ?thesis
    unfolding entries_after_def by (intro map_cong) auto
qed

lemma backupFiles_manifest_files:
  assumes "backupFiles cfg params env rp pp fp bl uuid = Returns (r, tr)"
    and "EvManifestWrite bm w \<in> set tr"
  shows "\<exists>fes. (if isIncrementalBackup params then binlogFilesToBackup env bl
                else findFilesToBackup env) = Inr fes
           \<and> EvFoundFiles (length fes) \<in> set tr
           \<and> list_all (\<lambda>i. EvFileTask (Ran i []) \<in> set tr) [0..<length fes]
           \<and> bm = makeManifest cfg params env rp pp fp uuid
                    (map (\<lambda>(i, fe). fe\<lparr>Hash := bf_HashString (file_steps env i)\<rparr>)
                       (enumerate 0 fes))"
proof -
  let ?files = "if isIncrementalBackup params then binlogFilesToBackup env bl
            else findFilesToBackup env"
  show ?thesis
  proof (cases ?files)
    case (Inl e)
    with assms show ?thesis by (auto simp: backupFiles_def)
  next
    case (Inr fes)
    let ?run = "run_tasks (Concurrency params) (acquire env) (ctx_done env)
                 (\<lambda>i. backupFile_errors cfg (file_steps env i))
                 (length fes) (bh_errors env) (schedule env)"
    from assms Inr obtain p where run: "?run = Returns p"
      by (cases ?run) (simp_all add: backupFiles_def)
    show ?thesis
    proof (cases "recorded p = []")
      case False
      with assms Inr run show ?thesis
        by (auto simp: backupFiles_def Let_def HasErrors_def)
    next
      case True
      note ran = run_tasks_all_ran [OF run True]
      have ea: "entries_after cfg env (tlog p) fes =
           map (\<lambda>(i, fe). fe\<lparr>Hash := bf_HashString (file_steps env i)\<rparr>) (enumerate 0 fes)"
        by (rule entries_after_all) (use ran in auto)
      show ?thesis
      proof (cases "manifest_AddFile env")
        case (Some x)
        with assms Inr run True show ?thesis
          by (auto simp: backupFiles_def Let_def HasErrors_def)
      next
        case None
        let ?bm = "makeManifest cfg params env rp pp fp uuid (entries_after cfg env (tlog p) fes)"
        obtain finalErr written where fw:
          "(case manifest_MarshalIndent env of
                 Some e \<Rightarrow> (Some (Wrap e ''cannot JSON encode MANIFEST''), [])
               | None \<Rightarrow>
                  (case manifest_Write env of
                     Some e \<Rightarrow> (Some (Wrap e ''cannot write MANIFEST''),
                                [EvManifestWrite ?bm (Some e)])
                   | None \<Rightarrow> (None, [EvManifestWrite ?bm None]))) = (finalErr, written)"
          by (cases "(case manifest_MarshalIndent env of
                 Some e \<Rightarrow> (Some (Wrap e ''cannot JSON encode MANIFEST''), [])
               | None \<Rightarrow>
                  (case manifest_Write env of
                     Some e \<Rightarrow> (Some (Wrap e ''cannot write MANIFEST''),
                                [EvManifestWrite ?bm (Some e)])
                   | None \<Rightarrow> (None, [EvManifestWrite ?bm None])))") auto
        then have wr: "written = [] \<or> (\<exists>x. written = [EvManifestWrite ?bm x])"
          by (auto split: option.splits)
        from assms(1) Inr run True None fw
        have tr: "tr = EvFoundFiles (length fes) # map EvFileTask (tlog p)
                     @ [EvManifestAddFile None] @ written
                     @ [EvManifestClose (manifest_Close env)]"
          by (simp add: backupFiles_def Let_def HasErrors_def)
        with assms(2) wr have bm: "bm = ?bm" by auto
        have found: "EvFoundFiles (length fes) \<in> set tr" using tr by simp
        have tasks: "list_all (\<lambda>i. EvFileTask (Ran i []) \<in> set tr) [0..<length fes]"
          using ran(1) tr by (auto simp: list_all_iff)
        from Inr found tasks bm ea show ?thesis by simp
      qed
    qed
  qed
qed

lemma find_first_binlog_first:
  assumes "cache_ok my cache"
    and "find_first_binlog my from purged cache fs = Inr (suffix, g)"
  shows "suffix = dropWhile (\<lambda>f. case GetPreviousGTIDs my f of
                                    Inl x \<Rightarrow> False
                                  | Inr gtids \<Rightarrow> \<not> previous_within my gtids purged from) fs
         \<and> previous_within my g purged from"
  using assms
proof (induction fs arbitrary: cache)
  case Nil
  then show ?case by simp
next
  case (Cons f fs)
  obtain r cache' where step: "getBinlogPreviousGTIDs my cache f = (r, cache')"
    by (cases "getBinlogPreviousGTIDs my cache f")
  note ok = getBinlogPreviousGTIDs_ok [OF Cons.prems(1) step]
  show ?case
  proof (cases r)
    case (Inl e)
    with Cons.prems(2) step show ?thesis by simp
  next
    case (Inr gtids)
    from ok(2) [OF Inr] have prev: "GetPreviousGTIDs my f = Inr gtids" .
    show ?thesis
    proof (cases "previous_within my gtids purged from")
      case True
      with Cons.prems(2) step Inr prev show ?thesis by auto
    next
      case False
      with Cons.prems(2) step Inr
      have "find_first_binlog my from purged cache' fs = Inr (suffix, g)" by simp
      from Cons.IH [OF ok(1) this] prev False show ?thesis by simp
    qed
  qed
qed

lemma Choose_first:
  assumes "ChooseBinlogsForIncrementalBackup my from purged binaryLogs = Inr (files, g, t)"
  shows "files = up_to_covering (covers_server_position my)
                   (dropWhile (\<lambda>f. case GetPreviousGTIDs my f of
                                      Inl x \<Rightarrow> False
                                    | Inr gtids \<Rightarrow> \<not> previous_within my gtids purged from)
                      binaryLogs)
         \<and> previous_within my g purged from"
proof -
  from assms obtain suffix where
    f: "find_first_binlog my from purged (\<lambda>_. None) binaryLogs = Inr (suffix, g)"
    and files: "files = up_to_covering (covers_server_position my) suffix"
    by (auto simp: ChooseBinlogsForIncrementalBackup_def split: sum.splits)
  have "cache_ok my (\<lambda>_. None)" by (simp add: cache_ok_def)
  from find_first_binlog_first [OF this f] files show ?thesis by simp
qed

lemma executeIncrementalBackup_success:
  assumes "executeIncrementalBackup cfg my env params0 = Returns (True, e, tr)"
  shows "\<exists>uuid purged params from binaryLogs files fromGTID toGTID fromPos toPos btr.
           resolveIncrementalFromPos my params0 = Inr params
           \<and> getIncrementalFromPosGTIDSet my (IncrementalFromPos params) = Inr from
           \<and> getPurgedGTIDSet my = Inr purged
           \<and> GetBinaryLogs my = Inr binaryLogs
           \<and> ChooseBinlogsForIncrementalBackup my from purged binaryLogs
                = Inr (files, fromGTID, toGTID)
           \<and> ParsePosition my Mysql56FlavorID fromGTID = Inr fromPos
           \<and> ParsePosition my Mysql56FlavorID toGTID = Inr toPos
           \<and> backupFiles cfg params env toPos None fromPos files uuid = Returns (None, btr)
           \<and> tr = EvFlushBinaryLogs None # btr"
  using assms unfolding executeIncrementalBackup_def
  by (auto split: sum.splits option.splits prod.splits outcome.splits)

text \<open>
  C7. In an incremental backup that succeeded, for the manifest written. The request
  is resolved (\<open>resolveIncrementalFromPos\<close>) and decoded
  (\<open>getIncrementalFromPosGTIDSet\<close>) to the from-position asked for, the purged GTID
  set is read (\<open>getPurgedGTIDSet\<close>), and \<open>ChooseBinlogsForIncrementalBackup\<close> chooses
  from the binary logs of the server, for this from-position and this purged set. The
  logs chosen are not empty; they are the binary logs from the earliest one whose
  previous GTIDs, without the purged ones, are within the from-position asked for, up to
  the one that covers the server position. The from-position of the manifest is the
  parsed previous GTIDs of the first log chosen (within the from-position asked for, so
  the same or earlier), its position is the parsed server position the choice returned,
  and its incremental flag is set exactly when its from-position is not the zero
  position. The files \<open>backupFiles\<close> found are those of the logs chosen
  (\<open>binlogFilesToBackup\<close>; it asks \<open>findFilesToBackup\<close> instead when the resolved
  request is the empty text, with which \<open>ExecuteBackup\<close> does not come here), every one
  of them was copied without error, and the file entries of the manifest are these
  files, each with the hash of its copy.
\<close>

theorem incremental_manifest_positions:
  assumes "executeIncrementalBackup cfg my env params0 = Returns (True, e, tr)"
    and "EvManifestWrite bm w \<in> set tr"
  shows "case resolveIncrementalFromPos my params0 of
           Inl x \<Rightarrow> False
         | Inr params \<Rightarrow>
        (case getIncrementalFromPosGTIDSet my (IncrementalFromPos params) of
           Inl x \<Rightarrow> False
         | Inr backupFromGTIDSet \<Rightarrow>
        (case getPurgedGTIDSet my of
           Inl x \<Rightarrow> False
         | Inr purgedGTIDSet \<Rightarrow>
        (case GetBinaryLogs my of
           Inl x \<Rightarrow> False
         | Inr binaryLogs \<Rightarrow>
        (case ChooseBinlogsForIncrementalBackup my backupFromGTIDSet purgedGTIDSet
                binaryLogs of
           Inl x \<Rightarrow> False
         | Inr (binaryLogsToBackup, fromGTID, toGTID) \<Rightarrow>
             binaryLogsToBackup \<noteq> []
             \<and> binaryLogsToBackup =
                 up_to_covering (covers_server_position my)
                   (dropWhile (\<lambda>f. case GetPreviousGTIDs my f of
                                      Inl x \<Rightarrow> False
                                    | Inr gtids \<Rightarrow>
                                        \<not> previous_within my gtids purgedGTIDSet
                                            backupFromGTIDSet)
                      binaryLogs)
             \<and> GetPreviousGTIDs my (hd binaryLogsToBackup) = Inr fromGTID
             \<and> previous_within my fromGTID purgedGTIDSet backupFromGTIDSet
             \<and> toGTID = server_position my
             \<and> ParsePosition my Mysql56FlavorID fromGTID = Inr (FromPosition bm)
             \<and> ParsePosition my Mysql56FlavorID toGTID = Inr (Position bm)
             \<and> Incremental bm = (\<not> IsZero (FromPosition bm))
             \<and> (case (if isIncrementalBackup params
                       then binlogFilesToBackup env binaryLogsToBackup
                       else findFilesToBackup env) of
                   Inl x \<Rightarrow> False
                 | Inr fes \<Rightarrow>
                     EvFoundFiles (length fes) \<in> set tr
                     \<and> list_all (\<lambda>i. EvFileTask (Ran i []) \<in> set tr) [0..<length fes]
                     \<and> FileEntries bm =
                         map (\<lambda>(i, fe). fe\<lparr>Hash := bf_HashString (file_steps env i)\<rparr>)
                           (enumerate 0 fes))))))"
proof -
  from executeIncrementalBackup_success [OF assms(1)]
  obtain uuid purged params "from" binaryLogs files fromGTID toGTID fromPos toPos btr where
    s: "resolveIncrementalFromPos my params0 = Inr params"
       "getIncrementalFromPosGTIDSet my (IncrementalFromPos params) = Inr from"
       "getPurgedGTIDSet my = Inr purged"
       "GetBinaryLogs my = Inr binaryLogs"
       "ChooseBinlogsForIncrementalBackup my from purged binaryLogs
                = Inr (files, fromGTID, toGTID)"
       "ParsePosition my Mysql56FlavorID fromGTID = Inr fromPos"
       "ParsePosition my Mysql56FlavorID toGTID = Inr toPos"
       "backupFiles cfg params env toPos None fromPos files uuid = Returns (None, btr)"
       "tr = EvFlushBinaryLogs None # btr"
    by blast
  from assms(2) s(9) have w: "EvManifestWrite bm w \<in> set btr" by simp
  from backupFiles_manifest_files [OF s(8) w] obtain fes where
    fes: "(if isIncrementalBackup params then binlogFilesToBackup env files
           else findFilesToBackup env) = Inr fes"
      "EvFoundFiles (length fes) \<in> set btr"
      "list_all (\<lambda>i. EvFileTask (Ran i []) \<in> set btr) [0..<length fes]"
      "bm = makeManifest cfg params env toPos None fromPos uuid
              (map (\<lambda>(i, fe). fe\<lparr>Hash := bf_HashString (file_steps env i)\<rparr>)
                 (enumerate 0 fes))"
    by blast
  have m: "Position bm = toPos" "FromPosition bm = fromPos"
    "Incremental bm = (\<not> IsZero (FromPosition bm))"
    "FileEntries bm = map (\<lambda>(i, fe). fe\<lparr>Hash := bf_HashString (file_steps env i)\<rparr>)
                 (enumerate 0 fes)"
    using fes(4) by (simp_all add: makeManifest_def)
  have t: "EvFoundFiles (length fes) \<in> set tr"
    "list_all (\<lambda>i. EvFileTask (Ran i []) \<in> set tr) [0..<length fes]"
    using fes(2,3) s(9) by (auto simp: list_all_iff)
  note c = Choose_sound [OF s(5)] Choose_first [OF s(5)]
  have files: "(case (if isIncrementalBackup params
                       then binlogFilesToBackup env files
                       else findFilesToBackup env) of
                   Inl x \<Rightarrow> False
                 | Inr fes \<Rightarrow>
                     EvFoundFiles (length fes) \<in> set tr
                     \<and> list_all (\<lambda>i. EvFileTask (Ran i []) \<in> set tr) [0..<length fes]
                     \<and> FileEntries bm =
                         map (\<lambda>(i, fe). fe\<lparr>Hash := bf_HashString (file_steps env i)\<rparr>)
                           (enumerate 0 fes))"
    unfolding fes(1) using t m(4) by simp
  from c s(6,7) m(1,2,3) files
  have body: "files \<noteq> []
             \<and> files =
                 up_to_covering (covers_server_position my)
                   (dropWhile (\<lambda>f. case GetPreviousGTIDs my f of
                                      Inl x \<Rightarrow> False
                                    | Inr gtids \<Rightarrow>
                                        \<not> previous_within my gtids purged from)
                      binaryLogs)
             \<and> GetPreviousGTIDs my (hd files) = Inr fromGTID
             \<and> previous_within my fromGTID purged from
             \<and> toGTID = server_position my
             \<and> ParsePosition my Mysql56FlavorID fromGTID = Inr (FromPosition bm)
             \<and> ParsePosition my Mysql56FlavorID toGTID = Inr (Position bm)
             \<and> Incremental bm = (\<not> IsZero (FromPosition bm))
             \<and> (case (if isIncrementalBackup params
                       then binlogFilesToBackup env files
                       else findFilesToBackup env) of
                   Inl x \<Rightarrow> False
                 | Inr fes \<Rightarrow>
                     EvFoundFiles (length fes) \<in> set tr
                     \<and> list_all (\<lambda>i. EvFileTask (Ran i []) \<in> set tr) [0..<length fes]
                     \<and> FileEntries bm =
                         map (\<lambda>(i, fe). fe\<lparr>Hash := bf_HashString (file_steps env i)\<rparr>)
                           (enumerate 0 fes))"
    by blast
  show ?thesis
    unfolding s(1) s(2) s(3) s(4) s(5) sum.case prod.case by (rule body)
qed

theorem incremental_manifest_positions_witness:
  "executeIncrementalBackup cfg0 my0 env0 params_auto = Returns (True, None, trace_incremental)
   \<and> EvManifestWrite manifest_incremental None \<in> set trace_incremental
   \<and> resolveIncrementalFromPos my0 params_auto
        = Inr (params_full\<lparr>IncrementalFromPos := ''MySQL56/3e11fa47:1-20''\<rparr>)
   \<and> getIncrementalFromPosGTIDSet my0 ''MySQL56/3e11fa47:1-20'' = Inr ''3e11fa47:1-20''
   \<and> getPurgedGTIDSet my0 = Inr ''3e11fa47:1-5''
   \<and> GetBinaryLogs my0 = Inr [''binlog.1'', ''binlog.2'', ''binlog.3'', ''binlog.4'']
   \<and> ChooseBinlogsForIncrementalBackup my0 ''3e11fa47:1-20'' ''3e11fa47:1-5''
        [''binlog.1'', ''binlog.2'', ''binlog.3'', ''binlog.4'']
        = Inr ([''binlog.2'', ''binlog.3''], ''3e11fa47:1-15'', ''3e11fa47:1-30'')
   \<and> GetPreviousGTIDs my0 ''binlog.1'' = Inr ''9f2c81d0:1-7''
   \<and> \<not> previous_within my0 ''9f2c81d0:1-7'' ''3e11fa47:1-5'' ''3e11fa47:1-20''
   \<and> GetPreviousGTIDs my0 ''binlog.2'' = Inr ''3e11fa47:1-15''
   \<and> previous_within my0 ''3e11fa47:1-15'' ''3e11fa47:1-5'' ''3e11fa47:1-20''
   \<and> server_position my0 = ''3e11fa47:1-30''
   \<and> FromPosition manifest_incremental = Some (Mysql56GTIDSet ''3e11fa47:1-15'')
   \<and> Position manifest_incremental = Some (Mysql56GTIDSet ''3e11fa47:1-30'')
   \<and> Incremental manifest_incremental
   \<and> binlogFilesToBackup env0 [''binlog.2'', ''binlog.3'']
        = Inr [binlog_entry ''binlog.2'', binlog_entry ''binlog.3'']
   \<and> EvFoundFiles 2 \<in> set trace_incremental
   \<and> EvFileTask (Ran 0 []) \<in> set trace_incremental
   \<and> EvFileTask (Ran 1 []) \<in> set trace_incremental
   \<and> FileEntries manifest_incremental
        = [(binlog_entry ''binlog.2'')\<lparr>Hash := ''cbf43926''\<rparr>,
           (binlog_entry ''binlog.3'')\<lparr>Hash := ''cbf43926''\<rparr>]
   \<and> executeIncrementalBackup cfg0 my0 env0 params_from_old
        = Returns (True, None, trace_from_old)
   \<and> EvManifestWrite manifest_from_old None \<in> set trace_from_old
   \<and> resolveIncrementalFromPos my0 params_from_old = Inr params_from_old
   \<and> getIncrementalFromPosGTIDSet my0 (IncrementalFromPos params_from_old)
        = Inr ''9f2c81d0:1-9''
   \<and> ChooseBinlogsForIncrementalBackup my0 ''9f2c81d0:1-9'' ''3e11fa47:1-5''
        [''binlog.1'', ''binlog.2'', ''binlog.3'', ''binlog.4'']
        = Inr ([''binlog.1'', ''binlog.2'', ''binlog.3''], ''9f2c81d0:1-7'', ''3e11fa47:1-30'')
   \<and> FromPosition manifest_from_old = Some (Mysql56GTIDSet ''9f2c81d0:1-7'')
   \<and> Position manifest_from_old = Some (Mysql56GTIDSet ''3e11fa47:1-30'')
   \<and> map Name (FileEntries manifest_from_old) = [''binlog.1'', ''binlog.2'', ''binlog.3'']"
proof -
  have a: "executeIncrementalBackup cfg0 my0 env0 params_auto
             = Returns (True, None, trace_incremental)"
    by code_simp
  have b: "EvManifestWrite manifest_incremental None \<in> set trace_incremental"
    by (simp add: trace_incremental_def)
  have a': "executeIncrementalBackup cfg0 my0 env0 params_from_old
             = Returns (True, None, trace_from_old)"
    by code_simp
  have b': "EvManifestWrite manifest_from_old None \<in> set trace_from_old"
    by (simp add: trace_from_old_def)
  have c: "resolveIncrementalFromPos my0 params_auto
        = Inr (params_full\<lparr>IncrementalFromPos := ''MySQL56/3e11fa47:1-20''\<rparr>)"
    "getIncrementalFromPosGTIDSet my0 ''MySQL56/3e11fa47:1-20'' = Inr ''3e11fa47:1-20''"
    "getPurgedGTIDSet my0 = Inr ''3e11fa47:1-5''"
    "GetBinaryLogs my0 = Inr [''binlog.1'', ''binlog.2'', ''binlog.3'', ''binlog.4'']"
    "ChooseBinlogsForIncrementalBackup my0 ''3e11fa47:1-20'' ''3e11fa47:1-5''
        [''binlog.1'', ''binlog.2'', ''binlog.3'', ''binlog.4'']
        = Inr ([''binlog.2'', ''binlog.3''], ''3e11fa47:1-15'', ''3e11fa47:1-30'')"
    "GetPreviousGTIDs my0 ''binlog.1'' = Inr ''9f2c81d0:1-7''"
    "\<not> previous_within my0 ''9f2c81d0:1-7'' ''3e11fa47:1-5'' ''3e11fa47:1-20''"
    "GetPreviousGTIDs my0 ''binlog.2'' = Inr ''3e11fa47:1-15''"
    "previous_within my0 ''3e11fa47:1-15'' ''3e11fa47:1-5'' ''3e11fa47:1-20''"
    "server_position my0 = ''3e11fa47:1-30''"
    by code_simp+
  have d: "FromPosition manifest_incremental = Some (Mysql56GTIDSet ''3e11fa47:1-15'')"
    "Position manifest_incremental = Some (Mysql56GTIDSet ''3e11fa47:1-30'')"
    "Incremental manifest_incremental"
    "binlogFilesToBackup env0 [''binlog.2'', ''binlog.3'']
        = Inr [binlog_entry ''binlog.2'', binlog_entry ''binlog.3'']"
    "EvFoundFiles 2 \<in> set trace_incremental"
    "EvFileTask (Ran 0 []) \<in> set trace_incremental"
    "EvFileTask (Ran 1 []) \<in> set trace_incremental"
    "FileEntries manifest_incremental
        = [(binlog_entry ''binlog.2'')\<lparr>Hash := ''cbf43926''\<rparr>,
           (binlog_entry ''binlog.3'')\<lparr>Hash := ''cbf43926''\<rparr>]"
    by code_simp+
  have e: "resolveIncrementalFromPos my0 params_from_old = Inr params_from_old"
    "getIncrementalFromPosGTIDSet my0 (IncrementalFromPos params_from_old)
        = Inr ''9f2c81d0:1-9''"
    "ChooseBinlogsForIncrementalBackup my0 ''9f2c81d0:1-9'' ''3e11fa47:1-5''
        [''binlog.1'', ''binlog.2'', ''binlog.3'', ''binlog.4'']
        = Inr ([''binlog.1'', ''binlog.2'', ''binlog.3''], ''9f2c81d0:1-7'', ''3e11fa47:1-30'')"
    "FromPosition manifest_from_old = Some (Mysql56GTIDSet ''9f2c81d0:1-7'')"
    "Position manifest_from_old = Some (Mysql56GTIDSet ''3e11fa47:1-30'')"
    "map Name (FileEntries manifest_from_old) = [''binlog.1'', ''binlog.2'', ''binlog.3'']"
    by code_simp+
  from incremental_manifest_positions [OF a b] incremental_manifest_positions [OF a' b']
    a b a' b' c d e
  show ?thesis by simp
qed

section \<open>Restore\<close>

text \<open>
  Modelled from the spec: the names of the compression engines (4.C) and of the base
  roots of a file entry (3), constants of files that are not under src/; and the
  sentinel error \<open>errUnsupportedDeCompressionEngine\<close>.
\<close>

definition PgzipCompressor :: string where "PgzipCompressor = ''pgzip''"
definition PargzipCompressor :: string where "PargzipCompressor = ''pargzip''"
definition ExternalCompressor :: string where "ExternalCompressor = ''external''"

definition backupInnodbDataHomeDir :: string where "backupInnodbDataHomeDir = ''InnoDBData''"
definition backupInnodbLogGroupHomeDir :: string where "backupInnodbLogGroupHomeDir = ''InnoDBLog''"
definition backupData :: string where "backupData = ''Data''"
definition backupBinlogDir :: string where "backupBinlogDir = ''BinLog''"

definition errUnsupportedDeCompressionEngine :: error where
  "errUnsupportedDeCompressionEngine = Foreign ''unsupported engine in MANIFEST''"

record Mycnf =
  InnodbDataHomeDir :: string
  InnodbLogGroupHomeDir :: string
  DataDir :: string
  BinLogPath :: string

text \<open>
  Paths, as the standard library of Go has them. \<open>path.Clean\<close> makes one slash of
  several, drops the elements \<open>.\<close> and the empty ones, drops an element together with
  the \<open>..\<close> after it, drops the \<open>..\<close> at the start of a rooted path, and gives \<open>.\<close>
  for an empty result. \<open>path.Join\<close> of elements that are all empty is the empty
  string and otherwise the cleaned join, by a slash, of those that are not empty.
  \<open>filepath.Dir\<close> cleans the path up to and including its last slash.
\<close>

fun split_slash :: "string \<Rightarrow> string \<Rightarrow> string list" where
  "split_slash acc [] = [rev acc]"
| "split_slash acc (c # cs) =
     (if c = CHR ''/'' then rev acc # split_slash [] cs else split_slash (c # acc) cs)"

fun join_slash :: "string list \<Rightarrow> string" where
  "join_slash [] = []"
| "join_slash [e] = e"
| "join_slash (e # es) = e @ ''/'' @ join_slash es"

fun clean_elems :: "bool \<Rightarrow> string list \<Rightarrow> string list \<Rightarrow> string list" where
  "clean_elems rooted out [] = rev out"
| "clean_elems rooted out (e # es) =
     (if e = [] \<or> e = ''.'' then clean_elems rooted out es
      else if e = ''..''
      then (case out of
              [] \<Rightarrow> if rooted then clean_elems rooted [] es
                    else clean_elems rooted [''..''] es
            | x # xs \<Rightarrow> if x = ''..'' then clean_elems rooted (''..'' # out) es
                        else clean_elems rooted xs es)
      else clean_elems rooted (e # out) es)"

definition path_Clean :: "string \<Rightarrow> string" where
  "path_Clean p =
     (if p = [] then ''.''
      else let rooted = (hd p = CHR ''/'');
               body = join_slash (clean_elems rooted [] (split_slash [] p))
           in if rooted then CHR ''/'' # body
              else if body = [] then ''.'' else body)"

definition path_Join :: "string list \<Rightarrow> string" where
  "path_Join parts =
     (if filter (\<lambda>a. a \<noteq> []) parts = [] then []
      else path_Clean (join_slash (filter (\<lambda>a. a \<noteq> []) parts)))"

definition filepath_Dir :: "string \<Rightarrow> string" where
  "filepath_Dir f = path_Clean (rev (dropWhile (\<lambda>c. c \<noteq> CHR ''/'') (rev f)))"

definition fullPath :: "Mycnf \<Rightarrow> FileEntry \<Rightarrow> error + string" where
  "fullPath cnf fe =
     (if Base fe = backupInnodbDataHomeDir
        then Inr (path_Join [ParentPath fe, InnodbDataHomeDir cnf, Name fe])
      else if Base fe = backupInnodbLogGroupHomeDir
        then Inr (path_Join [ParentPath fe, InnodbLogGroupHomeDir cnf, Name fe])
      else if Base fe = backupData
        then Inr (path_Join [ParentPath fe, DataDir cnf, Name fe])
      else if Base fe = backupBinlogDir
        then Inr (path_Join [ParentPath fe, filepath_Dir (BinLogPath cnf), Name fe])
      else Inl (Errorf UNKNOWN ''unknown base''))"

text \<open>What the steps of \<open>restoreFile\<close> give for one file; \<open>rf_HashString\<close> is the hash
  of the bytes read from the backup storage.\<close>

record restoreFileSteps =
  rf_ReadFile :: "error option"
  rf_MkdirAll :: "error option"
  rf_Create :: "error option"
  rf_newExternalDecompressor :: "string \<Rightarrow> error option"
  rf_newBuiltinDecompressor :: "string \<Rightarrow> error option"
  rf_Copy :: "error option"
  rf_HashString :: string
  rf_Flush :: "error option"
  rf_decompressor_Close :: "error option"
  rf_dest_Close :: "error option"

datatype decompressor = ExternalDecompressorCmdOf string | BuiltinDecompressorOf string

text \<open>
  The choice of the decompressor in \<open>restoreFile\<close>, for a manifest that was not taken
  with \<open>SkipCompress\<close>: which constructor is called with which argument, or \<open>None\<close>
  where the code returns the error that the engine is not supported.
\<close>

definition chooseDecompressor :: "settings \<Rightarrow> builtinBackupManifest \<Rightarrow> decompressor option" where
  "chooseDecompressor cfg bm =
     (let deCompressionEngine =
            (if CompressionEngine bm = [] then PgzipCompressor else CompressionEngine bm);
          externalDecompressorCmd =
            (if ExternalDecompressorCmd cfg = [] \<and> ExternalDecompressor bm \<noteq> []
             then ExternalDecompressor bm else ExternalDecompressorCmd cfg)
      in if externalDecompressorCmd \<noteq> []
         then (if deCompressionEngine = ExternalCompressor
               then Some (ExternalDecompressorCmdOf externalDecompressorCmd)
               else Some (BuiltinDecompressorOf deCompressionEngine))
         else (if deCompressionEngine = ExternalCompressor then None
               else Some (BuiltinDecompressorOf deCompressionEngine)))"

text \<open>\<open>fe.open(cnf, false)\<close>, the opening of the destination.\<close>

definition open_destination :: "Mycnf \<Rightarrow> restoreFileSteps \<Rightarrow> FileEntry \<Rightarrow> error option" where
  "open_destination cnf st fe =
     (case fullPath cnf fe of
        Inl e \<Rightarrow> Some (Wrap e ''cannot evaluate full name'')
      | Inr name \<Rightarrow>
          (case rf_MkdirAll st of
             Some e \<Rightarrow> Some (Wrap e ''cannot create destination directory'')
           | None \<Rightarrow>
               (case rf_Create st of
                  Some e \<Rightarrow> Some (Wrap e ''cannot create destination file'')
                | None \<Rightarrow> None)))"

text \<open>
  \<open>restoreFile\<close> returns its error and the decompressor it called for. The deferred
  closes of the decompressor and of the destination run in this order once they were
  opened; the error of a close is returned only when there is no other.
\<close>

definition restoreFile ::
  "settings \<Rightarrow> Mycnf \<Rightarrow> restoreFileSteps \<Rightarrow> FileEntry \<Rightarrow> builtinBackupManifest
     \<Rightarrow> error option \<times> decompressor option" where
  "restoreFile cfg cnf st fe bm =
     (case rf_ReadFile st of
        Some e \<Rightarrow> (Some (Wrap e ''can't open source file for reading''), None)
      | None \<Rightarrow>
     (case open_destination cnf st fe of
        Some e \<Rightarrow> (Some (Wrap e ''can't open destination file for writing''), None)
      | None \<Rightarrow>
         (let rest = (\<lambda>u::unit.
                case rf_Copy st of
                  Some e \<Rightarrow> Some (Wrap e ''failed to copy file contents'')
                | None \<Rightarrow>
                    if rf_HashString st \<noteq> Hash fe
                    then Some (Errorf INTERNAL ''hash mismatch'')
                    else (case rf_Flush st of
                            Some e \<Rightarrow> Some (Wrap e ''failed to flush destination buffer'')
                          | None \<Rightarrow> None));
              close_decompressor = (\<lambda>finalErr.
                case rf_decompressor_Close st of
                  Some cerr \<Rightarrow>
                    if finalErr \<noteq> None then finalErr
                    else Some (Wrap cerr ''failed to close decompressor'')
                | None \<Rightarrow> finalErr);
              close_dest = (\<lambda>finalErr.
                case rf_dest_Close st of
                  Some cerr \<Rightarrow>
                    if finalErr \<noteq> None then finalErr
                    else Some (Wrap cerr ''failed to close destination file'')
                | None \<Rightarrow> finalErr)
          in if SkipCompress bm then (close_dest (rest ()), None)
             else
               (case chooseDecompressor cfg bm of
                  None \<Rightarrow>
                    (close_dest (Some (Wrap errUnsupportedDeCompressionEngine
                                         ''value: external'')), None)
                | Some d \<Rightarrow>
                    (case (case d of
                             ExternalDecompressorCmdOf cmd \<Rightarrow> rf_newExternalDecompressor st cmd
                           | BuiltinDecompressorOf engine \<Rightarrow> rf_newBuiltinDecompressor st engine) of
                       Some e \<Rightarrow> (close_dest (Some (Wrap e ''can't create decompressor'')), Some d)
                     | None \<Rightarrow> (close_dest (close_decompressor (rest ())), Some d))))))"

text \<open>
  What the restore finds around it, and what happens during a restore. The recorder of
  \<open>restoreFiles\<close> is a new \<open>concurrency.AllErrorRecorder\<close>.
\<close>

record restoreEnv =
  getBackupManifestInto :: "error + builtinBackupManifest"
  createStateFile :: "error option"
  prepareToRestore :: "error option"
  MkdirTemp :: "error + string"
  r_Concurrency :: int
  r_acquire :: "nat \<Rightarrow> error option"
  r_ctx_done :: "nat \<Rightarrow> bool"
  r_schedule :: "nat list"
  restore_steps :: "nat \<Rightarrow> restoreFileSteps"
  is_Mysqld :: bool
  ApplyBinlogFile :: "string \<Rightarrow> error option"

datatype restore_event =
    RvCreateStateFile
  | RvRestoreTask task_event
  | RvApplyBinlogFile string "error option"
  | RvRemove string
  | RvRemoveAll string

text \<open>The errors the task of file \<open>i\<close> records: the error of \<open>restoreFile\<close>,
  wrapped.\<close>

definition restoreFile_errors ::
  "settings \<Rightarrow> Mycnf \<Rightarrow> restoreEnv \<Rightarrow> builtinBackupManifest \<Rightarrow> string \<Rightarrow> nat \<Rightarrow> error list" where
  "restoreFile_errors cfg cnf env bm createdDir i =
     (case fst (restoreFile cfg cnf (restore_steps env i)
                  ((FileEntries bm ! i)\<lparr>ParentPath := createdDir\<rparr>) bm) of
        None \<Rightarrow> []
      | Some e \<Rightarrow> [Wrap e ''can't restore file''])"

text \<open>The manifest as \<open>restoreFiles\<close> reads it (\<open>pargzip\<close> is read as \<open>pgzip\<close>), and
  the directory it restores into: a new temporary one for an incremental backup, and
  none for a full one.\<close>

definition manifest_read :: "builtinBackupManifest \<Rightarrow> builtinBackupManifest" where
  "manifest_read bm =
     (if CompressionEngine bm = PargzipCompressor
      then bm\<lparr>CompressionEngine := PgzipCompressor\<rparr> else bm)"

definition restore_dir :: "restoreEnv \<Rightarrow> builtinBackupManifest \<Rightarrow> error + string" where
  "restore_dir env bm = (if Incremental bm then MkdirTemp env else Inr [])"

text \<open>\<open>restoreFiles\<close> returns the directory it created, its error, and what
  happened.\<close>

definition restoreFiles ::
  "settings \<Rightarrow> Mycnf \<Rightarrow> restoreEnv \<Rightarrow> builtinBackupManifest
     \<Rightarrow> (string \<times> error option \<times> restore_event list) outcome" where
  "restoreFiles cfg cnf env bm0 =
     (let bm = manifest_read bm0
      in case restore_dir env bm of
           Inl e \<Rightarrow> Returns ([], Some e, [])
         | Inr createdDir \<Rightarrow>
             (case run_tasks (r_Concurrency env) (r_acquire env) (r_ctx_done env)
                     (restoreFile_errors cfg cnf env bm createdDir)
                     (length (FileEntries bm)) [] (r_schedule env) of
                Panics \<Rightarrow> Panics
              | NeverReturns \<Rightarrow> NeverReturns
              | Returns p \<Rightarrow>
                  Returns (createdDir, recorder_Error (recorded p),
                           map RvRestoreTask (tlog p))))"

definition executeRestoreFullBackup ::
  "settings \<Rightarrow> Mycnf \<Rightarrow> restoreEnv \<Rightarrow> builtinBackupManifest
     \<Rightarrow> (error option \<times> restore_event list) outcome" where
  "executeRestoreFullBackup cfg cnf env bm =
     (case prepareToRestore env of
        Some e \<Rightarrow> Returns (Some e, [])
      | None \<Rightarrow>
          (case restoreFiles cfg cnf env bm of
             Panics \<Rightarrow> Panics
           | NeverReturns \<Rightarrow> NeverReturns
           | Returns (createdDir, Some e, tr) \<Rightarrow>
               Returns (Some (Wrap e ''failed to restore files''), tr)
           | Returns (createdDir, None, tr) \<Rightarrow> Returns (None, tr)))"

text \<open>
  The loop of \<open>executeRestoreIncrementalBackup\<close> over the file entries: it returns the
  error that ends it, if any, what happened, and the binary log files whose removal
  was deferred, the last one first.
\<close>

fun applyBinlogFiles ::
  "Mycnf \<Rightarrow> restoreEnv \<Rightarrow> string \<Rightarrow> FileEntry list \<Rightarrow> string list
     \<Rightarrow> error option \<times> restore_event list \<times> string list" where
  "applyBinlogFiles cnf env createdDir [] deferred = (None, [], deferred)"
| "applyBinlogFiles cnf env createdDir (fe # fes) deferred =
     (case fullPath cnf (fe\<lparr>ParentPath := createdDir\<rparr>) of
        Inl e \<Rightarrow> (Some (Wrap e ''failed to restore file''), [], deferred)
      | Inr binlogFile \<Rightarrow>
          (case ApplyBinlogFile env binlogFile of
             Some e \<Rightarrow>
               (Some (Wrap e ''failed to extract binlog file''),
                [RvApplyBinlogFile binlogFile (Some e)], deferred)
           | None \<Rightarrow>
               (case applyBinlogFiles cnf env createdDir fes (binlogFile # deferred) of
                  (r, tr, deferred') \<Rightarrow>
                    (r, RvApplyBinlogFile binlogFile None # tr, deferred'))))"

text \<open>
  \<open>executeRestoreIncrementalBackup\<close>: the error of \<open>restoreFiles\<close> is looked at after
  the loop; the deferred removals of the binary log files and of the directory run at
  every return.
\<close>

definition executeRestoreIncrementalBackup ::
  "settings \<Rightarrow> Mycnf \<Rightarrow> restoreEnv \<Rightarrow> builtinBackupManifest
     \<Rightarrow> (error option \<times> restore_event list) outcome" where
  "executeRestoreIncrementalBackup cfg cnf env bm =
     (case restoreFiles cfg cnf env bm of
        Panics \<Rightarrow> Panics
      | NeverReturns \<Rightarrow> NeverReturns
      | Returns (createdDir, rerr, tr) \<Rightarrow>
          if \<not> is_Mysqld env
          then Returns (Some (Errorf UNIMPLEMENTED ''expected: Mysqld''),
                        tr @ [RvRemoveAll createdDir])
          else
            (case applyBinlogFiles cnf env createdDir (FileEntries bm) [] of
               (Some e, tr', deferred) \<Rightarrow>
                 Returns (Some e, tr @ tr' @ map RvRemove deferred @ [RvRemoveAll createdDir])
             | (None, tr', deferred) \<Rightarrow>
                 Returns ((case rerr of
                             Some e \<Rightarrow> Some (Wrap e ''failed to restore files'')
                           | None \<Rightarrow> None),
                          tr @ tr' @ map RvRemove deferred @ [RvRemoveAll createdDir])))"

text \<open>\<open>ExecuteRestore\<close> returns the manifest or its error, and what happened.\<close>

definition ExecuteRestore ::
  "settings \<Rightarrow> Mycnf \<Rightarrow> restoreEnv \<Rightarrow> ((error + builtinBackupManifest) \<times> restore_event list) outcome" where
  "ExecuteRestore cfg cnf env =
     (case getBackupManifestInto env of
        Inl e \<Rightarrow> Returns (Inl e, [])
      | Inr bm \<Rightarrow>
          (case createStateFile env of
             Some e \<Rightarrow> Returns (Inl e, [])
           | None \<Rightarrow>
               (case (if Incremental bm then executeRestoreIncrementalBackup cfg cnf env bm
                      else executeRestoreFullBackup cfg cnf env bm) of
                  Panics \<Rightarrow> Panics
                | NeverReturns \<Rightarrow> NeverReturns
                | Returns (Some e, tr) \<Rightarrow> Returns (Inl e, RvCreateStateFile # tr)
                | Returns (None, tr) \<Rightarrow> Returns (Inr bm, RvCreateStateFile # tr))))"

fun is_removal :: "restore_event \<Rightarrow> bool" where
  "is_removal (RvRemove f) = True"
| "is_removal (RvRemoveAll d) = True"
| "is_removal ev = False"

text \<open>\<open>reaches_hash_check\<close>: the source and the destination open, the decompressor, if
  one is needed, is there and created, and the copy ends without error, so that
  \<open>restoreFile\<close> compares the hashes.\<close>

definition reaches_hash_check ::
  "settings \<Rightarrow> Mycnf \<Rightarrow> restoreFileSteps \<Rightarrow> FileEntry \<Rightarrow> builtinBackupManifest \<Rightarrow> bool" where
  "reaches_hash_check cfg cnf st fe bm =
     (rf_ReadFile st = None \<and> open_destination cnf st fe = None
      \<and> (SkipCompress bm \<or>
          (case chooseDecompressor cfg bm of
             None \<Rightarrow> False
           | Some (ExternalDecompressorCmdOf cmd) \<Rightarrow> rf_newExternalDecompressor st cmd = None
           | Some (BuiltinDecompressorOf engine) \<Rightarrow> rf_newBuiltinDecompressor st engine = None))
      \<and> rf_Copy st = None)"

subsection \<open>Example restores\<close>

definition cnf0 :: Mycnf where
  "cnf0 = \<lparr>InnodbDataHomeDir = ''/vt/innodb/data'', InnodbLogGroupHomeDir = ''/vt/innodb/logs'',
            DataDir = ''/vt/data'', BinLogPath = ''/vt/bin-logs/vt-bin''\<rparr>"

definition rsteps_ok :: restoreFileSteps where
  "rsteps_ok = \<lparr>rf_ReadFile = None, rf_MkdirAll = None, rf_Create = None,
                rf_newExternalDecompressor = (\<lambda>cmd. None),
                rf_newBuiltinDecompressor = (\<lambda>engine. None),
                rf_Copy = None, rf_HashString = ''cbf43926'', rf_Flush = None,
                rf_decompressor_Close = None, rf_dest_Close = None\<rparr>"

text \<open>The storage gives other bytes for the second file of the full backup, and for
  the first file of the incremental one.\<close>

definition renv_full :: restoreEnv where
  "renv_full =
     \<lparr>getBackupManifestInto = Inr manifest_full, createStateFile = None,
      prepareToRestore = None, MkdirTemp = Inr ''/tmp/restore-incremental-1'',
      r_Concurrency = 2, r_acquire = (\<lambda>i. None), r_ctx_done = (\<lambda>i. False),
      r_schedule = [0, 1, 1],
      restore_steps = (\<lambda>i. if i = 1 then rsteps_ok\<lparr>rf_HashString := ''00000000''\<rparr>
                            else rsteps_ok),
      is_Mysqld = True, ApplyBinlogFile = (\<lambda>f. None)\<rparr>"

definition renv_incremental :: restoreEnv where
  "renv_incremental =
     renv_full\<lparr>getBackupManifestInto := Inr manifest_incremental,
       restore_steps := (\<lambda>i. if i = 0 then rsteps_ok\<lparr>rf_HashString := ''00000000''\<rparr>
                             else rsteps_ok)\<rparr>"

definition manifest_external :: builtinBackupManifest where
  "manifest_external =
     manifest_full\<lparr>CompressionEngine := ''external'', ExternalDecompressor := ''zstd -d''\<rparr>"

text \<open>A file entry, the restore-time flag set, a manifest without a decompressor of
  its own, the error recorded for a file whose hash differs, and the events of the two
  example restores.\<close>

definition entry_ibdata :: FileEntry where
  "entry_ibdata = \<lparr>Base = ''Data'', Name = ''ibdata1'', Hash = ''cbf43926'', ParentPath = []\<rparr>"

definition cfg_flag :: settings where
  "cfg_flag = cfg0\<lparr>ExternalDecompressorCmd := ''unzstd''\<rparr>"

definition manifest_external_bare :: builtinBackupManifest where
  "manifest_external_bare = manifest_external\<lparr>ExternalDecompressor := []\<rparr>"

definition mismatch_error :: error where
  "mismatch_error = Wrap (Errorf INTERNAL ''hash mismatch'') ''can't restore file''"

definition trace_restore_full :: "restore_event list" where
  "trace_restore_full =
     [RvCreateStateFile, RvRestoreTask (Ran 1 [mismatch_error]), RvRestoreTask (Ran 0 [])]"

definition trace_restore_incremental :: "restore_event list" where
  "trace_restore_incremental =
     [RvCreateStateFile, RvRestoreTask (Ran 1 []), RvRestoreTask (Ran 0 [mismatch_error]),
      RvApplyBinlogFile ''/tmp/restore-incremental-1/vt/bin-logs/binlog.2'' None,
      RvApplyBinlogFile ''/tmp/restore-incremental-1/vt/bin-logs/binlog.3'' None,
      RvRemove ''/tmp/restore-incremental-1/vt/bin-logs/binlog.3'',
      RvRemove ''/tmp/restore-incremental-1/vt/bin-logs/binlog.2'',
      RvRemoveAll ''/tmp/restore-incremental-1'']"

subsection \<open>Properties of the restore\<close>

text \<open>
  C5. For a manifest whose compression engine is \<open>external\<close> and which was not taken
  with \<open>SkipCompress\<close>, once \<open>restoreFile\<close> has opened the source and the
  destination: the decompressor it calls for is the external command of the
  restore-time flag when the flag is not empty, else the external command of the
  manifest when that is not empty, else there is none and \<open>restoreFile\<close> returns the
  error that the engine is not supported.
\<close>

theorem external_decompressor_choice:
  assumes "CompressionEngine bm = ExternalCompressor" and "\<not> SkipCompress bm"
    and "rf_ReadFile st = None" and "open_destination cnf st fe = None"
  shows "if ExternalDecompressorCmd cfg \<noteq> []
         then snd (restoreFile cfg cnf st fe bm)
                = Some (ExternalDecompressorCmdOf (ExternalDecompressorCmd cfg))
         else if ExternalDecompressor bm \<noteq> []
         then snd (restoreFile cfg cnf st fe bm)
                = Some (ExternalDecompressorCmdOf (ExternalDecompressor bm))
         else restoreFile cfg cnf st fe bm
                = (Some (Wrap errUnsupportedDeCompressionEngine ''value: external''), None)"
  using assms
  by (auto simp: restoreFile_def chooseDecompressor_def Let_def ExternalCompressor_def
        split: option.splits)

theorem external_decompressor_choice_witness:
  "CompressionEngine manifest_external = ExternalCompressor \<and> \<not> SkipCompress manifest_external
   \<and> CompressionEngine manifest_external_bare = ExternalCompressor
   \<and> \<not> SkipCompress manifest_external_bare
   \<and> rf_ReadFile rsteps_ok = None \<and> open_destination cnf0 rsteps_ok entry_ibdata = None
   \<and> ExternalDecompressorCmd cfg_flag = ''unzstd''
   \<and> snd (restoreFile cfg_flag cnf0 rsteps_ok entry_ibdata manifest_external)
        = Some (ExternalDecompressorCmdOf ''unzstd'')
   \<and> ExternalDecompressorCmd cfg0 = [] \<and> ExternalDecompressor manifest_external = ''zstd -d''
   \<and> snd (restoreFile cfg0 cnf0 rsteps_ok entry_ibdata manifest_external)
        = Some (ExternalDecompressorCmdOf ''zstd -d'')
   \<and> ExternalDecompressor manifest_external_bare = []
   \<and> restoreFile cfg0 cnf0 rsteps_ok entry_ibdata manifest_external_bare
        = (Some (Wrap errUnsupportedDeCompressionEngine ''value: external''), None)"
proof -
  have a: "CompressionEngine manifest_external = ExternalCompressor"
    "\<not> SkipCompress manifest_external"
    "CompressionEngine manifest_external_bare = ExternalCompressor"
    "\<not> SkipCompress manifest_external_bare"
    by code_simp+
  have b: "rf_ReadFile rsteps_ok = None" "open_destination cnf0 rsteps_ok entry_ibdata = None"
    by code_simp+
  have c: "ExternalDecompressorCmd cfg_flag = ''unzstd''" "ExternalDecompressorCmd cfg0 = []"
    "ExternalDecompressor manifest_external = ''zstd -d''"
    "ExternalDecompressor manifest_external_bare = []"
    by code_simp+
  from external_decompressor_choice [OF a(1,2) b, of cfg_flag]
       external_decompressor_choice [OF a(1,2) b, of cfg0]
       external_decompressor_choice [OF a(3,4) b, of cfg0] a b c
  show ?thesis by simp
qed

lemma restoreFile_hash_mismatch:
  assumes "reaches_hash_check cfg cnf st fe bm" and "rf_HashString st \<noteq> Hash fe"
  shows "fst (restoreFile cfg cnf st fe bm) = Some (Errorf INTERNAL ''hash mismatch'')"
  using assms
  by (auto simp: restoreFile_def reaches_hash_check_def Let_def
        split: option.splits decompressor.splits)


lemma caused_by_refl: "caused_by e e"
  by (cases e) auto

lemma caused_by_aggregate:
  assumes "Wrap c m \<in> set es"
  shows "caused_by (Wrap (Aggregate es) m') c"
proof -
  have "caused_by (Wrap c m) c" using caused_by_refl [of c] by simp
  with assms have "\<exists>e\<in>set es. caused_by e c" by blast
  then show ?thesis by simp
qed

lemma restoreFiles_cases:
  assumes "restoreFiles cfg cnf env bm = Returns (dir, rerr, tr)"
  shows "(\<exists>e. restore_dir env (manifest_read bm) = Inl e \<and> tr = [])
       \<or> (\<exists>p. restore_dir env (manifest_read bm) = Inr dir
              \<and> run_tasks (r_Concurrency env) (r_acquire env) (r_ctx_done env)
                     (restoreFile_errors cfg cnf env (manifest_read bm) dir)
                     (length (FileEntries (manifest_read bm))) [] (r_schedule env) = Returns p
              \<and> rerr = recorder_Error (recorded p) \<and> tr = map RvRestoreTask (tlog p))"
  using assms
  by (auto simp: restoreFiles_def Let_def split: sum.splits outcome.splits)

lemma manifest_read_simps [simp]:
  "FileEntries (manifest_read bm) = FileEntries bm"
  "Incremental (manifest_read bm) = Incremental bm"
  "restore_dir env (manifest_read bm) = restore_dir env bm"
  by (simp_all add: manifest_read_def restore_dir_def)

lemma restoreFiles_mismatch:
  assumes rf: "restoreFiles cfg cnf env bm = Returns (d, rerr, tr)"
    and ran: "RvRestoreTask (Ran i errs) \<in> set tr"
    and dir: "restore_dir env bm = Inr dir"
    and reach: "reaches_hash_check cfg cnf (restore_steps env i)
             ((FileEntries bm ! i)\<lparr>ParentPath := dir\<rparr>) (manifest_read bm)"
    and hash: "rf_HashString (restore_steps env i) \<noteq> Hash (FileEntries bm ! i)"
  shows "d = dir" and "list_all (\<lambda>e. \<not> is_removal e) tr"
    and "\<exists>es. rerr = Some (Aggregate es)
              \<and> Wrap (Errorf INTERNAL ''hash mismatch'') ''can't restore file'' \<in> set es"
proof -
  from ran have "tr \<noteq> []" by auto
  with restoreFiles_cases [OF rf] obtain p where
    c: "restore_dir env (manifest_read bm) = Inr d"
       "run_tasks (r_Concurrency env) (r_acquire env) (r_ctx_done env)
                     (restoreFile_errors cfg cnf env (manifest_read bm) d)
                     (length (FileEntries (manifest_read bm))) [] (r_schedule env) = Returns p"
       "rerr = recorder_Error (recorded p)" "tr = map RvRestoreTask (tlog p)"
    by blast
  from c(1) dir have d: "d = dir" by simp
  from c(2) have run: "run_tasks (r_Concurrency env) (r_acquire env) (r_ctx_done env)
                     (restoreFile_errors cfg cnf env (manifest_read bm) d)
                     (length (FileEntries bm)) [] (r_schedule env) = Returns p" by simp
  note rerr = c(3) and tr = c(4)
  show "d = dir" by (rule d)
  show "list_all (\<lambda>e. \<not> is_removal e) tr" by (simp add: tr list_all_iff)
  from ran tr have "Ran i errs \<in> set (tlog p)" by auto
  from run_tasks_recorded [OF run this]
  have sub: "set (restoreFile_errors cfg cnf env (manifest_read bm) d i) \<subseteq> set (recorded p)"
    by simp
  from restoreFile_hash_mismatch [OF reach] hash
  have "restoreFile_errors cfg cnf env (manifest_read bm) dir i
          = [Wrap (Errorf INTERNAL ''hash mismatch'') ''can't restore file'']"
    by (simp add: restoreFile_errors_def)
  with sub d have "Wrap (Errorf INTERNAL ''hash mismatch'') ''can't restore file''
                     \<in> set (recorded p)" by simp
  then show "\<exists>es. rerr = Some (Aggregate es)
              \<and> Wrap (Errorf INTERNAL ''hash mismatch'') ''can't restore file'' \<in> set es"
    by (auto simp: rerr recorder_Error_def)
qed


lemma applyBinlogFiles_events:
  "applyBinlogFiles cnf env dir fes deferred = (r, tr, deferred')
     \<Longrightarrow> list_all (\<lambda>e. \<not> is_removal e) tr \<and> (\<forall>t. RvRestoreTask t \<notin> set tr)"
proof (induction fes arbitrary: deferred r tr deferred')
  case Nil
  then show ?case by simp
next
  case (Cons fe fes)
  then show ?case
    by (auto split: sum.splits option.splits prod.splits)
qed

text \<open>
  C4 (as the code has it). When \<open>ExecuteRestore\<close> returns and the task of a file
  worked on it, \<open>restoreFile\<close> came to compare the hashes and the hash of the bytes
  read differs from the hash of the file entry: \<open>restoreFile\<close> returns an error of
  the internal kind. For a full backup the restore returns an error that holds this
  one, and nothing is removed. For an incremental backup the restore returns an error
  too, and the temporary directory the files were restored into is removed.
\<close>

theorem hash_mismatch_aborts_restore:
  assumes ret: "ExecuteRestore cfg cnf env = Returns (res, tr)"
    and m: "getBackupManifestInto env = Inr bm"
    and ran: "RvRestoreTask (Ran i errs) \<in> set tr"
    and dir: "restore_dir env bm = Inr dir"
    and reach: "reaches_hash_check cfg cnf (restore_steps env i)
             ((FileEntries bm ! i)\<lparr>ParentPath := dir\<rparr>) (manifest_read bm)"
    and hash: "rf_HashString (restore_steps env i) \<noteq> Hash (FileEntries bm ! i)"
  shows "fst (restoreFile cfg cnf (restore_steps env i)
                ((FileEntries bm ! i)\<lparr>ParentPath := dir\<rparr>) (manifest_read bm))
           = Some (Errorf INTERNAL ''hash mismatch'')
         \<and> (if Incremental bm
            then (\<exists>e. res = Inl e) \<and> RvRemoveAll dir \<in> set tr
            else (\<exists>e. res = Inl e \<and> caused_by e (Errorf INTERNAL ''hash mismatch''))
                 \<and> list_all (\<lambda>e. \<not> is_removal e) tr)"
proof -
  from restoreFile_hash_mismatch [OF reach] hash
  have first: "fst (restoreFile cfg cnf (restore_steps env i)
                ((FileEntries bm ! i)\<lparr>ParentPath := dir\<rparr>) (manifest_read bm))
           = Some (Errorf INTERNAL ''hash mismatch'')" by simp
  from ret m ran have st: "createStateFile env = None"
    by (auto simp: ExecuteRestore_def split: option.splits)
  have second: "if Incremental bm
            then (\<exists>e. res = Inl e) \<and> RvRemoveAll dir \<in> set tr
            else (\<exists>e. res = Inl e \<and> caused_by e (Errorf INTERNAL ''hash mismatch''))
                 \<and> list_all (\<lambda>e. \<not> is_removal e) tr"
  proof (cases "Incremental bm")
    case False
    with ret m st obtain r tr1 where
      full: "executeRestoreFullBackup cfg cnf env bm = Returns (r, tr1)"
      and tr: "tr = RvCreateStateFile # tr1"
      and res: "res = (case r of Some e \<Rightarrow> Inl e | None \<Rightarrow> Inr bm)"
      by (auto simp: ExecuteRestore_def split: outcome.splits option.splits)
    from ran tr have ran1: "RvRestoreTask (Ran i errs) \<in> set tr1" by simp
    with full obtain d rerr where
      rf: "restoreFiles cfg cnf env bm = Returns (d, rerr, tr1)"
      and r: "r = (case rerr of Some e \<Rightarrow> Some (Wrap e ''failed to restore files'')
                   | None \<Rightarrow> None)"
      by (auto simp: executeRestoreFullBackup_def split: outcome.splits option.splits)
    note mm = restoreFiles_mismatch [OF rf ran1 dir reach hash]
    from mm(3) obtain es where es: "rerr = Some (Aggregate es)"
      "Wrap (Errorf INTERNAL ''hash mismatch'') ''can't restore file'' \<in> set es" by blast
    from caused_by_aggregate [OF es(2)] es(1) r res
    have "\<exists>e. res = Inl e \<and> caused_by e (Errorf INTERNAL ''hash mismatch'')" by simp
    with mm(2) tr False show ?thesis by simp
  next
    case True
    with ret m st obtain r tr1 where
      inc: "executeRestoreIncrementalBackup cfg cnf env bm = Returns (r, tr1)"
      and tr: "tr = RvCreateStateFile # tr1"
      and res: "res = (case r of Some e \<Rightarrow> Inl e | None \<Rightarrow> Inr bm)"
      by (auto simp: ExecuteRestore_def split: outcome.splits option.splits)
    from inc obtain d rerr tr0 where
      rf: "restoreFiles cfg cnf env bm = Returns (d, rerr, tr0)"
      by (auto simp: executeRestoreIncrementalBackup_def split: outcome.splits)
    obtain ar atr adef where ap:
      "applyBinlogFiles cnf env d (FileEntries bm) [] = (ar, atr, adef)"
      by (cases "applyBinlogFiles cnf env d (FileEntries bm) []") auto
    note ae = applyBinlogFiles_events [OF ap]
    from inc rf ap have shape:
      "tr1 = tr0 @ [RvRemoveAll d] \<or> tr1 = tr0 @ atr @ map RvRemove adef @ [RvRemoveAll d]"
      and rr: "r = (if \<not> is_Mysqld env then Some (Errorf UNIMPLEMENTED ''expected: Mysqld'')
                    else case ar of Some e \<Rightarrow> Some e
                         | None \<Rightarrow> (case rerr of
                             Some e \<Rightarrow> Some (Wrap e ''failed to restore files'')
                           | None \<Rightarrow> None))"
      by (auto simp: executeRestoreIncrementalBackup_def split: if_splits option.splits)
    from ran tr shape ae have ran0: "RvRestoreTask (Ran i errs) \<in> set tr0" by auto
    note mm = restoreFiles_mismatch [OF rf ran0 dir reach hash]
    from mm(3) rr res have "\<exists>e. res = Inl e" by (auto split: option.splits)
    moreover from shape tr mm(1) have "RvRemoveAll dir \<in> set tr" by auto
    ultimately show ?thesis using True by simp
  qed
  from first second show ?thesis by simp
qed

theorem hash_mismatch_aborts_restore_witness:
  "ExecuteRestore cfg0 cnf0 renv_full =
     Returns (Inl (Wrap (Aggregate [mismatch_error]) ''failed to restore files''),
              trace_restore_full)
   \<and> getBackupManifestInto renv_full = Inr manifest_full
   \<and> RvRestoreTask (Ran 1 [mismatch_error]) \<in> set trace_restore_full
   \<and> restore_dir renv_full manifest_full = Inr []
   \<and> reaches_hash_check cfg0 cnf0 (restore_steps renv_full 1)
        ((FileEntries manifest_full ! 1)\<lparr>ParentPath := []\<rparr>) (manifest_read manifest_full)
   \<and> rf_HashString (restore_steps renv_full 1) \<noteq> Hash (FileEntries manifest_full ! 1)
   \<and> fst (restoreFile cfg0 cnf0 (restore_steps renv_full 1)
             ((FileEntries manifest_full ! 1)\<lparr>ParentPath := []\<rparr>)
             (manifest_read manifest_full))
        = Some (Errorf INTERNAL ''hash mismatch'')
   \<and> \<not> Incremental manifest_full
   \<and> caused_by (Wrap (Aggregate [mismatch_error]) ''failed to restore files'')
        (Errorf INTERNAL ''hash mismatch'')
   \<and> list_all (\<lambda>e. \<not> is_removal e) trace_restore_full"
proof -
  have a: "ExecuteRestore cfg0 cnf0 renv_full =
     Returns (Inl (Wrap (Aggregate [mismatch_error]) ''failed to restore files''),
              trace_restore_full)"
    by code_simp
  have b: "getBackupManifestInto renv_full = Inr manifest_full"
    by (simp add: renv_full_def)
  have c: "RvRestoreTask (Ran 1 [mismatch_error]) \<in> set trace_restore_full"
    by (simp add: trace_restore_full_def)
  have d: "restore_dir renv_full manifest_full = Inr []"
    by code_simp
  have e: "reaches_hash_check cfg0 cnf0 (restore_steps renv_full 1)
        ((FileEntries manifest_full ! 1)\<lparr>ParentPath := []\<rparr>) (manifest_read manifest_full)"
    by code_simp
  have f: "rf_HashString (restore_steps renv_full 1) \<noteq> Hash (FileEntries manifest_full ! 1)"
    by code_simp
  have g: "\<not> Incremental manifest_full" by code_simp
  have h: "caused_by (Wrap (Aggregate [mismatch_error]) ''failed to restore files'')
        (Errorf INTERNAL ''hash mismatch'')"
    by (simp add: mismatch_error_def)
  from hash_mismatch_aborts_restore [OF a b c d e f] a b c d e f g h
  show ?thesis by simp
qed

text \<open>
  C4 as stated has no restored file deleted after a hash mismatch, for any file. In
  this restore of an incremental backup the first file has another hash: the binary
  logs are applied all the same, and the files and their directory are removed.
\<close>

theorem incremental_restore_removes_counterexample:
  "ExecuteRestore cfg0 cnf0 renv_incremental =
     Returns (Inl (Wrap (Aggregate [mismatch_error]) ''failed to restore files''),
              trace_restore_incremental)
   \<and> RvRestoreTask (Ran 0 [mismatch_error]) \<in> set trace_restore_incremental
   \<and> RvApplyBinlogFile ''/tmp/restore-incremental-1/vt/bin-logs/binlog.2'' None
         \<in> set trace_restore_incremental
   \<and> RvRemove ''/tmp/restore-incremental-1/vt/bin-logs/binlog.2''
         \<in> set trace_restore_incremental
   \<and> RvRemoveAll ''/tmp/restore-incremental-1'' \<in> set trace_restore_incremental"
  by code_simp

section \<open>The file tasks finish\<close>

text \<open>
  With a semaphore of positive capacity every file task finishes, whatever the
  schedule, so that \<open>wg.Wait()\<close> returns: \<open>backupFiles\<close>, \<open>restoreFiles\<close> and
  \<open>ExecuteRestore\<close> return. \<open>todo\<close> counts the steps the tasks still have to make.
\<close>

text \<open>The steps a task still has to make: two while it waits, one while it runs.\<close>

fun weight :: "task_status \<Rightarrow> nat" where
  "weight Waiting = 2"
| "weight Running = 1"
| "weight Finished = 0"

definition todo :: "pool \<Rightarrow> nat" where
  "todo p = sum_list (map weight (status p))"

lemma sum_list_update:
  "i < length xs \<Longrightarrow>
   sum_list (map f (xs[i := y])) + f (xs ! i) = sum_list (map f xs) + (f y :: nat)"
proof (induction xs arbitrary: i)
  case Nil
  then show ?case by simp
next
  case (Cons x xs)
  then show ?case by (cases i) auto
qed

lemma first_index_Some:
  "first_index s xs = Some i \<Longrightarrow> i < length xs \<and> xs ! i = s"
proof (induction xs arbitrary: i)
  case Nil
  then show ?case by simp
next
  case (Cons x xs)
  then show ?case by (cases i) (auto split: if_splits)
qed

lemma first_index_None: "first_index s xs = None \<Longrightarrow> s \<notin> set xs"
  by (induction xs) (auto split: if_splits)

lemma pick_None:
  assumes "pick ss = None"
  shows "list_all (\<lambda>s. s = Finished) ss"
proof -
  from assms have "first_index Running ss = None" "first_index Waiting ss = None"
    by (auto simp: pick_def split: option.splits)
  then have "Running \<notin> set ss" "Waiting \<notin> set ss" by (auto dest: first_index_None)
  then show ?thesis
    unfolding list_all_iff
    by (metis task_status.exhaust)
qed

lemma running_zero: "Running \<notin> set (status p) \<Longrightarrow> running p = 0"
  by (auto simp: running_def filter_empty_conv)

lemma todo_step:
  assumes "pick (status p) = Some i" and "0 < N"
  shows "todo (task_step N acq ctxDone work p i) < todo p"
proof (cases "first_index Running (status p)")
  case (Some j)
  with assms(1) have ij: "i = j" by (simp add: pick_def)
  from first_index_Some [OF Some] ij have i: "i < length (status p)" "status p ! i = Running"
    by auto
  from sum_list_update [OF i(1), of weight Finished] i(2)
  show ?thesis using i by (simp add: task_step_def todo_def)
next
  case None
  with assms(1) have w: "first_index Waiting (status p) = Some i" by (simp add: pick_def)
  from first_index_Some [OF w] have i: "i < length (status p)" "status p ! i = Waiting"
    by auto
  from running_zero [OF first_index_None [OF None]] assms(2)
  have slot: "int (running p) < N" by simp
  from sum_list_update [OF i(1), of weight Finished]
       sum_list_update [OF i(1), of weight Running] i(2)
  show ?thesis using i slot by (auto simp: task_step_def todo_def)
qed

lemma drain_finishes:
  assumes "0 < N"
  shows "todo p \<le> k \<Longrightarrow> list_all (\<lambda>s. s = Finished) (status (drain k N acq ctxDone work p))"
proof (induction k arbitrary: p)
  case 0
  then have "sum_list (map weight (status p)) = 0" by (simp add: todo_def)
  then have "\<forall>s \<in> set (status p). weight s = 0" by simp
  moreover have "\<And>s. weight s = 0 \<Longrightarrow> s = Finished"
  proof -
    fix s show "weight s = 0 \<Longrightarrow> s = Finished" by (cases s) simp_all
  qed
  ultimately show ?case
    unfolding list_all_iff by auto
next
  case (Suc k)
  show ?case
  proof (cases "pick (status p)")
    case None
    then show ?thesis using pick_None by simp
  next
    case (Some i)
    from todo_step [OF Some assms, of acq ctxDone work] Suc.prems
    have "todo (task_step N acq ctxDone work p i) \<le> k" by simp
    from Suc.IH [OF this] Some show ?thesis by simp
  qed
qed

lemma todo_bound: "todo p \<le> 2 * length (status p)"
proof -
  have w2: "\<And>s. weight s \<le> 2"
  proof -
    fix s show "weight s \<le> 2" by (cases s) simp_all
  qed
  have "\<And>ss. sum_list (map weight ss) \<le> 2 * length ss"
  proof -
    fix ss show "sum_list (map weight ss) \<le> 2 * length ss"
    proof (induction ss)
      case Nil
      then show ?case by simp
    next
      case (Cons a ss)
      with w2 [of a] show ?case by simp
    qed
  qed
  then show ?thesis by (simp add: todo_def)
qed

lemma run_tasks_returns:
  assumes "0 < N"
  shows "\<exists>p. run_tasks N acq ctxDone work n errs0 sched = Returns p"
proof -
  let ?p1 = "foldl (task_step N acq ctxDone work)
               \<lparr>status = replicate n Waiting, recorded = errs0, tlog = []\<rparr> sched"
  have "pool_inv work n errs0 ?p1" by (rule pool_inv_foldl [OF pool_inv_init])
  then have "length (status ?p1) = n" by (simp add: pool_inv_def)
  with todo_bound [of ?p1] have "todo ?p1 \<le> 2 * n" by simp
  from drain_finishes [OF assms this] show ?thesis
    by (simp add: run_tasks_def Let_def)
qed


lemma backupFiles_returns:
  assumes "0 < Concurrency params"
  shows "\<exists>r tr. backupFiles cfg params env rp pp fp bl uuid = Returns (r, tr)"
proof (cases "if isIncrementalBackup params then binlogFilesToBackup env bl
              else findFilesToBackup env")
  case (Inl e)
  then show ?thesis by (simp add: backupFiles_def)
next
  case (Inr fes)
  from run_tasks_returns [OF assms] obtain p where
    "run_tasks (Concurrency params) (acquire env) (ctx_done env)
       (\<lambda>i. backupFile_errors cfg (file_steps env i))
       (length fes) (bh_errors env) (schedule env) = Returns p" by blast
  with Inr show ?thesis
    by (simp add: backupFiles_def Let_def split: option.splits prod.splits)
qed

lemma restoreFiles_returns:
  assumes "0 < r_Concurrency env"
  shows "\<exists>d e tr. restoreFiles cfg cnf env bm = Returns (d, e, tr)"
proof (cases "restore_dir env (manifest_read bm)")
  case (Inl e)
  then show ?thesis by (simp add: restoreFiles_def Let_def)
next
  case (Inr d)
  from run_tasks_returns [OF assms] obtain p where
    "run_tasks (r_Concurrency env) (r_acquire env) (r_ctx_done env)
       (restoreFile_errors cfg cnf env (manifest_read bm) d)
       (length (FileEntries (manifest_read bm))) [] (r_schedule env) = Returns p" by blast
  with Inr show ?thesis by (simp add: restoreFiles_def Let_def)
qed

lemma ExecuteRestore_returns:
  assumes "0 < r_Concurrency env"
  shows "\<exists>res tr. ExecuteRestore cfg cnf env = Returns (res, tr)"
proof (cases "getBackupManifestInto env")
  case (Inl e)
  then show ?thesis by (simp add: ExecuteRestore_def)
next
  case (Inr bm)
  note m = Inr
  show ?thesis
  proof (cases "createStateFile env")
    case (Some e)
    with m show ?thesis by (simp add: ExecuteRestore_def)
  next
    case None
    note st = None
    from restoreFiles_returns [OF assms] obtain d rerr tr0 where
      rf: "restoreFiles cfg cnf env bm = Returns (d, rerr, tr0)" by blast
    have "\<exists>r tr. (if Incremental bm then executeRestoreIncrementalBackup cfg cnf env bm
                   else executeRestoreFullBackup cfg cnf env bm) = Returns (r, tr)"
    proof (cases "Incremental bm")
      case False
      with rf show ?thesis
        by (cases "prepareToRestore env"; cases rerr)
           (simp_all add: executeRestoreFullBackup_def)
    next
      case True
      obtain ar atr adef where
        "applyBinlogFiles cnf env d (FileEntries bm) [] = (ar, atr, adef)"
        by (cases "applyBinlogFiles cnf env d (FileEntries bm) []") auto
      with rf True show ?thesis
        by (cases ar) (simp_all add: executeRestoreIncrementalBackup_def)
    qed
    then obtain r tr where
      "(if Incremental bm then executeRestoreIncrementalBackup cfg cnf env bm
        else executeRestoreFullBackup cfg cnf env bm) = Returns (r, tr)" by blast
    with m st show ?thesis
      by (cases r) (simp_all add: ExecuteRestore_def)
  qed
qed

section \<open>The full backup returns, or waits for the replica\<close>

text \<open>
  The loop at the end of \<open>executeFullBackup\<close> ends when in some round the context
  has an error, or \<open>ReplicationStatus\<close> fails, or the replica is at another position.
  With a positive concurrency a full backup returns, or it never returns and then
  \<open>mysqld\<close> was shut down and started again, \<open>super_read_only\<close> was set back, and the
  function waits in that loop for the replica it started; it returns when the loop
  ends.
\<close>

lemma waitForPosition_from:
  assumes "ctx_Err my k \<noteq> None
           \<or> (case ReplicationStatus_poll my k of
                 Inl e \<Rightarrow> True | Inr st \<Rightarrow> rs_Position st \<noteq> rp)"
  shows "j \<le> k \<Longrightarrow> waitForPosition my rp j \<noteq> None"
proof (induction "k - j" arbitrary: j)
  case 0
  then have "j = k" by simp
  with assms show ?case
    by (subst waitForPosition.simps) (auto split: option.splits sum.splits)
next
  case (Suc d)
  then have "d = k - Suc j" "Suc j \<le> k" by simp_all
  from Suc.hyps(1) [OF this] show ?case
    by (subst waitForPosition.simps) (auto split: option.splits sum.splits)
qed

lemma waitForPosition_ends:
  assumes "ctx_Err my k \<noteq> None
           \<or> (case ReplicationStatus_poll my k of
                 Inl e \<Rightarrow> True | Inr st \<Rightarrow> rs_Position st \<noteq> rp)"
  shows "waitForPosition my rp 0 \<noteq> None"
  using waitForPosition_from [OF assms, of 0] by simp

lemma restartAfterBackup_outcome:
  "(\<exists>rerr tr. restartAfterBackup my usable backupErr sro semi rsr rp
       = Returns (usable, rerr, tr))
   \<or> (restartAfterBackup my usable backupErr sro semi rsr rp = NeverReturns
       \<and> Start my = None \<and> SetSuperReadOnly_restore my = None \<and> rsr
       \<and> waitForPosition my rp 0 = None)"
  unfolding restartAfterBackup_def Let_def
  by (auto split: sum.splits option.splits if_splits)

lemma backupAfterPosition_outcome:
  assumes "0 < Concurrency params"
  shows "(\<exists>u e tr. backupAfterPosition cfg my env params sro semi rsr rp tr0
            = Returns (u, e, tr))
         \<or> (backupAfterPosition cfg my env params sro semi rsr rp tr0 = NeverReturns
             \<and> Shutdown my = None \<and> Start my = None \<and> SetSuperReadOnly_restore my = None
             \<and> rsr \<and> waitForPosition my rp 0 = None)"
proof (cases "GetGTIDPurged my")
  case (Inl x)
  then show ?thesis by (auto simp: backupAfterPosition_def)
next
  case (Inr gp)
  note gp = Inr
  show ?thesis
  proof (cases "GetServerUUID my")
    case (Inl x)
    with gp show ?thesis by (auto simp: backupAfterPosition_def)
  next
    case (Inr uuid)
    note uuid = Inr
    show ?thesis
    proof (cases "Shutdown my")
      case (Some x)
      with gp uuid show ?thesis by (auto simp: backupAfterPosition_def)
    next
      case None
      from backupFiles_returns [OF assms] obtain backupErr btr where
        bf: "backupFiles cfg params env rp gp None [] uuid = Returns (backupErr, btr)"
        by blast
      from restartAfterBackup_outcome [of my "backupErr = None" backupErr sro semi rsr rp]
      show ?thesis
      proof
        assume "\<exists>rerr tr. restartAfterBackup my (backupErr = None) backupErr sro semi rsr rp
                  = Returns (backupErr = None, rerr, tr)"
        then obtain rerr tr where
          "restartAfterBackup my (backupErr = None) backupErr sro semi rsr rp
                  = Returns (backupErr = None, rerr, tr)" by blast
        with gp uuid None bf show ?thesis by (auto simp: backupAfterPosition_def)
      next
        assume "restartAfterBackup my (backupErr = None) backupErr sro semi rsr rp
                  = NeverReturns
                \<and> Start my = None \<and> SetSuperReadOnly_restore my = None \<and> rsr
                \<and> waitForPosition my rp 0 = None"
        with gp uuid None bf show ?thesis by (auto simp: backupAfterPosition_def)
      qed
    qed
  qed
qed

lemma executeFullBackup_outcome:
  assumes "0 < Concurrency params" and "IncrementalFromPos params = []"
  shows "(\<exists>u e tr. executeFullBackup cfg my env params = Returns (u, e, tr))
         \<or> (executeFullBackup cfg my env params = NeverReturns
             \<and> Shutdown my = None \<and> Start my = None \<and> SetSuperReadOnly_restore my = None
             \<and> replicaStartRequired_of cfg my
             \<and> (\<exists>rp. replicationPosition_of my = Inr rp \<and> waitForPosition my rp 0 = None))"
proof -
  let ?first = "case ReplicationStatus_first my of
                   Inr replicaStatus \<Rightarrow>
                     Inr (Healthy replicaStatus \<and> \<not> DisableActiveReparents cfg, False)
                 | Inl e \<Rightarrow> if e = ErrNotReplica then Inr (False, True) else Inl e"
  note defs = executeFullBackup_def Let_def
  note out = backupAfterPosition_outcome [OF assms(1), of cfg my env _ "SemiSyncEnabled my"]
  show ?thesis
  proof (cases ?first)
    case (Inl x)
    with assms show ?thesis by (auto simp: defs)
  next
    case (Inr pr)
    obtain rsr sip where pr: "pr = (rsr, sip)" by (cases pr)
    note first = Inr [unfolded pr]
    from first have rsr: "rsr = replicaStartRequired_of cfg my"
      and prim: "sip \<Longrightarrow> \<not> rsr"
      and repl_pos: "\<And>st. \<not> sip \<Longrightarrow> ReplicationStatus_stopped my = Inr st \<Longrightarrow>
                       replicationPosition_of my = Inr (rs_Position st)"
      by (auto simp: replicaStartRequired_of_def replicationPosition_of_def
            split: sum.splits if_splits)
    show ?thesis
    proof (cases "IsReadOnly my")
      case (Inl x)
      with assms first show ?thesis by (auto simp: defs)
    next
      case (Inr ro)
      note ro = Inr
      show ?thesis
      proof (cases "IsSuperReadOnly my")
        case (Inl x)
        with assms first ro show ?thesis by (auto simp: defs)
      next
        case (Inr sro)
        note sro = Inr
        show ?thesis
        proof (cases sip)
          case False
          show ?thesis
          proof (cases "StopReplication my")
            case (Some x)
            with assms first ro sro False show ?thesis by (auto simp: defs)
          next
            case None
            note stop = None
            show ?thesis
            proof (cases "ReplicationStatus_stopped my")
              case (Inl x)
              with assms first ro sro False stop show ?thesis by (auto simp: defs)
            next
              case (Inr st)
              with assms first ro sro False stop
              have eq: "executeFullBackup cfg my env params =
                      backupAfterPosition cfg my env params sro (SemiSyncEnabled my) rsr
                      (rs_Position st) [EvStopReplication None]"
                by (simp add: executeFullBackup_def Let_def)
              from out [of sro rsr "rs_Position st" "[EvStopReplication None]"]
                repl_pos [OF False Inr] rsr
              show ?thesis unfolding eq by blast
            qed
          qed
        next
          case True
          note sp = True
          have nr: "\<And>pos tr0. \<exists>u e tr.
                  backupAfterPosition cfg my env params sro (SemiSyncEnabled my) rsr pos tr0
                    = Returns (u, e, tr)"
            using out prim [OF sp] by blast
          show ?thesis
          proof (cases sro)
            case True
            show ?thesis
            proof (cases "PrimaryPosition my")
              case (Inl x)
              with assms first ro sro sp True show ?thesis by (auto simp: defs)
            next
              case (Inr pos)
              with assms first ro sro sp True
              have eq: "executeFullBackup cfg my env params =
                      backupAfterPosition cfg my env params sro (SemiSyncEnabled my) rsr
                      pos []"
                by (simp add: executeFullBackup_def Let_def)
              from nr [of pos "[]"] show ?thesis unfolding eq by blast
            qed
          next
            case False
            show ?thesis
            proof (cases "SetSuperReadOnly_enable my")
              case (Some x)
              with assms first ro sro sp False show ?thesis by (auto simp: defs)
            next
              case None
              note en = None
              let ?dev = "EvSetSuperReadOnly False (SetSuperReadOnly_deferred my)"
              show ?thesis
              proof (cases "PrimaryPosition my")
                case (Inl x)
                with assms first ro sro sp False en show ?thesis
                  by (auto simp: defs with_deferred_def)
              next
                case (Inr pos)
                with assms first ro sro sp False en
                have eq: "executeFullBackup cfg my env params = with_deferred ?dev
                        (backupAfterPosition cfg my env params sro (SemiSyncEnabled my) rsr
                           pos [EvSetSuperReadOnly True None])"
                  by (simp add: executeFullBackup_def Let_def)
                from nr [of pos "[EvSetSuperReadOnly True None]"] show ?thesis
                  unfolding eq by (auto simp: with_deferred_def)
              qed
            qed
          qed
        qed
      qed
    qed
  qed
qed

lemma executeFullBackup_returns:
  assumes "0 < Concurrency params" and "IncrementalFromPos params = []"
    and "\<And>rp. replicationPosition_of my = Inr rp \<Longrightarrow> waitForPosition my rp 0 \<noteq> None"
  shows "\<exists>u e tr. executeFullBackup cfg my env params = Returns (u, e, tr)"
  using executeFullBackup_outcome [OF assms(1,2), of cfg my env] assms(3) by blast

end
